theory Spec2Isabelle
  imports Complex_Main "HOL-Library.AList" "HOL-Library.Log_Nat"
begin

section \<open>Lookup tables of statsProcessor.js\<close>

text \<open>
  The replay statistics engine (\<^verbatim>\<open>src/backend/statsProcessor.js\<close>, the third document of
  \<^verbatim>\<open>src/main.js\<close>) is embedded function by function. JavaScript strings are \<open>string\<close>,
  \<open>null\<close>/\<open>undefined\<close> are \<open>None\<close>, objects are records, objects used as
  insertion-ordered dictionaries are association lists. Counters are \<open>nat\<close> or \<open>int\<close>;
  a number that need not be an integer is the \<open>rat\<close> value of its double, and every
  division, product or sum that yields one is rounded by \<open>double_of\<close> below.
\<close>

definition characters :: "string list" where
  "characters = [''Captain Falcon'', ''Donkey Kong'', ''Fox'', ''Mr. Game & Watch'', ''Kirby'',
     ''Bowser'', ''Link'', ''Luigi'', ''Mario'', ''Marth'', ''Mewtwo'', ''Ness'', ''Peach'',
     ''Pikachu'', ''Ice Climbers'', ''Jigglypuff'', ''Samus'', ''Yoshi'', ''Zelda'', ''Sheik'',
     ''Falco'', ''Young Link'', ''Dr. Mario'', ''Roy'', ''Pichu'', ''Ganondorf'', ''Master Hand'',
     ''Male Wireframe'', ''Female Wireframe'', ''Giga Bowser'', ''Crazy Hand'', ''Sandbag'',
     ''Popo'', ''Unknown'']"

definition toLowerChar :: "char \<Rightarrow> char" where
  "toLowerChar c =
     (let n = (of_char c :: nat) in if 65 \<le> n \<and> n \<le> 90 then char_of (n + 32) else c)"

text \<open>\<^verbatim>\<open>String.prototype.toLowerCase\<close>, on the ASCII letters.\<close>

definition toLowerCase :: "string \<Rightarrow> string" where
  "toLowerCase s = map toLowerChar s"

definition characters_lowercase :: "string list" where
  "characters_lowercase = map toLowerCase characters"

text \<open>The stage table; \<open>None\<close> is a \<^verbatim>\<open>null\<close> slot. The accented e is its two UTF-8 bytes.\<close>

definition stages :: "string option list" where
  "stages = [None, None, Some ''Fountain of Dreams'',
     Some (''Pok'' @ [CHR 0xC3, CHR 0xA9] @ ''mon Stadium''),
     Some ''Princess Peach's Castle'', Some ''Kongo Jungle'', Some ''Brinstar'', Some ''Corneria'',
     Some ''Yoshi's Story'', Some ''Onett'', Some ''Mute City'', Some ''Rainbow Cruise'',
     Some ''Jungle Japes'', Some ''Great Bay'', Some ''Hyrule Temple'', Some ''Brinstar Depths'',
     Some ''Yoshi's Island'', Some ''Green Greens'', Some ''Fourside'', Some ''Mushroom Kingdom I'',
     Some ''Mushroom Kingdom II'', None, Some ''Venom'',
     Some (''Pok'' @ [CHR 0xC3, CHR 0xA9] @ '' Floats''), Some ''Big Blue'',
     Some ''Icicle Mountain'', Some ''Icetop'', Some ''Flat Zone'', Some ''Dream Land N64'',
     Some ''Yoshi's Island N64'', Some ''Kongo Jungle N64'', Some ''Battlefield'',
     Some ''Final Destination'']"

definition modes :: "(string \<times> string) list" where
  "modes = [(''mode.ranked'', ''Ranked''), (''mode.unranked'', ''Unranked''),
     (''mode.direct'', ''Direct'')]"

section \<open>Helper functions\<close>

text \<open>An index into a JavaScript array: out of range is \<^verbatim>\<open>undefined\<close>.\<close>

definition nth_opt :: "'a list \<Rightarrow> nat \<Rightarrow> 'a option" where
  "nth_opt xs i = (if i < length xs then Some (xs ! i) else None)"

definition startsWith :: "string \<Rightarrow> string \<Rightarrow> bool" where
  "startsWith s p = (take (length p) s = p)"

text \<open>\<^verbatim>\<open>String.prototype.includes\<close>: the second string occurs in the first.\<close>

fun str_includes :: "string \<Rightarrow> string \<Rightarrow> bool" where
  "str_includes [] req = (req = [])"
| "str_includes (c # cs) req = (startsWith (c # cs) req \<or> str_includes cs req)"

fun indexOf :: "'a list \<Rightarrow> 'a \<Rightarrow> nat option" where
  "indexOf [] y = None"
| "indexOf (x # xs) y = (if x = y then Some 0 else map_option Suc (indexOf xs y))"

fun getMatchType_loop :: "string \<Rightarrow> (string \<times> string) list \<Rightarrow> string" where
  "getMatchType_loop matchId [] = ''Unknown''"
| "getMatchType_loop matchId ((pre, label) # ms) =
     (if startsWith matchId pre then label else getMatchType_loop matchId ms)"

definition getMatchType :: "string \<Rightarrow> string" where
  "getMatchType matchId = (if matchId = [] then ''Unknown'' else getMatchType_loop matchId modes)"

subsection \<open>What the decoder yields\<close>

record names_t =
  netplay :: "string option"
  code :: "string option"

record meta_player =
  names :: "names_t option"

record metadata_t =
  meta_players :: "meta_player option list option"

record player_setting =
  characterId :: "nat option"

record settings_t =
  stageId :: "int option"
  players :: "player_setting option list option"
  matchId :: "string option"

record overall_t =
  killCount :: "nat option"

record lcancel_t =
  lc_success :: "nat option"
  lc_fail :: "nat option"

record groundtech_t =
  gt_away :: "nat option"
  gt_in :: "nat option"
  gt_neutral :: "nat option"
  gt_fail :: "nat option"

record throw_t =
  th_up :: "nat option"
  th_down :: "nat option"
  th_forward :: "nat option"
  th_back :: "nat option"

record actions_t =
  lCancelCount :: "lcancel_t option"
  wavedashCount :: "nat option"
  rollCount :: "nat option"
  ledgegrabCount :: "nat option"
  dashDanceCount :: "nat option"
  groundTechCount :: "groundtech_t option"
  throwCount :: "throw_t option"

record stats_t =
  overall :: "overall_t option list option"
  actionCounts :: "actions_t option list option"

text \<open>
  The \<^verbatim>\<open>gameData\<close> object built on a cache miss and stored in the cache. A cached entry is
  parsed JSON, so \<^verbatim>\<open>settings\<close>, \<^verbatim>\<open>metadata\<close>, \<^verbatim>\<open>stats\<close> and
  \<^verbatim>\<open>latestFramePercents\<close> may each be missing.
\<close>

record gameData_t =
  g_hash :: "string option"
  g_file :: string
  g_settings :: "settings_t option"
  g_metadata :: "metadata_t option"
  g_stats :: "stats_t option"
  g_total_seconds :: rat
  g_latestFramePercents :: "rat list option"

subsection \<open>Identities and tag matching\<close>

record identity =
  tagLower :: "string list option"
  displayName :: string
  connectCode :: string

text \<open>\<^verbatim>\<open>x || ""\<close> on an optional string.\<close>

definition or_empty :: "string option \<Rightarrow> string" where
  "or_empty s = (case s of None \<Rightarrow> [] | Some t \<Rightarrow> t)"

definition extractIdentity :: "meta_player option \<Rightarrow> identity" where
  "extractIdentity metaPlayer =
     (case metaPlayer of
        None \<Rightarrow> \<lparr>tagLower = None, displayName = [], connectCode = []\<rparr>
      | Some mp \<Rightarrow>
          (case names mp of
             None \<Rightarrow> \<lparr>tagLower = None, displayName = [], connectCode = []\<rparr>
           | Some nm \<Rightarrow>
               (let dn = or_empty (netplay nm); cc = or_empty (code nm)
                in \<lparr>tagLower = Some (filter (\<lambda>s. s \<noteq> []) [toLowerCase dn, toLowerCase cc]),
                    displayName = dn, connectCode = cc\<rparr>)))"

definition some_tag :: "string list \<Rightarrow> string list \<Rightarrow> bool" where
  "some_tag tags wanted = list_ex (\<lambda>playerTag. list_ex (\<lambda>req. str_includes playerTag req) wanted) tags"

definition matchesAnyTag :: "identity \<Rightarrow> string list \<Rightarrow> bool" where
  "matchesAnyTag ident wantedListLower =
     (if wantedListLower = [] then True
      else (case tagLower ident of
              None \<Rightarrow> False
            | Some tags \<Rightarrow> if tags = [] then False else some_tag tags wantedListLower))"

definition isIgnoredOpponent :: "identity \<Rightarrow> string list \<Rightarrow> bool" where
  "isIgnoredOpponent ident ignoredLower =
     (if ignoredLower = [] then False
      else (case tagLower ident of
              None \<Rightarrow> False
            | Some tags \<Rightarrow> if tags = [] then False else some_tag tags ignoredLower))"

subsection \<open>Character filter\<close>

record char_filter =
  cf_num :: nat
  cf_name :: string

definition resolveCharacterFilter :: "string option \<Rightarrow> char_filter option" where
  "resolveCharacterFilter requestedCharLower =
     (case requestedCharLower of
        None \<Rightarrow> None
      | Some req \<Rightarrow>
          if req = [] then None
          else (case indexOf characters_lowercase (toLowerCase req) of
                  None \<Rightarrow> None
                | Some idx \<Rightarrow> Some \<lparr>cf_num = idx, cf_name = characters ! idx\<rparr>))"

section \<open>processSingleReplay\<close>

text \<open>The normalised filter arguments that \<^verbatim>\<open>analyzeReplays\<close> passes with every file.\<close>

record criteria =
  wantedPlayersLower :: "string list"
  wantedOpponentLower :: "string list"
  ignoredOpponentsLower :: "string list"
  playerCharacterFilter :: "char_filter option"
  opponentCharacterFilter :: "char_filter option"
  rankedOnly :: bool

text \<open>The populated \<^verbatim>\<open>data\<close> object of a match that passed every check of the function.\<close>

record replay_data =
  d_total_games :: nat
  d_total_wins :: nat
  d_total_seconds :: rat
  d_game_seconds :: int
  d_player_character_num :: "nat option"
  d_player_character_name :: string
  d_opponent_character_num :: "nat option"
  d_opponent_character_name :: string
  d_stage_num :: "nat option"
  d_stage_name :: string
  d_player_index :: nat
  d_player_name :: string
  d_player_code :: string
  d_opponent_index :: nat
  d_opponent_name :: string
  d_opponent_code :: string

text \<open>
  The three shapes the function returns: \<^verbatim>\<open>null\<close>, the two-field object
  \<^verbatim>\<open>{total_seconds, game_seconds: 0}\<close> of an excluded match, and the full summary.
\<close>

datatype replay_result = Null | Excluded rat | Summary replay_data

definition choose_viewpoint ::
  "string list \<Rightarrow> string list \<Rightarrow> identity \<Rightarrow> identity \<Rightarrow> (nat \<times> nat) option" where
  "choose_viewpoint wantedPlayers wantedOpponent p0 p1 =
     (let p0MatchesYou = matchesAnyTag p0 wantedPlayers;
          p1MatchesYou = matchesAnyTag p1 wantedPlayers;
          p0MatchesOppFilter = matchesAnyTag p0 wantedOpponent;
          p1MatchesOppFilter = matchesAnyTag p1 wantedOpponent
      in if wantedOpponent \<noteq> [] then
           (if p0MatchesYou \<and> p1MatchesOppFilter then Some (0, 1)
            else if p1MatchesYou \<and> p0MatchesOppFilter then Some (1, 0)
            else None)
         else
           (if p0MatchesYou \<and> \<not> p1MatchesYou then Some (0, 1)
            else if p1MatchesYou \<and> \<not> p0MatchesYou then Some (1, 0)
            else if p0MatchesYou \<and> p1MatchesYou then Some (0, 1)
            else None))"

text \<open>\<^verbatim>\<open>settings.players[i]?.characterId\<close>\<close>

definition characterIdOf :: "player_setting option list \<Rightarrow> nat \<Rightarrow> nat option" where
  "characterIdOf ps i =
     (case nth_opt ps i of None \<Rightarrow> None | Some None \<Rightarrow> None | Some (Some p) \<Rightarrow> characterId p)"

text \<open>\<^verbatim>\<open>characters[id] || "Unknown"\<close>\<close>

definition characterName :: "nat option \<Rightarrow> string" where
  "characterName cid =
     (case cid of
        None \<Rightarrow> ''Unknown''
      | Some n \<Rightarrow> (case nth_opt characters n of None \<Rightarrow> ''Unknown'' | Some nm \<Rightarrow> nm))"

text \<open>\<^verbatim>\<open>filter && filter.num !== charId\<close>\<close>

definition filter_rejects :: "char_filter option \<Rightarrow> nat option \<Rightarrow> bool" where
  "filter_rejects flt cid = (case flt of None \<Rightarrow> False | Some f \<Rightarrow> Some (cf_num f) \<noteq> cid)"

text \<open>\<^verbatim>\<open>(stats?.overall?.[i]?.killCount) || 0\<close>\<close>

definition killsOf :: "stats_t option \<Rightarrow> nat \<Rightarrow> nat" where
  "killsOf st i =
     (case st of
        None \<Rightarrow> 0
      | Some s \<Rightarrow>
          (case overall s of
             None \<Rightarrow> 0
           | Some ov \<Rightarrow>
               (case nth_opt ov i of
                  None \<Rightarrow> 0
                | Some None \<Rightarrow> 0
                | Some (Some e) \<Rightarrow> (case killCount e of None \<Rightarrow> 0 | Some k \<Rightarrow> k))))"

text \<open>\<^verbatim>\<open><\<close> on two numbers either of which may be \<^verbatim>\<open>undefined\<close> (then it is false).\<close>

definition js_less :: "rat option \<Rightarrow> rat option \<Rightarrow> bool" where
  "js_less a b =
     (case a of None \<Rightarrow> False | Some x \<Rightarrow> (case b of None \<Rightarrow> False | Some y \<Rightarrow> x < y))"

text \<open>
  \<^verbatim>\<open>Number(settings?.stageId)\<close>, set to \<^verbatim>\<open>null\<close> when it is \<^verbatim>\<open>NaN\<close>, negative or
  beyond the stage table.
\<close>

definition normStageId :: "int option \<Rightarrow> nat option" where
  "normStageId sid =
     (case sid of
        None \<Rightarrow> None
      | Some n \<Rightarrow> if n < 0 \<or> int (length stages) \<le> n then None else Some (nat n))"

text \<open>\<^verbatim>\<open>stages[stage_num]\<close>, \<open>None\<close> when the lookup is falsy.\<close>

definition stageAt :: "nat option \<Rightarrow> string option" where
  "stageAt sn =
     (case sn of
        None \<Rightarrow> None
      | Some n \<Rightarrow> (case nth_opt stages n of None \<Rightarrow> None | Some e \<Rightarrow> e))"

text \<open>
  The tail of the \<^verbatim>\<open>try\<close> block, from "game validation checks" on. \<open>None\<close> is a thrown
  \<^verbatim>\<open>TypeError\<close> (indexing a missing \<^verbatim>\<open>latestFramePercents\<close>).
\<close>

definition game_validation ::
  "gameData_t \<Rightarrow> settings_t \<Rightarrow> nat \<Rightarrow> nat \<Rightarrow> identity \<Rightarrow> identity \<Rightarrow> nat option \<Rightarrow> nat option
     \<Rightarrow> replay_result option" where
  "game_validation gameData s playerIndex opponentIndex playerIdentity opponentIdentity
       playerCharId oppCharId =
     (case g_latestFramePercents gameData of
        None \<Rightarrow> None
      | Some percents \<Rightarrow>
          (let latestPercPlayer = nth_opt percents playerIndex;
               latestPercOpp = nth_opt percents opponentIndex;
               playerKills = killsOf (g_stats gameData) playerIndex;
               opponentKills = killsOf (g_stats gameData) opponentIndex;
               game_seconds = \<lfloor>g_total_seconds gameData\<rfloor>
           in if game_seconds < 30 then Some (Excluded (g_total_seconds gameData))
              else if playerKills = 0 \<and> opponentKills = 0
                then Some (Excluded (g_total_seconds gameData))
              else
                (let moreKills = (opponentKills < playerKills);
                     lowerPercent = (playerKills = opponentKills
                                      \<and> js_less latestPercPlayer latestPercOpp);
                     didWin = (moreKills \<or> lowerPercent);
                     stage = normStageId (stageId s)
                 in Some (Summary
                      \<lparr>d_total_games = 1,
                       d_total_wins = (if didWin then 1 else 0),
                       d_total_seconds = g_total_seconds gameData,
                       d_game_seconds = game_seconds,
                       d_player_character_num = playerCharId,
                       d_player_character_name = characterName playerCharId,
                       d_opponent_character_num = oppCharId,
                       d_opponent_character_name = characterName oppCharId,
                       d_stage_num = stage,
                       d_stage_name = (case stageAt stage of None \<Rightarrow> ''Unknown Stage''
                                       | Some nm \<Rightarrow> nm),
                       d_player_index = playerIndex,
                       d_player_name = displayName playerIdentity,
                       d_player_code = connectCode playerIdentity,
                       d_opponent_index = opponentIndex,
                       d_opponent_name = displayName opponentIdentity,
                       d_opponent_code = connectCode opponentIdentity\<rparr>))))"

text \<open>The ignore list and the two character filters, applied once a viewpoint is chosen.\<close>

definition apply_filters ::
  "criteria \<Rightarrow> gameData_t \<Rightarrow> settings_t \<Rightarrow> player_setting option list \<Rightarrow> identity \<Rightarrow> identity
     \<Rightarrow> nat \<Rightarrow> nat \<Rightarrow> replay_result option" where
  "apply_filters C gameData s sp p0 p1 playerIndex opponentIndex =
     (let playerIdentity = (if playerIndex = 0 then p0 else p1);
          opponentIdentity = (if opponentIndex = 0 then p0 else p1)
      in if isIgnoredOpponent opponentIdentity (ignoredOpponentsLower C)
         then Some (Excluded (g_total_seconds gameData))
         else
           (let playerCharId = characterIdOf sp playerIndex;
                oppCharId = characterIdOf sp opponentIndex
            in if filter_rejects (playerCharacterFilter C) playerCharId
               then Some (Excluded (g_total_seconds gameData))
               else if filter_rejects (opponentCharacterFilter C) oppCharId
               then Some (Excluded (g_total_seconds gameData))
               else game_validation gameData s playerIndex opponentIndex playerIdentity
                      opponentIdentity playerCharId oppCharId))"

text \<open>\<^verbatim>\<open>metadata?.players || []\<close>\<close>

definition playersMetaOf :: "gameData_t \<Rightarrow> meta_player option list" where
  "playersMetaOf gameData =
     (case g_metadata gameData of
        None \<Rightarrow> []
      | Some m \<Rightarrow> (case meta_players m of None \<Rightarrow> [] | Some ps \<Rightarrow> ps))"

text \<open>\<^verbatim>\<open>settings?.matchInfo?.matchId || ""\<close>\<close>

definition matchIdOf :: "gameData_t \<Rightarrow> string" where
  "matchIdOf gameData = (case g_settings gameData of None \<Rightarrow> [] | Some s \<Rightarrow> or_empty (matchId s))"

definition slot :: "meta_player option list \<Rightarrow> nat \<Rightarrow> meta_player option" where
  "slot ps i = (case nth_opt ps i of None \<Rightarrow> None | Some e \<Rightarrow> e)"

text \<open>
  The body of the \<^verbatim>\<open>try\<close> block; \<open>None\<close> is a thrown \<^verbatim>\<open>TypeError\<close> (reading
  \<^verbatim>\<open>settings.players\<close> of a missing \<^verbatim>\<open>settings\<close>, or from the tail).
\<close>

definition processSingleReplay_try :: "criteria \<Rightarrow> gameData_t \<Rightarrow> replay_result option" where
  "processSingleReplay_try C gameData =
     (let playersMeta = playersMetaOf gameData;
          p0 = extractIdentity (slot playersMeta 0);
          p1 = extractIdentity (slot playersMeta 1);
          matchType = getMatchType (matchIdOf gameData)
      in if rankedOnly C \<and> matchType \<noteq> ''Ranked''
         then Some (Excluded (g_total_seconds gameData))
         else if displayName p0 = [] \<or> displayName p1 = [] then Some Null
         else if length playersMeta < 2 then Some (Excluded (g_total_seconds gameData))
         else
           (case g_settings gameData of
              None \<Rightarrow> None
            | Some s \<Rightarrow>
                (case players s of
                   None \<Rightarrow> Some (Excluded (g_total_seconds gameData))
                 | Some sp \<Rightarrow>
                     if length sp < 2 then Some (Excluded (g_total_seconds gameData))
                     else
                       (case choose_viewpoint (wantedPlayersLower C) (wantedOpponentLower C) p0 p1 of
                          None \<Rightarrow> Some (Excluded (g_total_seconds gameData))
                        | Some (playerIndex, opponentIndex) \<Rightarrow>
                            apply_filters C gameData s sp p0 p1 playerIndex opponentIndex))))"

text \<open>The \<^verbatim>\<open>catch\<close> turns a throw into the excluded shape.\<close>

definition processSingleReplay :: "criteria \<Rightarrow> gameData_t \<Rightarrow> replay_result" where
  "processSingleReplay C gameData =
     (case processSingleReplay_try C gameData of
        None \<Rightarrow> Excluded (g_total_seconds gameData)
      | Some r \<Rightarrow> r)"

section \<open>Double-precision numbers\<close>

text \<open>
  Rounding to the nearest integer, to the even one at a tie.
\<close>

definition round_half_even :: "rat \<Rightarrow> int" where
  "round_half_even x =
     (let f = \<lfloor>x\<rfloor>; r = x - of_int f
      in if r < 1 / 2 then f else if 1 / 2 < r then f + 1 else if even f then f else f + 1)"

text \<open>
  The exponent \<open>e\<close> of a positive number \<open>a\<close>, with \<open>2 powi e \<le> a < 2 powi (e + 1)\<close>,
  from the bit lengths of its numerator and denominator.
\<close>

definition binade :: "rat \<Rightarrow> int" where
  "binade a =
     (case quotient_of a of (p, q) \<Rightarrow>
        (let b = int (floorlog 2 (nat p)) - int (floorlog 2 (nat q))
         in if 2 powi b \<le> a then b else b - 1))"

text \<open>
  The double nearest to \<open>x\<close> (IEEE 754 binary64, round to nearest, ties to even): a
  multiple of \<open>2 powi (e - 52)\<close>, that is a significand of 53 bits. The numbers of this
  program are quotients of counts, their products with 100, and sums of seconds, far from
  the subnormal range and from overflow, which are left out.
\<close>

definition double_of :: "rat \<Rightarrow> rat" where
  "double_of x =
     (if x = 0 then 0
      else let a = \<bar>x\<bar>; u = 2 powi (binade a - 52); m = of_int (round_half_even (a / u)) * u
           in if x < 0 then - m else m)"

section \<open>The accumulators of analyzeReplays\<close>

record cell =
  games :: nat
  wins :: nat
  totalSeconds :: int

text \<open>What is sent to the window: the two shapes of \<^verbatim>\<open>progress-update\<close>, and \<^verbatim>\<open>match-log\<close>.\<close>

datatype event = Progress nat nat | Cancelled | MatchLog string string string bool

text \<open>
  The local variables of \<^verbatim>\<open>analyzeReplays\<close> that the loop changes, the in-memory cache
  (\<^verbatim>\<open>cache.results\<close>) and the messages sent so far. \<open>matchups\<close> is the hoisted
  \<^verbatim>\<open>var\<close>, \<open>None\<close> until its first assignment. \<open>decode_calls\<close> is not a variable of the
  source: it counts the constructions of a \<^verbatim>\<open>SlippiGame\<close>.
\<close>

record acc =
  total_games :: nat
  total_wins :: nat
  total_seconds :: rat
  counted_seconds :: int
  characterPlaytime :: "(string \<times> int) list"
  lCancelSuccessTotal :: nat
  lCancelFailTotal :: nat
  wavedashTotal :: nat
  rollTotal :: nat
  ledgegrabTotal :: nat
  dashDanceTotal :: nat
  techSuccessTotal :: nat
  techFailTotal :: nat
  totalStocksTaken :: nat
  totalStocksLost :: nat
  throw_up :: nat
  throw_down :: nat
  throw_forward :: nat
  throw_back :: nat
  currentStreak :: nat
  bestWinStreak :: nat
  stage_totals :: "(string \<times> nat) list"
  stage_wins :: "(string \<times> nat) list"
  stage_playtime :: "(string \<times> int) list"
  matchups :: "(string \<times> (string \<times> cell) list) list option"
  new_replays :: nat
  skippedCount :: nat
  cache :: "(string \<times> gameData_t) list"
  events :: "event list"
  decode_calls :: nat

text \<open>
  \<^verbatim>\<open>if (!t[k]) t[k] = 0; t[k] += d\<close> on an object keyed by strings: a new key goes to the
  end, an old one keeps its place.
\<close>

definition bump :: "string \<Rightarrow> 'a::{zero,plus} \<Rightarrow> (string \<times> 'a) list \<Rightarrow> (string \<times> 'a) list" where
  "bump k d tbl = AList.update k ((case map_of tbl k of None \<Rightarrow> 0 | Some v \<Rightarrow> v) + d) tbl"

definition accumulate :: "replay_data \<Rightarrow> acc \<Rightarrow> acc" where
  "accumulate d st =
     st\<lparr>total_games := total_games st + d_total_games d,
        total_wins := total_wins st + d_total_wins d,
        total_seconds := double_of (total_seconds st + d_total_seconds d),
        counted_seconds := counted_seconds st + d_game_seconds d\<rparr>"

definition add_stage :: "string \<Rightarrow> replay_data \<Rightarrow> acc \<Rightarrow> acc" where
  "add_stage stageName d st =
     st\<lparr>stage_totals := bump stageName 1 (stage_totals st),
        stage_wins := bump stageName (if d_total_wins d \<noteq> 0 then 1 else 0) (stage_wins st),
        stage_playtime := bump stageName (d_game_seconds d) (stage_playtime st)\<rparr>"

definition unknown_character :: "string \<Rightarrow> bool" where
  "unknown_character c = (c = [] \<or> c = ''Unknown'' \<or> c = ''undefined'')"

definition add_matchup :: "replay_data \<Rightarrow> acc \<Rightarrow> acc" where
  "add_matchup d st =
     (let playerCharacter = d_player_character_name d;
          opponentCharacter = d_opponent_character_name d;
          m = (case matchups st of None \<Rightarrow> [] | Some t \<Rightarrow> t);
          row = (case map_of m playerCharacter of None \<Rightarrow> [] | Some r \<Rightarrow> r);
          c = (case map_of row opponentCharacter of
                 None \<Rightarrow> \<lparr>games = 0, wins = 0, totalSeconds = 0\<rparr>
               | Some c0 \<Rightarrow> c0);
          c' = \<lparr>games = games c + 1,
                wins = (if d_total_wins d \<noteq> 0 then wins c + 1 else wins c),
                totalSeconds = totalSeconds c + d_game_seconds d\<rparr>
      in st\<lparr>characterPlaytime := bump playerCharacter (d_game_seconds d) (characterPlaytime st),
            matchups := Some (AList.update playerCharacter
                                (AList.update opponentCharacter c' row) m)\<rparr>)"

text \<open>\<^verbatim>\<open>x || 0\<close> on an optional count.\<close>

definition nz :: "nat option \<Rightarrow> nat" where
  "nz x = (case x of None \<Rightarrow> 0 | Some n \<Rightarrow> n)"

text \<open>\<^verbatim>\<open>stats?.actionCounts?.[i] || null\<close>\<close>

definition actionsOf :: "stats_t option \<Rightarrow> nat \<Rightarrow> actions_t option" where
  "actionsOf st i =
     (case st of
        None \<Rightarrow> None
      | Some s \<Rightarrow>
          (case actionCounts s of
             None \<Rightarrow> None
           | Some ac \<Rightarrow> (case nth_opt ac i of None \<Rightarrow> None | Some e \<Rightarrow> e)))"

definition add_misc :: "gameData_t \<Rightarrow> replay_data \<Rightarrow> acc \<Rightarrow> acc" where
  "add_misc gameData d st =
     (let stats = g_stats gameData;
          actions = actionsOf stats (d_player_index d);
          lc = (case actions of None \<Rightarrow> None | Some a \<Rightarrow> lCancelCount a);
          g = (case actions of None \<Rightarrow> None | Some a \<Rightarrow> groundTechCount a);
          tc = (case actions of None \<Rightarrow> None | Some a \<Rightarrow> throwCount a);
          cnt = (\<lambda>f. case actions of None \<Rightarrow> 0 | Some a \<Rightarrow> nz (f a));
          streak = (if d_total_wins d \<noteq> 0 then currentStreak st + 1 else 0)
      in st\<lparr>lCancelSuccessTotal := lCancelSuccessTotal st
                + (case lc of None \<Rightarrow> 0 | Some l \<Rightarrow> nz (lc_success l)),
            lCancelFailTotal := lCancelFailTotal st
                + (case lc of None \<Rightarrow> 0 | Some l \<Rightarrow> nz (lc_fail l)),
            wavedashTotal := wavedashTotal st + cnt wavedashCount,
            rollTotal := rollTotal st + cnt rollCount,
            ledgegrabTotal := ledgegrabTotal st + cnt ledgegrabCount,
            dashDanceTotal := dashDanceTotal st + cnt dashDanceCount,
            techSuccessTotal := techSuccessTotal st
                + (case g of None \<Rightarrow> 0
                   | Some t \<Rightarrow> nz (gt_away t) + nz (gt_in t) + nz (gt_neutral t)),
            techFailTotal := techFailTotal st + (case g of None \<Rightarrow> 0 | Some t \<Rightarrow> nz (gt_fail t)),
            totalStocksTaken := totalStocksTaken st + killsOf stats (d_player_index d),
            totalStocksLost := totalStocksLost st + killsOf stats (d_opponent_index d),
            throw_up := throw_up st + (case tc of None \<Rightarrow> 0 | Some t \<Rightarrow> nz (th_up t)),
            throw_down := throw_down st + (case tc of None \<Rightarrow> 0 | Some t \<Rightarrow> nz (th_down t)),
            throw_forward := throw_forward st
                + (case tc of None \<Rightarrow> 0 | Some t \<Rightarrow> nz (th_forward t)),
            throw_back := throw_back st + (case tc of None \<Rightarrow> 0 | Some t \<Rightarrow> nz (th_back t)),
            currentStreak := streak,
            bestWinStreak := (if bestWinStreak st < streak then streak else bestWinStreak st)\<rparr>)"

text \<open>\<^verbatim>\<open>a || b || c\<close> on strings.\<close>

definition first_nonempty :: "string \<Rightarrow> string \<Rightarrow> string \<Rightarrow> string" where
  "first_nonempty a b c = (if a \<noteq> [] then a else if b \<noteq> [] then b else c)"

definition match_log :: "replay_data \<Rightarrow> event" where
  "match_log d =
     MatchLog (first_nonempty (d_player_name d) (d_player_code d) ''P1'')
              (first_nonempty (d_opponent_name d) (d_opponent_code d) ''P2'')
              (case stageAt (d_stage_num d) of None \<Rightarrow> ''Unknown'' | Some nm \<Rightarrow> nm)
              (0 < d_total_wins d)"

section \<open>One file of the main loop\<close>

record latest_frame =
  frame :: "int option"
  lf_players :: "rat list option"

text \<open>What the four getters of a \<^verbatim>\<open>SlippiGame\<close> return.\<close>

record decoded =
  dec_settings :: "settings_t option"
  dec_metadata :: "metadata_t option"
  dec_stats :: "stats_t option"
  dec_latestFrame :: "latest_frame option"

text \<open>
  The surroundings of a run: the digest of each file (\<open>None\<close> when it cannot be read), what
  the decoder yields for it (\<open>None\<close> when it throws), and whether a window exists.
\<close>

record env =
  hashReplayFile :: "string \<Rightarrow> string option"
  decode :: "string \<Rightarrow> decoded option"
  win :: bool

definition build_gameData :: "string option \<Rightarrow> string \<Rightarrow> decoded \<Rightarrow> gameData_t" where
  "build_gameData hash file dec =
     (let latestFrame = dec_latestFrame dec;
          frameIndex = (case latestFrame of None \<Rightarrow> 0
                        | Some lf \<Rightarrow> (case frame lf of None \<Rightarrow> 0 | Some fr \<Rightarrow> fr));
          percents = (case latestFrame of None \<Rightarrow> [999, 999]
                      | Some lf \<Rightarrow> (case lf_players lf of None \<Rightarrow> [999, 999] | Some ps \<Rightarrow> ps))
      in \<lparr>g_hash = hash, g_file = file, g_settings = dec_settings dec,
          g_metadata = dec_metadata dec, g_stats = dec_stats dec,
          g_total_seconds = double_of (of_int frameIndex / 60),
          g_latestFramePercents = Some percents\<rparr>)"

text \<open>
  Cache lookup, or decoding and storing. The first component is \<open>None\<close> when the decoder
  threw.
\<close>

definition fetch :: "env \<Rightarrow> string \<Rightarrow> acc \<Rightarrow> gameData_t option \<times> acc" where
  "fetch E file st =
     (let hash = hashReplayFile E file
      in case (case hash of None \<Rightarrow> None | Some h \<Rightarrow> map_of (cache st) h) of
           Some gameData \<Rightarrow> (Some gameData, st)
         | None \<Rightarrow>
             (case decode E file of
                None \<Rightarrow> (None, st\<lparr>decode_calls := decode_calls st + 1\<rparr>)
              | Some dec \<Rightarrow>
                  (let gameData = build_gameData hash file dec;
                       st1 = st\<lparr>decode_calls := decode_calls st + 1\<rparr>
                   in (Some gameData,
                       (case hash of
                          None \<Rightarrow> st1
                        | Some h \<Rightarrow> st1\<lparr>cache := AList.update h gameData (cache st1),
                                        new_replays := new_replays st1 + 1\<rparr>)))))"

definition send_progress :: "bool \<Rightarrow> nat \<Rightarrow> nat \<Rightarrow> acc \<Rightarrow> acc" where
  "send_progress w i n st = (if w then st\<lparr>events := events st @ [Progress (i + 1) n]\<rparr> else st)"

definition skip :: "acc \<Rightarrow> acc" where
  "skip st = st\<lparr>skippedCount := skippedCount st + 1\<rparr>"

text \<open>
  From "Accumulate match stats" to the end of the \<^verbatim>\<open>try\<close> block, and the progress message
  behind it. The \<^verbatim>\<open>continue\<close> on an unknown character leaves the iteration at once;
  without a window the unguarded \<^verbatim>\<open>win.webContents.send\<close> throws into the \<^verbatim>\<open>catch\<close>.
\<close>

definition aggregate :: "bool \<Rightarrow> nat \<Rightarrow> nat \<Rightarrow> gameData_t \<Rightarrow> replay_data \<Rightarrow> string \<Rightarrow> acc \<Rightarrow> acc" where
  "aggregate w n i gameData d stageName st =
     (let st1 = accumulate d st;
          st2 = add_stage stageName d st1;
          st3 = st2\<lparr>matchups := Some (case matchups st2 of None \<Rightarrow> [] | Some m \<Rightarrow> m)\<rparr>
      in if unknown_character (d_player_character_name d)
            \<or> unknown_character (d_opponent_character_name d)
         then st3
         else
           (let st4 = add_matchup d st3;
                st5 = add_misc gameData d st4
            in if w then send_progress w i n (st5\<lparr>events := events st5 @ [match_log d]\<rparr>)
               else st5))"

text \<open>
  What the \<^verbatim>\<open>try\<close> block does with the \<^verbatim>\<open>gameData\<close> of a file: both validity
  checks of the loop, then the aggregation. Each \<^verbatim>\<open>continue\<close> ends the iteration
  there, before the progress message that follows the \<^verbatim>\<open>try\<close> block. The excluded
  shape has no \<^verbatim>\<open>stage_num\<close>, so the stage check skips it.
\<close>

definition handle_result :: "bool \<Rightarrow> criteria \<Rightarrow> nat \<Rightarrow> nat \<Rightarrow> gameData_t \<Rightarrow> acc \<Rightarrow> acc" where
  "handle_result w C n i gameData st =
     (case processSingleReplay C gameData of
        Null \<Rightarrow> skip st
      | Excluded ts \<Rightarrow> skip st
      | Summary d \<Rightarrow>
          (case stageAt (d_stage_num d) of
             None \<Rightarrow> skip st
           | Some stageName \<Rightarrow> aggregate w n i gameData d stageName st))"

text \<open>
  The body of the \<^verbatim>\<open>for\<close> loop after the cancellation check, for the file at index \<open>i\<close>
  of \<open>n\<close>. When the decoder throws, the \<^verbatim>\<open>catch\<close> logs the error and the progress
  message is sent.
\<close>

definition loop_body :: "env \<Rightarrow> criteria \<Rightarrow> nat \<Rightarrow> nat \<Rightarrow> string \<Rightarrow> acc \<Rightarrow> acc" where
  "loop_body E C n i file st0 =
     (case fetch E file st0 of
        (None, st) \<Rightarrow> send_progress (win E) i n st
      | (Some gameData, st) \<Rightarrow> handle_result (win E) C n i gameData st)"

text \<open>
  The \<^verbatim>\<open>for\<close> loop. \<open>cancelRequested\<close> is the module's flag; \<open>cancels i\<close> says that
  \<^verbatim>\<open>cancelAnalysis\<close> runs while iteration \<open>i\<close> is suspended at its
  \<^verbatim>\<open>await\<close>, the only point where another handler can run.
\<close>

fun replay_loop ::
  "env \<Rightarrow> criteria \<Rightarrow> (nat \<Rightarrow> bool) \<Rightarrow> nat \<Rightarrow> nat \<Rightarrow> string list \<Rightarrow> bool \<Rightarrow> acc \<Rightarrow> acc" where
  "replay_loop E C cancels n i [] cancelRequested st = st"
| "replay_loop E C cancels n i (file # rest) cancelRequested st =
     (if cancelRequested then (if win E then st\<lparr>events := events st @ [Cancelled]\<rparr> else st)
      else replay_loop E C cancels n (Suc i) rest (cancelRequested \<or> cancels i)
             (loop_body E C n i file st))"

section \<open>Formatting\<close>

definition digit_char :: "nat \<Rightarrow> char" where
  "digit_char d = char_of (48 + d)"

fun show_nat :: "nat \<Rightarrow> string" where
  "show_nat n = (if n < 10 then [digit_char n] else show_nat (n div 10) @ [digit_char (n mod 10)])"

definition show_int :: "int \<Rightarrow> string" where
  "show_int v = (if v < 0 then CHR ''-'' # show_nat (nat (- v)) else show_nat (nat v))"

text \<open>
  \<^verbatim>\<open>%\<close> on numbers: the remainder has the sign of the dividend. The remainder of two
  doubles is a double, so nothing is rounded.
\<close>

definition js_mod :: "rat \<Rightarrow> rat \<Rightarrow> rat" where
  "js_mod x m = x - m * of_int (if 0 \<le> x then \<lfloor>x / m\<rfloor> else \<lceil>x / m\<rceil>)"

text \<open>
  The \<^verbatim>\<open>format\<close> closure of \<^verbatim>\<open>secondsToHMS\<close>: a zero in front of the floored value,
  which the regular expression takes away again when two digits follow it.
\<close>

definition format_part :: "rat \<Rightarrow> string" where
  "format_part val = (if 10 \<le> \<lfloor>val\<rfloor> then show_int \<lfloor>val\<rfloor> else CHR ''0'' # show_int \<lfloor>val\<rfloor>)"

definition secondsToHMS :: "rat \<Rightarrow> string" where
  "secondsToHMS seconds =
     format_part (double_of (seconds / 3600)) @ '':''
       @ format_part (double_of (js_mod seconds 3600 / 60)) @ '':''
       @ format_part (js_mod seconds 60)"

text \<open>
  \<^verbatim>\<open>Number.prototype.toFixed(2)\<close>, on the value of the double: the nearest multiple of
  1/100, the larger one at a tie, with both decimals written.
\<close>

definition toFixed2 :: "rat \<Rightarrow> string" where
  "toFixed2 x =
     (let a = \<bar>x\<bar>; h = nat \<lfloor>a * 100 + 1 / 2\<rfloor>;
          body = show_nat (h div 100) @ ''.'' @ [digit_char (h mod 100 div 10), digit_char (h mod 10)]
      in if x < 0 then CHR ''-'' # body else body)"

text \<open>
  \<^verbatim>\<open>(wins / games) * 100\<close>: the quotient of the two counts is rounded to a double, and
  so is its product with 100.
\<close>

definition percent :: "nat \<Rightarrow> nat \<Rightarrow> rat" where
  "percent w g = double_of (double_of (of_nat w / of_nat g) * 100)"

text \<open>\<^verbatim>\<open>games ? ((wins / games) * 100).toFixed(2) : "0.00"\<close>\<close>

definition rate :: "nat \<Rightarrow> nat \<Rightarrow> string" where
  "rate w g = (if g \<noteq> 0 then toFixed2 (percent w g) else ''0.00'')"

section \<open>The report\<close>

record options =
  playerTags :: "string list"
  opponentTags :: "string list"
  ignoredOpponents :: "string list"
  playerCharacter :: "string option"
  opponentCharacter :: "string option"
  o_rankedOnly :: bool

text \<open>A value that is a number in one report shape and a string in the other.\<close>

datatype jsval = Num rat | Str string

record filters_t =
  f_playerTags :: "string list"
  f_opponentTags :: "string list"
  f_playerCharacter :: "string option"
  f_opponentCharacter :: "string option"
  f_ignoredOpponents :: "string list"

record summary_none =
  sn_totalGames :: nat
  sn_totalWins :: nat
  sn_winRate :: jsval
  sn_analyzedTime :: string
  sn_totalTimeAllReplays :: string
  sn_new_replays :: nat

record summary_found =
  totalGames :: nat
  totalWins :: nat
  winRate :: jsval
  analyzedTime :: string
  totalTimeAllReplays :: string
  newReplaysCached :: nat
  totalReplaysScanned :: nat
  skippedReplays :: nat

record stage_row =
  sr_games :: nat
  sr_wins :: nat
  sr_winrate :: string
  sr_playtime :: string

text \<open>A row of the nickname, code and opponent breakdowns.\<close>

record breakdown_row =
  br_key :: string
  br_games :: nat
  br_wins :: nat
  br_winrate :: string
  br_playtime :: string

record matchup_row =
  mr_yourCharacter :: string
  mr_opponentCharacter :: string
  mr_games :: nat
  mr_wins :: nat
  mr_winrate :: string

text \<open>
  \<^verbatim>\<open>matchups || matchup_results\<close>: the nested table of the loop when the variable was
  assigned, the rows of the head-to-head matrix otherwise.
\<close>

datatype matchups_out = Nested "(string \<times> (string \<times> cell) list) list" | Rows "matchup_row list"

text \<open>The counters of the \<^verbatim>\<open>misc\<close> object (its formatted averages are left out).\<close>

record misc_t =
  m_lCancelSuccessTotal :: nat
  m_lCancelFailTotal :: nat
  m_wavedashTotal :: nat
  m_rollTotal :: nat
  m_ledgegrabTotal :: nat
  m_dashDanceTotal :: nat
  m_techSuccessTotal :: nat
  m_techFailTotal :: nat
  m_totalStocksTaken :: nat
  m_totalStocksLost :: nat
  m_topThrowDir :: string
  m_topThrowCount :: nat
  m_bestWinStreak :: nat

record identity_echo =
  playerName :: string
  playerCode :: string
  opponentName :: string
  opponentCode :: string

record report_none =
  rn_message :: string
  rn_filters :: filters_t
  rn_summary :: summary_none
  rn_stages :: "(string \<times> stage_row) list"
  rn_nicknames :: "breakdown_row list"
  rn_codes :: "breakdown_row list"
  rn_opponents :: "breakdown_row list"
  rn_matchups :: "matchup_row list"

record report_found =
  rf_filters :: filters_t
  rf_identity :: identity_echo
  rf_summary :: summary_found
  rf_stages :: "(string \<times> stage_row) list"
  rf_nicknames :: "breakdown_row list"
  rf_codes :: "breakdown_row list"
  rf_opponents :: "breakdown_row list"
  rf_characterPlaytime :: "(string \<times> string) list"
  rf_matchups :: matchups_out
  rf_misc :: misc_t

text \<open>\<open>NoGamesFound\<close> is the shape with \<^verbatim>\<open>foundGames: false\<close>.\<close>

datatype report = NoGamesFound report_none | GamesFound report_found

definition echo_filters :: "options \<Rightarrow> filters_t" where
  "echo_filters opts =
     \<lparr>f_playerTags = playerTags opts, f_opponentTags = opponentTags opts,
      f_playerCharacter = playerCharacter opts, f_opponentCharacter = opponentCharacter opts,
      f_ignoredOpponents = ignoredOpponents opts\<rparr>"

text \<open>\<^verbatim>\<open>t[k] || 0\<close>\<close>

definition lookup0 :: "(string \<times> 'a::zero) list \<Rightarrow> string \<Rightarrow> 'a" where
  "lookup0 tbl k = (case map_of tbl k of None \<Rightarrow> 0 | Some v \<Rightarrow> v)"

definition stageResults :: "acc \<Rightarrow> (string \<times> stage_row) list" where
  "stageResults st =
     map (\<lambda>(stageName, g).
            (stageName,
             \<lparr>sr_games = g, sr_wins = lookup0 (stage_wins st) stageName,
              sr_winrate = rate (lookup0 (stage_wins st) stageName) g,
              sr_playtime = secondsToHMS (of_int (lookup0 (stage_playtime st) stageName))\<rparr>))
         (stage_totals st)"

text \<open>
  \<^verbatim>\<open>rows.sort((a, b) => b.games - a.games)\<close>: a stable sort, larger game counts first.
\<close>

definition sort_by_games_desc :: "('a \<Rightarrow> nat) \<Rightarrow> 'a list \<Rightarrow> 'a list" where
  "sort_by_games_desc g rows = sort_key (\<lambda>r. - int (g r)) rows"

text \<open>The sorted rows written one by one into the object \<^verbatim>\<open>sortedStageResults\<close>.\<close>

definition sortedStageResults :: "acc \<Rightarrow> (string \<times> stage_row) list" where
  "sortedStageResults st =
     foldl (\<lambda>obj (k, r). AList.update k r obj) []
       (sort_by_games_desc (\<lambda>kr. sr_games (snd kr)) (stageResults st))"

text \<open>
  The nickname, code and opponent tables are declared empty and no statement writes to
  them.
\<close>

definition opponent_totals :: "(string \<times> nat) list" where
  "opponent_totals = []"

definition opponent_wins :: "(string \<times> nat) list" where
  "opponent_wins = []"

definition opponent_playtime :: "(string \<times> int) list" where
  "opponent_playtime = []"

definition breakdown_rows ::
  "(string \<times> nat) list \<Rightarrow> (string \<times> nat) list \<Rightarrow> (string \<times> int) list \<Rightarrow> breakdown_row list" where
  "breakdown_rows totals ws playtime =
     map (\<lambda>k. \<lparr>br_key = k, br_games = lookup0 totals k, br_wins = lookup0 ws k,
               br_winrate = rate (lookup0 ws k) (lookup0 totals k),
               br_playtime = secondsToHMS (of_int (lookup0 playtime k))\<rparr>)
         (map fst totals)"

definition opponent_results :: "breakdown_row list" where
  "opponent_results =
     sort_by_games_desc br_games (breakdown_rows opponent_totals opponent_wins opponent_playtime)"

text \<open>The 34 by 34 matrix of cells \<^verbatim>\<open>[wins, games, name]\<close>; no statement writes to it.\<close>

definition character_head_to_head :: "(nat \<times> nat \<times> string) list list" where
  "character_head_to_head = replicate 34 (map (\<lambda>i. (0, 0, characters ! i)) [0..<34])"

definition matchup_results :: "matchup_row list" where
  "matchup_results =
     sort_by_games_desc mr_games
       (concat (map (\<lambda>(pChar, row).
                       map (\<lambda>(w, g, oppCharName).
                              \<lparr>mr_yourCharacter = characters ! pChar,
                               mr_opponentCharacter = oppCharName,
                               mr_games = g, mr_wins = w,
                               mr_winrate = toFixed2 (percent w g)\<rparr>)
                           (filter (\<lambda>(w, g, oppCharName). 0 < g) row))
                    (enumerate 0 character_head_to_head)))"

definition topThrow :: "acc \<Rightarrow> string \<times> nat" where
  "topThrow st =
     hd (sort_by_games_desc snd
           [(''up'', throw_up st), (''down'', throw_down st), (''forward'', throw_forward st),
            (''back'', throw_back st)])"

definition miscStats :: "acc \<Rightarrow> misc_t" where
  "miscStats st =
     \<lparr>m_lCancelSuccessTotal = lCancelSuccessTotal st, m_lCancelFailTotal = lCancelFailTotal st,
      m_wavedashTotal = wavedashTotal st, m_rollTotal = rollTotal st,
      m_ledgegrabTotal = ledgegrabTotal st, m_dashDanceTotal = dashDanceTotal st,
      m_techSuccessTotal = techSuccessTotal st, m_techFailTotal = techFailTotal st,
      m_totalStocksTaken = totalStocksTaken st, m_totalStocksLost = totalStocksLost st,
      m_topThrowDir = fst (topThrow st), m_topThrowCount = snd (topThrow st),
      m_bestWinStreak = bestWinStreak st\<rparr>"

text \<open>
  The code of \<^verbatim>\<open>analyzeReplays\<close> after the cache is written: the report of a run that
  found \<open>n\<close> files and ended its loop in the state \<open>st\<close>.
\<close>

definition build_report :: "options \<Rightarrow> nat \<Rightarrow> acc \<Rightarrow> report" where
  "build_report opts n st =
     (if total_games st = 0 then
        NoGamesFound
          \<lparr>rn_message = ''No games found matching requested parameters.'',
           rn_filters = echo_filters opts,
           rn_summary =
             \<lparr>sn_totalGames = 0, sn_totalWins = 0, sn_winRate = Num 0,
              sn_analyzedTime = ''00:00:00'',
              sn_totalTimeAllReplays = secondsToHMS (total_seconds st),
              sn_new_replays = new_replays st\<rparr>,
           rn_stages = [], rn_nicknames = [], rn_codes = [], rn_opponents = [],
           rn_matchups = []\<rparr>
      else
        GamesFound
          \<lparr>rf_filters = echo_filters opts,
           rf_identity = \<lparr>playerName = [], playerCode = [], opponentName = [], opponentCode = []\<rparr>,
           rf_summary =
             \<lparr>totalGames = total_games st, totalWins = total_wins st,
              winRate = Str (rate (total_wins st) (total_games st)),
              analyzedTime = secondsToHMS (of_int (counted_seconds st)),
              totalTimeAllReplays = secondsToHMS (total_seconds st),
              newReplaysCached = new_replays st,
              totalReplaysScanned = n,
              skippedReplays = skippedCount st\<rparr>,
           rf_stages = sortedStageResults st,
           rf_nicknames = [], rf_codes = [],
           rf_opponents = opponent_results,
           rf_characterPlaytime = map (\<lambda>(c, secs). (c, secondsToHMS (of_int secs))) (characterPlaytime st),
           rf_matchups = (case matchups st of None \<Rightarrow> Rows matchup_results | Some m \<Rightarrow> Nested m),
           rf_misc = miscStats st\<rparr>)"

section \<open>analyzeReplays\<close>

definition isSpace :: "char \<Rightarrow> bool" where
  "isSpace c = (c \<in> set [CHR '' '', CHR 0x09, CHR 0x0A, CHR 0x0B, CHR 0x0C, CHR 0x0D])"

definition trim :: "string \<Rightarrow> string" where
  "trim s = rev (dropWhile isSpace (rev (dropWhile isSpace s)))"

text \<open>\<^verbatim>\<open>tags.map(s => s.toLowerCase().trim()).filter(Boolean)\<close>\<close>

definition normalize_tags :: "string list \<Rightarrow> string list" where
  "normalize_tags tags = filter (\<lambda>s. s \<noteq> []) (map (\<lambda>s. trim (toLowerCase s)) tags)"

definition criteria_of :: "options \<Rightarrow> criteria" where
  "criteria_of opts =
     \<lparr>wantedPlayersLower = normalize_tags (playerTags opts),
      wantedOpponentLower = normalize_tags (opponentTags opts),
      ignoredOpponentsLower = normalize_tags (ignoredOpponents opts),
      playerCharacterFilter = resolveCharacterFilter (playerCharacter opts),
      opponentCharacterFilter = resolveCharacterFilter (opponentCharacter opts),
      rankedOnly = o_rankedOnly opts\<rparr>"

text \<open>The document \<^verbatim>\<open>replayCache.json\<close>.\<close>

record cache_doc =
  statsVersion :: string
  slippiJsVersion :: string
  user_player_arg :: string
  results :: "(string \<times> gameData_t) list"

text \<open>\<open>None\<close> is a cache file that is missing, unreadable or without \<^verbatim>\<open>results\<close>.\<close>

definition loadCache :: "cache_doc option \<Rightarrow> (string \<times> gameData_t) list" where
  "loadCache disk = (case disk of None \<Rightarrow> [] | Some doc \<Rightarrow> results doc)"

fun join_comma :: "string list \<Rightarrow> string" where
  "join_comma [] = []"
| "join_comma [x] = x"
| "join_comma (x # y # ys) = x @ '','' @ join_comma (y # ys)"

definition writeCache :: "(string \<times> gameData_t) list \<Rightarrow> string \<Rightarrow> cache_doc" where
  "writeCache cacheResults userPlayerArg =
     \<lparr>statsVersion = ''ui-port'', slippiJsVersion = ''unknown'',
      user_player_arg = userPlayerArg, results = cacheResults\<rparr>"

definition init_acc :: "(string \<times> gameData_t) list \<Rightarrow> acc" where
  "init_acc c =
     \<lparr>total_games = 0, total_wins = 0, total_seconds = 0, counted_seconds = 0,
      characterPlaytime = [],
      lCancelSuccessTotal = 0, lCancelFailTotal = 0, wavedashTotal = 0, rollTotal = 0,
      ledgegrabTotal = 0, dashDanceTotal = 0, techSuccessTotal = 0, techFailTotal = 0,
      totalStocksTaken = 0, totalStocksLost = 0,
      throw_up = 0, throw_down = 0, throw_forward = 0, throw_back = 0,
      currentStreak = 0, bestWinStreak = 0,
      stage_totals = [], stage_wins = [], stage_playtime = [],
      matchups = None, new_replays = 0, skippedCount = 0,
      cache = c, events = [], decode_calls = 0\<rparr>"

text \<open>
  The state in which the loop of a run ends: \<open>disk\<close> is the cache document found in the
  folder, \<open>files\<close> the sorted replay files found there, \<open>cancels\<close> the iterations during
  whose suspension a cancel request is handled.
\<close>

definition final_state ::
  "env \<Rightarrow> cache_doc option \<Rightarrow> string list \<Rightarrow> (nat \<Rightarrow> bool) \<Rightarrow> options \<Rightarrow> acc" where
  "final_state E disk files cancels opts =
     replay_loop E (criteria_of opts) cancels (length files) 0 files False
       (init_acc (loadCache disk))"

text \<open>
  A run returns its report; it leaves the written cache document on disk and its messages
  with the window.
\<close>

definition analyzeReplays ::
  "env \<Rightarrow> cache_doc option \<Rightarrow> string list \<Rightarrow> (nat \<Rightarrow> bool) \<Rightarrow> options
     \<Rightarrow> report \<times> cache_doc \<times> event list" where
  "analyzeReplays E disk files cancels opts =
     (let st = final_state E disk files cancels opts
      in (build_report opts (length files) st,
          writeCache (cache st) (join_comma (wantedPlayersLower (criteria_of opts))),
          events st))"

section \<open>Notions of the specification\<close>

text \<open>
  A qualifying match: \<^verbatim>\<open>processSingleReplay\<close> returns a full summary and the loop's
  stage check finds its stage in the table. Every other file that was read is skipped.
\<close>

definition qualifies :: "criteria \<Rightarrow> gameData_t \<Rightarrow> bool" where
  "qualifies C gameData =
     (case processSingleReplay C gameData of
        Null \<Rightarrow> False
      | Excluded ts \<Rightarrow> False
      | Summary d \<Rightarrow> stageAt (d_stage_num d) \<noteq> None)"

text \<open>Rows in descending order of a count.\<close>

definition descending_by :: "('a \<Rightarrow> nat) \<Rightarrow> 'a list \<Rightarrow> bool" where
  "descending_by g rows = sorted_wrt (\<lambda>a b. g b \<le> g a) rows"

text \<open>
  The matchups of a report in descending order of games: the rows as a whole, or, for the
  nested table, the cells under each of the player's characters.
\<close>

definition matchups_descending :: "matchups_out \<Rightarrow> bool" where
  "matchups_descending m =
     (case m of
        Rows rs \<Rightarrow> descending_by mr_games rs
      | Nested t \<Rightarrow> list_all (\<lambda>(pc, row). descending_by (\<lambda>oc. games (snd oc)) row) t)"

text \<open>Readers of the two report shapes.\<close>

definition report_totalGames :: "report \<Rightarrow> nat" where
  "report_totalGames r =
     (case r of NoGamesFound rn \<Rightarrow> sn_totalGames (rn_summary rn)
      | GamesFound rf \<Rightarrow> totalGames (rf_summary rf))"

definition report_totalWins :: "report \<Rightarrow> nat" where
  "report_totalWins r =
     (case r of NoGamesFound rn \<Rightarrow> sn_totalWins (rn_summary rn)
      | GamesFound rf \<Rightarrow> totalWins (rf_summary rf))"

definition report_winRate :: "report \<Rightarrow> jsval" where
  "report_winRate r =
     (case r of NoGamesFound rn \<Rightarrow> sn_winRate (rn_summary rn)
      | GamesFound rf \<Rightarrow> winRate (rf_summary rf))"

definition report_stages :: "report \<Rightarrow> (string \<times> stage_row) list" where
  "report_stages r = (case r of NoGamesFound rn \<Rightarrow> rn_stages rn | GamesFound rf \<Rightarrow> rf_stages rf)"

definition report_opponents :: "report \<Rightarrow> breakdown_row list" where
  "report_opponents r =
     (case r of NoGamesFound rn \<Rightarrow> rn_opponents rn | GamesFound rf \<Rightarrow> rf_opponents rf)"

definition report_matchups :: "report \<Rightarrow> matchups_out" where
  "report_matchups r =
     (case r of NoGamesFound rn \<Rightarrow> Rows (rn_matchups rn) | GamesFound rf \<Rightarrow> rf_matchups rf)"

text \<open>The count of newly cached replays that a report carries.\<close>

definition report_new_replays :: "report \<Rightarrow> nat" where
  "report_new_replays r =
     (case r of NoGamesFound rn \<Rightarrow> sn_new_replays (rn_summary rn)
      | GamesFound rf \<Rightarrow> newReplaysCached (rf_summary rf))"

text \<open>A report with that count replaced.\<close>

definition report_with_new_replays :: "nat \<Rightarrow> report \<Rightarrow> report" where
  "report_with_new_replays k r =
     (case r of
        NoGamesFound rn \<Rightarrow> NoGamesFound (rn\<lparr>rn_summary := (rn_summary rn)\<lparr>sn_new_replays := k\<rparr>\<rparr>)
      | GamesFound rf \<Rightarrow> GamesFound (rf\<lparr>rf_summary := (rf_summary rf)\<lparr>newReplaysCached := k\<rparr>\<rparr>))"

text \<open>Wins do not exceed games: in every cell of a matchup table, \<dots>\<close>

definition cells_ok :: "(string \<times> (string \<times> cell) list) list \<Rightarrow> bool" where
  "cells_ok m = list_all (\<lambda>(pc, row). list_all (\<lambda>(oc, c). wins c \<le> games c) row) m"

text \<open>\<dots> at the three levels of the accumulators, \<dots>\<close>

definition acc_wins_ok :: "acc \<Rightarrow> bool" where
  "acc_wins_ok st =
     (total_wins st \<le> total_games st
      \<and> (\<forall>k. lookup0 (stage_wins st) k \<le> lookup0 (stage_totals st) k)
      \<and> (case matchups st of None \<Rightarrow> True | Some m \<Rightarrow> cells_ok m))"

text \<open>\<dots> and at the three levels of a report.\<close>

definition report_wins_ok :: "report \<Rightarrow> bool" where
  "report_wins_ok r =
     (report_totalWins r \<le> report_totalGames r
      \<and> list_all (\<lambda>(nm, row). sr_wins row \<le> sr_games row) (report_stages r)
      \<and> (case report_matchups r of
            Rows rs \<Rightarrow> list_all (\<lambda>row. mr_wins row \<le> mr_games row) rs
          | Nested m \<Rightarrow> cells_ok m))"

text \<open>
  What the loop keeps true of its accumulators: the above, stage names are stored once
  and with a positive game count, and the matchup table exists once a game was counted.
\<close>

definition acc_inv :: "acc \<Rightarrow> bool" where
  "acc_inv st =
     (acc_wins_ok st
      \<and> distinct (map fst (stage_totals st))
      \<and> list_all (\<lambda>(nm, g). 0 < g) (stage_totals st)
      \<and> (0 < total_games st \<longrightarrow> matchups st \<noteq> None))"

text \<open>
  No cancel request arrives.
\<close>

definition never :: "nat \<Rightarrow> bool" where
  "never i = False"

text \<open>The only cancel request is handled during the yield of the file with index \<open>j\<close>.\<close>

definition cancel_at :: "nat \<Rightarrow> nat \<Rightarrow> bool" where
  "cancel_at j i = (i = j)"

text \<open>
  The accumulators once the loop of a run has handled its first \<open>k\<close> files, no cancel
  request having been seen.
\<close>

definition state_after :: "env \<Rightarrow> cache_doc option \<Rightarrow> string list \<Rightarrow> options \<Rightarrow> nat \<Rightarrow> acc" where
  "state_after E disk files opts k =
     replay_loop E (criteria_of opts) never (length files) 0 (take k files) False
       (init_acc (loadCache disk))"

text \<open>
  Reading a rendered rate back: digits, a point and exactly two more digits, as the number
  they write.
\<close>

definition digit_val :: "char \<Rightarrow> nat option" where
  "digit_val c = (let n = (of_char c :: nat) in if 48 \<le> n \<and> n \<le> 57 then Some (n - 48) else None)"

fun read_digits :: "nat \<Rightarrow> string \<Rightarrow> nat option" where
  "read_digits a [] = Some a"
| "read_digits a (c # cs) = (case digit_val c of None \<Rightarrow> None | Some d \<Rightarrow> read_digits (10 * a + d) cs)"

definition read_fixed2 :: "string \<Rightarrow> rat option" where
  "read_fixed2 s =
     (let n = length s - 3; ip = take n s; fr = drop n s
      in if ip \<noteq> [] \<and> length fr = 3 \<and> fr ! 0 = CHR ''.''
         then (case (read_digits 0 ip, digit_val (fr ! 1), digit_val (fr ! 2)) of
                 (Some a, Some b, Some c) \<Rightarrow> Some (of_nat a + of_nat b / 10 + of_nat c / 100)
               | _ \<Rightarrow> None)
         else None)"

section \<open>Example replays\<close>

text \<open>A decoded one-on-one game: names, character ids, stage id, frames, kills, percents.\<close>

definition two_player_game ::
  "string \<Rightarrow> string \<Rightarrow> nat \<Rightarrow> nat \<Rightarrow> int \<Rightarrow> int \<Rightarrow> nat \<Rightarrow> nat \<Rightarrow> rat \<Rightarrow> rat \<Rightarrow> decoded" where
  "two_player_game n0 n1 c0 c1 stg frames k0 k1 pc0 pc1 =
     \<lparr>dec_settings = Some \<lparr>stageId = Some stg,
          players = Some [Some \<lparr>characterId = Some c0\<rparr>, Some \<lparr>characterId = Some c1\<rparr>],
          matchId = None\<rparr>,
      dec_metadata = Some \<lparr>meta_players = Some
          [Some \<lparr>names = Some \<lparr>netplay = Some n0, code = None\<rparr>\<rparr>,
           Some \<lparr>names = Some \<lparr>netplay = Some n1, code = None\<rparr>\<rparr>]\<rparr>,
      dec_stats = Some \<lparr>overall = Some [Some \<lparr>killCount = Some k0\<rparr>, Some \<lparr>killCount = Some k1\<rparr>],
          actionCounts = None\<rparr>,
      dec_latestFrame = Some \<lparr>frame = Some frames, lf_players = Some [pc0, pc1]\<rparr>\<rparr>"

text \<open>
  A folder of four replays of the player "me" (Fox): a win over Marth on Battlefield (90 s),
  a loss to Falco on Battlefield (120 s), a win over Falco on Final Destination (120 s), and
  a game of 10 seconds. Any other file makes the decoder throw.
\<close>

definition ex_decode :: "string \<Rightarrow> decoded option" where
  "ex_decode f =
     (if f = ''a.slp'' then Some (two_player_game ''me'' ''you'' 2 9 31 5400 4 2 10 120)
      else if f = ''b.slp'' then Some (two_player_game ''me'' ''you'' 2 20 31 7200 1 4 150 20)
      else if f = ''c.slp'' then Some (two_player_game ''me'' ''you'' 2 20 32 7200 4 3 150 20)
      else if f = ''short.slp'' then Some (two_player_game ''me'' ''you'' 2 20 32 600 1 0 150 20)
      else None)"

definition ex_env :: env where
  "ex_env = \<lparr>hashReplayFile = (\<lambda>f. Some (''#'' @ f)), decode = ex_decode, win = True\<rparr>"

definition ex_opts :: options where
  "ex_opts = \<lparr>playerTags = [''Me''], opponentTags = [], ignoredOpponents = [],
     playerCharacter = None, opponentCharacter = None, o_rankedOnly = False\<rparr>"

text \<open>Two games of exactly 30 and exactly 29 seconds, one kill in each.\<close>

definition game30 :: gameData_t where
  "game30 = build_gameData (Some ''h30'') ''t30.slp''
              (two_player_game ''me'' ''you'' 2 9 31 1800 1 0 50 80)"

definition game29 :: gameData_t where
  "game29 = build_gameData (Some ''h29'') ''t29.slp''
              (two_player_game ''me'' ''you'' 2 9 31 1740 1 0 50 80)"

text \<open>The \<^verbatim>\<open>gameData\<close> of the three long example games.\<close>

definition gameA :: gameData_t where
  "gameA = build_gameData (Some ''#a.slp'') ''a.slp''
             (two_player_game ''me'' ''you'' 2 9 31 5400 4 2 10 120)"

definition gameB :: gameData_t where
  "gameB = build_gameData (Some ''#b.slp'') ''b.slp''
             (two_player_game ''me'' ''you'' 2 20 31 7200 1 4 150 20)"

definition gameC :: gameData_t where
  "gameC = build_gameData (Some ''#c.slp'') ''c.slp''
             (two_player_game ''me'' ''you'' 2 20 32 7200 4 3 150 20)"

text \<open>
  The accumulators after the first, the first two and all three of them, in a run over \<open>n\<close>
  files that starts from the cache \<open>c0\<close> and ends with the cache \<open>c\<close>, having cached \<open>r\<close>
  replays in \<open>k\<close> decoder calls.
\<close>

definition after_a :: "nat \<Rightarrow> (string \<times> gameData_t) list \<Rightarrow> nat \<Rightarrow> nat \<Rightarrow> acc" where
  "after_a n c r k =
     \<lparr>total_games = 1, total_wins = 1, total_seconds = 90, counted_seconds = 90,
      characterPlaytime = [(''Fox'', 90)],
      lCancelSuccessTotal = 0, lCancelFailTotal = 0, wavedashTotal = 0, rollTotal = 0,
      ledgegrabTotal = 0, dashDanceTotal = 0, techSuccessTotal = 0, techFailTotal = 0,
      totalStocksTaken = 4, totalStocksLost = 2,
      throw_up = 0, throw_down = 0, throw_forward = 0, throw_back = 0,
      currentStreak = 1, bestWinStreak = 1,
      stage_totals = [(''Battlefield'', 1)], stage_wins = [(''Battlefield'', 1)],
      stage_playtime = [(''Battlefield'', 90)],
      matchups = Some [(''Fox'', [(''Marth'', \<lparr>games = 1, wins = 1, totalSeconds = 90\<rparr>)])],
      new_replays = r, skippedCount = 0, cache = c,
      events = [MatchLog ''me'' ''you'' ''Battlefield'' True, Progress 1 n],
      decode_calls = k\<rparr>"

definition after_ab :: "nat \<Rightarrow> (string \<times> gameData_t) list \<Rightarrow> nat \<Rightarrow> nat \<Rightarrow> acc" where
  "after_ab n c r k =
     \<lparr>total_games = 2, total_wins = 1, total_seconds = 210, counted_seconds = 210,
      characterPlaytime = [(''Fox'', 210)],
      lCancelSuccessTotal = 0, lCancelFailTotal = 0, wavedashTotal = 0, rollTotal = 0,
      ledgegrabTotal = 0, dashDanceTotal = 0, techSuccessTotal = 0, techFailTotal = 0,
      totalStocksTaken = 5, totalStocksLost = 6,
      throw_up = 0, throw_down = 0, throw_forward = 0, throw_back = 0,
      currentStreak = 0, bestWinStreak = 1,
      stage_totals = [(''Battlefield'', 2)], stage_wins = [(''Battlefield'', 1)],
      stage_playtime = [(''Battlefield'', 210)],
      matchups = Some [(''Fox'', [(''Marth'', \<lparr>games = 1, wins = 1, totalSeconds = 90\<rparr>),
                                  (''Falco'', \<lparr>games = 1, wins = 0, totalSeconds = 120\<rparr>)])],
      new_replays = r, skippedCount = 0, cache = c,
      events = [MatchLog ''me'' ''you'' ''Battlefield'' True, Progress 1 n,
                MatchLog ''me'' ''you'' ''Battlefield'' False, Progress 2 n],
      decode_calls = k\<rparr>"

definition after_abc :: "nat \<Rightarrow> (string \<times> gameData_t) list \<Rightarrow> nat \<Rightarrow> nat \<Rightarrow> acc" where
  "after_abc n c r k =
     \<lparr>total_games = 3, total_wins = 2, total_seconds = 330, counted_seconds = 330,
      characterPlaytime = [(''Fox'', 330)],
      lCancelSuccessTotal = 0, lCancelFailTotal = 0, wavedashTotal = 0, rollTotal = 0,
      ledgegrabTotal = 0, dashDanceTotal = 0, techSuccessTotal = 0, techFailTotal = 0,
      totalStocksTaken = 9, totalStocksLost = 9,
      throw_up = 0, throw_down = 0, throw_forward = 0, throw_back = 0,
      currentStreak = 1, bestWinStreak = 1,
      stage_totals = [(''Battlefield'', 2), (''Final Destination'', 1)],
      stage_wins = [(''Battlefield'', 1), (''Final Destination'', 1)],
      stage_playtime = [(''Battlefield'', 210), (''Final Destination'', 120)],
      matchups = Some [(''Fox'', [(''Marth'', \<lparr>games = 1, wins = 1, totalSeconds = 90\<rparr>),
                                  (''Falco'', \<lparr>games = 2, wins = 1, totalSeconds = 240\<rparr>)])],
      new_replays = r, skippedCount = 0, cache = c,
      events = [MatchLog ''me'' ''you'' ''Battlefield'' True, Progress 1 n,
                MatchLog ''me'' ''you'' ''Battlefield'' False, Progress 2 n,
                MatchLog ''me'' ''you'' ''Final Destination'' True, Progress 3 n],
      decode_calls = k\<rparr>"

text \<open>The \<^verbatim>\<open>gameData\<close> of the short game, and the accumulators after it alone.\<close>

definition gameShort :: gameData_t where
  "gameShort = build_gameData (Some ''#short.slp'') ''short.slp''
                 (two_player_game ''me'' ''you'' 2 20 32 600 1 0 150 20)"

definition after_short :: acc where
  "after_short =
     (init_acc [(''#short.slp'', gameShort)])\<lparr>new_replays := 1, skippedCount := 1,
                                                decode_calls := 1\<rparr>"

section \<open>What processSingleReplay returns\<close>

lemma game_validation_cases:
  assumes "g_latestFramePercents gd = Some ps"
  shows "game_validation gd s pI oI pid oid pc oc =
     (if \<lfloor>g_total_seconds gd\<rfloor> < 30 \<or> (killsOf (g_stats gd) pI = 0 \<and> killsOf (g_stats gd) oI = 0)
      then Some (Excluded (g_total_seconds gd))
      else Some (Summary
         \<lparr>d_total_games = 1,
          d_total_wins = (if killsOf (g_stats gd) oI < killsOf (g_stats gd) pI
               \<or> (killsOf (g_stats gd) pI = killsOf (g_stats gd) oI \<and> js_less (nth_opt ps pI) (nth_opt ps oI)) then 1 else 0),
          d_total_seconds = g_total_seconds gd,
          d_game_seconds = \<lfloor>g_total_seconds gd\<rfloor>,
          d_player_character_num = pc,
          d_player_character_name = characterName pc,
          d_opponent_character_num = oc,
          d_opponent_character_name = characterName oc,
          d_stage_num = normStageId (stageId s),
          d_stage_name = (case stageAt (normStageId (stageId s)) of None \<Rightarrow> ''Unknown Stage'' | Some nm \<Rightarrow> nm),
          d_player_index = pI,
          d_player_name = displayName pid,
          d_player_code = connectCode pid,
          d_opponent_index = oI,
          d_opponent_name = displayName oid,
          d_opponent_code = connectCode oid\<rparr>))"
  using assms by (simp add: game_validation_def Let_def)

lemma apply_filters_Summary:
  assumes "apply_filters C gd s sp p0 p1 pI oI = Some (Summary d)"
  shows "\<exists>pid oid pc oc. game_validation gd s pI oI pid oid pc oc = Some (Summary d)"
  using assms unfolding apply_filters_def Let_def
  by (auto split: if_splits)

lemma try_Summary:
  assumes "processSingleReplay_try C gd = Some (Summary d)"
  shows "\<exists>s sp p0 p1 pI oI. apply_filters C gd s sp p0 p1 pI oI = Some (Summary d)"
  using assms unfolding processSingleReplay_try_def Let_def
  by (auto split: if_splits option.splits prod.splits) blast+

lemma game_validation_None:
  "game_validation gd s pI oI pid oid pc oc = Some r \<Longrightarrow> \<exists>ps. g_latestFramePercents gd = Some ps"
  unfolding game_validation_def by (cases "g_latestFramePercents gd") auto

lemma summary_shape:
  assumes "processSingleReplay C gd = Summary d"
  shows "\<exists>ps. g_latestFramePercents gd = Some ps
           \<and> d_total_games d = 1
           \<and> d_total_wins d =
               (if killsOf (g_stats gd) (d_opponent_index d) < killsOf (g_stats gd) (d_player_index d)
                   \<or> (killsOf (g_stats gd) (d_player_index d) = killsOf (g_stats gd) (d_opponent_index d)
                       \<and> js_less (nth_opt ps (d_player_index d)) (nth_opt ps (d_opponent_index d)))
                then 1 else 0)
           \<and> d_total_seconds d = g_total_seconds gd
           \<and> d_game_seconds d = \<lfloor>g_total_seconds gd\<rfloor>
           \<and> 30 \<le> d_game_seconds d
           \<and> (0 < killsOf (g_stats gd) (d_player_index d) \<or> 0 < killsOf (g_stats gd) (d_opponent_index d))"
proof -
  from assms have "processSingleReplay_try C gd = Some (Summary d)"
    unfolding processSingleReplay_def by (auto split: option.splits)
  then obtain s sp p0 p1 pI oI where "apply_filters C gd s sp p0 p1 pI oI = Some (Summary d)"
    using try_Summary by blast
  then obtain pid oid pc oc where gv: "game_validation gd s pI oI pid oid pc oc = Some (Summary d)"
    using apply_filters_Summary by blast
  then obtain ps where ps: "g_latestFramePercents gd = Some ps"
    using game_validation_None by blast
  from gv show ?thesis
    unfolding game_validation_cases [OF ps] using ps
    by (auto split: if_splits)
qed


lemma slot_short: "displayName (extractIdentity (slot ps (Suc 0))) \<noteq> [] \<Longrightarrow> \<not> length ps < 2"
  by (auto simp: slot_def nth_opt_def extractIdentity_def)

lemma reach_validation:
  assumes "\<not> (rankedOnly C \<and> getMatchType (matchIdOf gd) \<noteq> ''Ranked'')"
    and "displayName (extractIdentity (slot (playersMetaOf gd) 0)) \<noteq> []"
    and "displayName (extractIdentity (slot (playersMetaOf gd) 1)) \<noteq> []"
    and "g_settings gd = Some s" and "players s = Some sp" and "2 \<le> length sp"
    and "choose_viewpoint (wantedPlayersLower C) (wantedOpponentLower C)
           (extractIdentity (slot (playersMetaOf gd) 0))
           (extractIdentity (slot (playersMetaOf gd) 1)) = Some (pI, oI)"
    and "\<not> isIgnoredOpponent
             (if oI = 0 then extractIdentity (slot (playersMetaOf gd) 0)
              else extractIdentity (slot (playersMetaOf gd) 1))
             (ignoredOpponentsLower C)"
    and "\<not> filter_rejects (playerCharacterFilter C) (characterIdOf sp pI)"
    and "\<not> filter_rejects (opponentCharacterFilter C) (characterIdOf sp oI)"
  shows "processSingleReplay_try C gd =
           game_validation gd s pI oI
             (if pI = 0 then extractIdentity (slot (playersMetaOf gd) 0)
              else extractIdentity (slot (playersMetaOf gd) 1))
             (if oI = 0 then extractIdentity (slot (playersMetaOf gd) 0)
              else extractIdentity (slot (playersMetaOf gd) 1))
             (characterIdOf sp pI) (characterIdOf sp oI)"
proof -
  have len: "\<not> length (playersMetaOf gd) < 2"
    using assms(3) slot_short by simp
  have "processSingleReplay_try C gd =
          apply_filters C gd s sp (extractIdentity (slot (playersMetaOf gd) 0))
            (extractIdentity (slot (playersMetaOf gd) 1)) pI oI"
    unfolding processSingleReplay_try_def Let_def
    using assms(1-7) len by auto
  also have "\<dots> = game_validation gd s pI oI
             (if pI = 0 then extractIdentity (slot (playersMetaOf gd) 0)
              else extractIdentity (slot (playersMetaOf gd) 1))
             (if oI = 0 then extractIdentity (slot (playersMetaOf gd) 0)
              else extractIdentity (slot (playersMetaOf gd) 1))
             (characterIdOf sp pI) (characterIdOf sp oI)"
    unfolding apply_filters_def Let_def
    using assms(8-10) by simp
  finally show ?thesis .
qed

text \<open>
  C4. A match that reaches the duration and kill validation (no earlier check of
  \<^verbatim>\<open>processSingleReplay\<close> returned, and the percentages can be read) is excluded there
  exactly when the floor of its duration is below 30 seconds or both kill counts are zero;
  otherwise a full summary is returned. In particular a match of 29 seconds is excluded, a
  match of 30 seconds with a kill on either side passes, and a match without kills is
  excluded whatever its duration.
\<close>

theorem duration_kill_validation:
  assumes "\<not> (rankedOnly C \<and> getMatchType (matchIdOf gd) \<noteq> ''Ranked'')"
    and "displayName (extractIdentity (slot (playersMetaOf gd) 0)) \<noteq> []"
    and "displayName (extractIdentity (slot (playersMetaOf gd) 1)) \<noteq> []"
    and "g_settings gd = Some s" and "players s = Some sp" and "2 \<le> length sp"
    and "choose_viewpoint (wantedPlayersLower C) (wantedOpponentLower C)
           (extractIdentity (slot (playersMetaOf gd) 0))
           (extractIdentity (slot (playersMetaOf gd) 1)) = Some (pI, oI)"
    and "\<not> isIgnoredOpponent
             (if oI = 0 then extractIdentity (slot (playersMetaOf gd) 0)
              else extractIdentity (slot (playersMetaOf gd) 1))
             (ignoredOpponentsLower C)"
    and "\<not> filter_rejects (playerCharacterFilter C) (characterIdOf sp pI)"
    and "\<not> filter_rejects (opponentCharacterFilter C) (characterIdOf sp oI)"
    and "g_latestFramePercents gd = Some ps"
  shows "(processSingleReplay C gd = Excluded (g_total_seconds gd))
           = (\<lfloor>g_total_seconds gd\<rfloor> < 30
               \<or> (killsOf (g_stats gd) pI = 0 \<and> killsOf (g_stats gd) oI = 0))
         \<and> ((\<exists>d. processSingleReplay C gd = Summary d)
           = (\<not> (\<lfloor>g_total_seconds gd\<rfloor> < 30
               \<or> (killsOf (g_stats gd) pI = 0 \<and> killsOf (g_stats gd) oI = 0))))
         \<and> (g_total_seconds gd = 29 \<longrightarrow> processSingleReplay C gd = Excluded (g_total_seconds gd))
         \<and> (g_total_seconds gd = 30 \<and> (0 < killsOf (g_stats gd) pI \<or> 0 < killsOf (g_stats gd) oI)
               \<longrightarrow> (\<exists>d. processSingleReplay C gd = Summary d))
         \<and> (killsOf (g_stats gd) pI = 0 \<and> killsOf (g_stats gd) oI = 0
               \<longrightarrow> processSingleReplay C gd = Excluded (g_total_seconds gd))"
proof -
  have "processSingleReplay_try C gd =
           game_validation gd s pI oI
             (if pI = 0 then extractIdentity (slot (playersMetaOf gd) 0)
              else extractIdentity (slot (playersMetaOf gd) 1))
             (if oI = 0 then extractIdentity (slot (playersMetaOf gd) 0)
              else extractIdentity (slot (playersMetaOf gd) 1))
             (characterIdOf sp pI) (characterIdOf sp oI)"
    by (rule reach_validation [OF assms(1-10)])
  then have A: "\<lfloor>g_total_seconds gd\<rfloor> < 30
           \<or> (killsOf (g_stats gd) pI = 0 \<and> killsOf (g_stats gd) oI = 0)
        \<Longrightarrow> processSingleReplay C gd = Excluded (g_total_seconds gd)"
    and B: "\<not> (\<lfloor>g_total_seconds gd\<rfloor> < 30
           \<or> (killsOf (g_stats gd) pI = 0 \<and> killsOf (g_stats gd) oI = 0))
        \<Longrightarrow> \<exists>d. processSingleReplay C gd = Summary d"
    unfolding processSingleReplay_def game_validation_cases [OF assms(11)]
    by simp_all
  show ?thesis
  proof (cases "\<lfloor>g_total_seconds gd\<rfloor> < 30
           \<or> (killsOf (g_stats gd) pI = 0 \<and> killsOf (g_stats gd) oI = 0)")
    case True
    with A have "processSingleReplay C gd = Excluded (g_total_seconds gd)" by blast
    with True show ?thesis by auto
  next
    case False
    with B obtain d where "processSingleReplay C gd = Summary d" by blast
    with False show ?thesis by auto
  qed
qed

theorem duration_kill_validation_witness:
  "processSingleReplay (criteria_of ex_opts) game29 = Excluded 29
   \<and> (\<exists>d. processSingleReplay (criteria_of ex_opts) game30 = Summary d)"
proof -
  let ?C = "criteria_of ex_opts"
  let ?s = "\<lparr>stageId = Some 31,
         players = Some [Some \<lparr>characterId = Some 2\<rparr>, Some \<lparr>characterId = Some 9\<rparr>],
         matchId = None\<rparr>"
  let ?sp = "[Some \<lparr>characterId = Some 2\<rparr>, Some \<lparr>characterId = Some 9\<rparr>]"
  have a1: "\<not> (rankedOnly ?C \<and> getMatchType (matchIdOf game30) \<noteq> ''Ranked'')" by code_simp
  have a2: "displayName (extractIdentity (slot (playersMetaOf game30) 0)) \<noteq> []" by code_simp
  have a3: "displayName (extractIdentity (slot (playersMetaOf game30) 1)) \<noteq> []" by code_simp
  have a4: "g_settings game30 = Some ?s" by code_simp
  have a5: "players ?s = Some ?sp" by simp
  have a6: "2 \<le> length ?sp" by simp
  have a7: "choose_viewpoint (wantedPlayersLower ?C) (wantedOpponentLower ?C)
           (extractIdentity (slot (playersMetaOf game30) 0))
           (extractIdentity (slot (playersMetaOf game30) 1)) = Some (0, 1)" by code_simp
  have a8: "\<not> isIgnoredOpponent
             (if (1::nat) = 0 then extractIdentity (slot (playersMetaOf game30) 0)
              else extractIdentity (slot (playersMetaOf game30) 1))
             (ignoredOpponentsLower ?C)" by code_simp
  have a9: "\<not> filter_rejects (playerCharacterFilter ?C) (characterIdOf ?sp 0)" by code_simp
  have a10: "\<not> filter_rejects (opponentCharacterFilter ?C) (characterIdOf ?sp 1)" by code_simp
  have a11: "g_latestFramePercents game30 = Some [50, 80]" by code_simp
  have t30: "g_total_seconds game30 = 30" by code_simp
  have k30: "0 < killsOf (g_stats game30) 0" by code_simp
  have b1: "\<not> (rankedOnly ?C \<and> getMatchType (matchIdOf game29) \<noteq> ''Ranked'')" by code_simp
  have b2: "displayName (extractIdentity (slot (playersMetaOf game29) 0)) \<noteq> []" by code_simp
  have b3: "displayName (extractIdentity (slot (playersMetaOf game29) 1)) \<noteq> []" by code_simp
  have b4: "g_settings game29 = Some ?s" by code_simp
  have b7: "choose_viewpoint (wantedPlayersLower ?C) (wantedOpponentLower ?C)
           (extractIdentity (slot (playersMetaOf game29) 0))
           (extractIdentity (slot (playersMetaOf game29) 1)) = Some (0, 1)" by code_simp
  have b8: "\<not> isIgnoredOpponent
             (if (1::nat) = 0 then extractIdentity (slot (playersMetaOf game29) 0)
              else extractIdentity (slot (playersMetaOf game29) 1))
             (ignoredOpponentsLower ?C)" by code_simp
  have b11: "g_latestFramePercents game29 = Some [50, 80]" by code_simp
  have t29: "g_total_seconds game29 = 29" by code_simp
  from duration_kill_validation [OF a1 a2 a3 a4 a5 a6 a7 a8 a9 a10 a11] t30 k30
  have "\<exists>d. processSingleReplay ?C game30 = Summary d" by blast
  moreover from duration_kill_validation [OF b1 b2 b3 b4 a5 a6 b7 b8 a9 a10 b11] t29
  have "processSingleReplay ?C game29 = Excluded 29" by simp
  ultimately show ?thesis by blast
qed

text \<open>
  C3. In every full summary, and so for every qualifying match, the win flag is 1 exactly
  when self's kill count is greater than the opponent's, or the kill counts are equal and
  self's final percentage is strictly below the opponent's; otherwise it is 0.
\<close>

theorem win_classification:
  assumes "processSingleReplay C gd = Summary d"
  shows "(d_total_wins d = 1)
           = (killsOf (g_stats gd) (d_opponent_index d) < killsOf (g_stats gd) (d_player_index d)
              \<or> (killsOf (g_stats gd) (d_player_index d) = killsOf (g_stats gd) (d_opponent_index d)
                  \<and> (\<exists>ps a b. g_latestFramePercents gd = Some ps
                        \<and> nth_opt ps (d_player_index d) = Some a
                        \<and> nth_opt ps (d_opponent_index d) = Some b \<and> a < b)))
         \<and> (d_total_wins d = 0 \<or> d_total_wins d = 1)"
proof -
  from summary_shape [OF assms] obtain ps where ps: "g_latestFramePercents gd = Some ps"
    and w: "d_total_wins d =
               (if killsOf (g_stats gd) (d_opponent_index d) < killsOf (g_stats gd) (d_player_index d)
                   \<or> (killsOf (g_stats gd) (d_player_index d) = killsOf (g_stats gd) (d_opponent_index d)
                       \<and> js_less (nth_opt ps (d_player_index d)) (nth_opt ps (d_opponent_index d)))
                then 1 else 0)"
    by blast
  have "js_less (nth_opt ps (d_player_index d)) (nth_opt ps (d_opponent_index d))
          = (\<exists>a b. nth_opt ps (d_player_index d) = Some a
                \<and> nth_opt ps (d_opponent_index d) = Some b \<and> a < b)"
    by (auto simp: js_less_def split: option.splits)
  with ps w show ?thesis by (auto split: if_splits)
qed

theorem win_classification_witness:
  "processSingleReplay (criteria_of ex_opts) game30 =
     Summary
      \<lparr>d_total_games = 1, d_total_wins = 1, d_total_seconds = 30, d_game_seconds = 30,
       d_player_character_num = Some 2, d_player_character_name = ''Fox'',
       d_opponent_character_num = Some 9, d_opponent_character_name = ''Marth'',
       d_stage_num = Some 31, d_stage_name = ''Battlefield'',
       d_player_index = 0, d_player_name = ''me'', d_player_code = [],
       d_opponent_index = 1, d_opponent_name = ''you'', d_opponent_code = []\<rparr>
   \<and> killsOf (g_stats game30) 1 < killsOf (g_stats game30) 0"
proof -
  let ?d = "\<lparr>d_total_games = 1, d_total_wins = 1, d_total_seconds = 30, d_game_seconds = 30,
       d_player_character_num = Some 2, d_player_character_name = ''Fox'',
       d_opponent_character_num = Some 9, d_opponent_character_name = ''Marth'',
       d_stage_num = Some 31, d_stage_name = ''Battlefield'',
       d_player_index = 0, d_player_name = ''me'', d_player_code = [],
       d_opponent_index = 1, d_opponent_name = ''you'', d_opponent_code = []\<rparr>"
  have e: "processSingleReplay (criteria_of ex_opts) game30 = Summary ?d"
    by code_simp
  have k: "\<not> killsOf (g_stats game30) 0 = killsOf (g_stats game30) 1"
    by code_simp
  from win_classification [OF e] k have "killsOf (g_stats game30) 1 < killsOf (g_stats game30) 0"
    by simp
  with e show ?thesis by simp
qed

section \<open>Files that do not qualify\<close>

lemma fetch_cases:
  assumes "fetch E file st0 = (g, st1)"
  shows "st1 = st0 \<or> st1 = st0\<lparr>decode_calls := decode_calls st0 + 1\<rparr>
         \<or> (\<exists>h gd. st1 = st0\<lparr>decode_calls := decode_calls st0 + 1,
                              cache := AList.update h gd (cache st0),
                              new_replays := new_replays st0 + 1\<rparr>)"
  using assms unfolding fetch_def Let_def
  by (auto split: option.splits)

lemma handle_result_not_qualifying:
  assumes "\<not> qualifies C gd"
  shows "handle_result w C n i gd st = skip st"
  using assms unfolding handle_result_def qualifies_def
  by (auto split: replay_result.splits option.splits)

lemma loop_body_not_qualifying:
  assumes "fetch E file st0 = (Some gd, st1)" and "\<not> qualifies C gd"
  shows "loop_body E C n i file st0 = skip st1"
  using assms by (simp add: loop_body_def handle_result_not_qualifying)

text \<open>
  C1. Handling a file whose match does not qualify, for whichever check of
  \<^verbatim>\<open>processSingleReplay\<close> or of the loop's stage validation, leaves every aggregate as it
  was (games, wins, scanned seconds, counted seconds, the stage tables, the matchup table,
  the character playtime, every misc counter and both streak counters) and adds exactly one
  to the skipped counter.
\<close>

theorem excluded_contributes_nothing:
  assumes "fetch E file st0 = (Some gd, st1)" and "\<not> qualifies C gd"
  shows "total_games (loop_body E C n i file st0) = total_games st0
       \<and> total_wins (loop_body E C n i file st0) = total_wins st0
       \<and> total_seconds (loop_body E C n i file st0) = total_seconds st0
       \<and> counted_seconds (loop_body E C n i file st0) = counted_seconds st0
       \<and> stage_totals (loop_body E C n i file st0) = stage_totals st0
       \<and> stage_wins (loop_body E C n i file st0) = stage_wins st0
       \<and> stage_playtime (loop_body E C n i file st0) = stage_playtime st0
       \<and> matchups (loop_body E C n i file st0) = matchups st0
       \<and> characterPlaytime (loop_body E C n i file st0) = characterPlaytime st0
       \<and> lCancelSuccessTotal (loop_body E C n i file st0) = lCancelSuccessTotal st0
       \<and> lCancelFailTotal (loop_body E C n i file st0) = lCancelFailTotal st0
       \<and> wavedashTotal (loop_body E C n i file st0) = wavedashTotal st0
       \<and> rollTotal (loop_body E C n i file st0) = rollTotal st0
       \<and> ledgegrabTotal (loop_body E C n i file st0) = ledgegrabTotal st0
       \<and> dashDanceTotal (loop_body E C n i file st0) = dashDanceTotal st0
       \<and> techSuccessTotal (loop_body E C n i file st0) = techSuccessTotal st0
       \<and> techFailTotal (loop_body E C n i file st0) = techFailTotal st0
       \<and> totalStocksTaken (loop_body E C n i file st0) = totalStocksTaken st0
       \<and> totalStocksLost (loop_body E C n i file st0) = totalStocksLost st0
       \<and> throw_up (loop_body E C n i file st0) = throw_up st0
       \<and> throw_down (loop_body E C n i file st0) = throw_down st0
       \<and> throw_forward (loop_body E C n i file st0) = throw_forward st0
       \<and> throw_back (loop_body E C n i file st0) = throw_back st0
       \<and> currentStreak (loop_body E C n i file st0) = currentStreak st0
       \<and> bestWinStreak (loop_body E C n i file st0) = bestWinStreak st0
       \<and> skippedCount (loop_body E C n i file st0) = skippedCount st0 + 1"
proof -
  have b: "loop_body E C n i file st0 = skip st1"
    by (rule loop_body_not_qualifying [OF assms])
  from fetch_cases [OF assms(1)] show ?thesis
    unfolding b skip_def by (elim disjE exE) simp_all
qed

theorem excluded_contributes_nothing_witness:
  "skippedCount (loop_body ex_env (criteria_of ex_opts) 1 0 ''short.slp'' (init_acc [])) = 1
   \<and> total_games (loop_body ex_env (criteria_of ex_opts) 1 0 ''short.slp'' (init_acc [])) = 0
   \<and> total_seconds (loop_body ex_env (criteria_of ex_opts) 1 0 ''short.slp'' (init_acc [])) = 0
   \<and> stage_totals (loop_body ex_env (criteria_of ex_opts) 1 0 ''short.slp'' (init_acc [])) = []"
proof -
  let ?g = "build_gameData (Some ''#short.slp'') ''short.slp''
              (two_player_game ''me'' ''you'' 2 20 32 600 1 0 150 20)"
  have f: "fetch ex_env ''short.slp'' (init_acc []) =
      (Some ?g, (init_acc [])\<lparr>decode_calls := 1, cache := [(''#short.slp'', ?g)],
                              new_replays := 1\<rparr>)"
    by code_simp
  have q: "\<not> qualifies (criteria_of ex_opts) ?g"
    by code_simp
  from excluded_contributes_nothing [OF f q, of 1 0] show ?thesis
    by (simp add: init_acc_def)
qed

section \<open>What the loop keeps true\<close>

lemma lookup0_bump: "lookup0 (bump k d t) k' = (if k' = k then lookup0 t k + d else lookup0 t k')"
  by (simp add: lookup0_def bump_def update_conv')

lemma distinct_bump: "distinct (map fst t) \<Longrightarrow> distinct (map fst (bump k d t))"
  by (simp add: bump_def distinct_update)

lemma set_update_subset: "set (AList.update k v al) \<subseteq> insert (k, v) (set al)"
  by (induction al) auto

lemma positive_bump:
  assumes "list_all (\<lambda>(nm, g). 0 < g) t"
  shows "list_all (\<lambda>(nm, g). 0 < g) (bump k (Suc 0) t)"
  using assms set_update_subset [of k "(case map_of t k of None \<Rightarrow> 0 | Some v \<Rightarrow> v) + Suc 0" t]
  unfolding bump_def list_all_iff by auto

lemma acc_inv_init: "acc_inv (init_acc c)"
  by (simp add: acc_inv_def acc_wins_ok_def init_acc_def lookup0_def)

lemma acc_inv_skip: "acc_inv (skip st) = acc_inv st"
  by (simp add: acc_inv_def acc_wins_ok_def skip_def)

lemma acc_inv_progress: "acc_inv (send_progress w i n st) = acc_inv st"
  by (simp add: acc_inv_def acc_wins_ok_def send_progress_def)

lemma acc_inv_events: "acc_inv (st\<lparr>events := e\<rparr>) = acc_inv st"
  by (simp add: acc_inv_def acc_wins_ok_def)

lemma acc_inv_fetch:
  assumes "fetch E file st0 = (g, st1)"
  shows "acc_inv st1 = acc_inv st0"
  using fetch_cases [OF assms]
  by (elim disjE exE) (simp_all add: acc_inv_def acc_wins_ok_def)

lemma acc_inv_misc: "acc_inv (add_misc gd d st) = acc_inv st"
  by (simp add: acc_inv_def acc_wins_ok_def add_misc_def Let_def)

lemma acc_inv_stage:
  assumes "acc_inv st" and "d_total_games d = 1" and "d_total_wins d \<le> 1"
  shows "acc_inv ((add_stage nm d (accumulate d st))
                    \<lparr>matchups := Some (case matchups (add_stage nm d (accumulate d st)) of
                                        None \<Rightarrow> [] | Some m \<Rightarrow> m)\<rparr>)"
  using assms
  by (auto simp: acc_inv_def acc_wins_ok_def cells_ok_def add_stage_def accumulate_def lookup0_bump
      distinct_bump positive_bump split: option.splits intro: le_SucI)

lemma row_ok_iff:
  "list_all (\<lambda>(oc, c). wins c \<le> games c) row = (\<forall>oc c. (oc, c) \<in> set row \<longrightarrow> wins c \<le> games c)"
  unfolding list_all_iff by auto

lemma cells_ok_iff:
  "cells_ok m = (\<forall>pc row. (pc, row) \<in> set m \<longrightarrow> list_all (\<lambda>(oc, c). wins c \<le> games c) row)"
  unfolding cells_ok_def list_all_iff by fastforce

lemma cells_ok_update:
  assumes "cells_ok m" and "list_all (\<lambda>(oc, c). wins c \<le> games c) row"
  shows "cells_ok (AList.update pc row m)"
  using assms set_update_subset [of pc row m]
  unfolding cells_ok_iff by blast

lemma row_ok_update:
  assumes "list_all (\<lambda>(oc, c). wins c \<le> games c) row" and "wins c \<le> games c"
  shows "list_all (\<lambda>(oc, c). wins c \<le> games c) (AList.update oc c row)"
  using assms set_update_subset [of oc c row]
  unfolding row_ok_iff by blast

lemma acc_inv_matchup:
  assumes "acc_inv st" and "matchups st \<noteq> None"
  shows "acc_inv (add_matchup d st)"
proof -
  from assms(2) obtain m where m: "matchups st = Some m" by auto
  define row where "row = (case map_of m (d_player_character_name d) of None \<Rightarrow> [] | Some r \<Rightarrow> r)"
  define c where "c = (case map_of row (d_opponent_character_name d) of
                 None \<Rightarrow> \<lparr>games = 0, wins = 0, totalSeconds = 0\<rparr> | Some c0 \<Rightarrow> c0)"
  define c' where "c' = \<lparr>games = games c + 1,
                wins = (if d_total_wins d \<noteq> 0 then wins c + 1 else wins c),
                totalSeconds = totalSeconds c + d_game_seconds d\<rparr>"
  have mok: "cells_ok m"
    using assms(1) m by (simp add: acc_inv_def acc_wins_ok_def)
  have rowok: "list_all (\<lambda>(oc, c). wins c \<le> games c) row"
  proof (cases "map_of m (d_player_character_name d)")
    case None
    then show ?thesis by (simp add: row_def)
  next
    case (Some r)
    then have "(d_player_character_name d, r) \<in> set m" by (rule map_of_SomeD)
    with mok Some show ?thesis by (simp add: row_def cells_ok_iff)
  qed
  have cok: "wins c \<le> games c"
  proof (cases "map_of row (d_opponent_character_name d)")
    case None
    then show ?thesis by (simp add: c_def)
  next
    case (Some c0)
    then have "(d_opponent_character_name d, c0) \<in> set row" by (rule map_of_SomeD)
    with rowok Some show ?thesis by (simp add: c_def row_ok_iff)
  qed
  have c'ok: "wins c' \<le> games c'"
    unfolding c'_def using cok by simp
  have new: "cells_ok (AList.update (d_player_character_name d)
                         (AList.update (d_opponent_character_name d) c' row) m)"
    by (intro cells_ok_update row_ok_update mok rowok c'ok)
  have eq: "add_matchup d st =
      st\<lparr>characterPlaytime := bump (d_player_character_name d) (d_game_seconds d)
                                (characterPlaytime st),
         matchups := Some (AList.update (d_player_character_name d)
                         (AList.update (d_opponent_character_name d) c' row) m)\<rparr>"
    unfolding add_matchup_def Let_def m c'_def c_def row_def by simp
  show ?thesis
    unfolding eq using assms(1) new
    by (simp add: acc_inv_def acc_wins_ok_def)
qed

lemma acc_inv_aggregate:
  assumes "acc_inv st" and "d_total_games d = 1" and "d_total_wins d \<le> 1"
  shows "acc_inv (aggregate w n i gd d nm st)"
proof -
  let ?st3 = "(add_stage nm d (accumulate d st))
                    \<lparr>matchups := Some (case matchups (add_stage nm d (accumulate d st)) of
                                        None \<Rightarrow> [] | Some m \<Rightarrow> m)\<rparr>"
  have i3: "acc_inv ?st3" by (rule acc_inv_stage [OF assms])
  have m3: "matchups ?st3 \<noteq> None" by simp
  have i4: "acc_inv (add_matchup d ?st3)" by (rule acc_inv_matchup [OF i3 m3])
  show ?thesis
    unfolding aggregate_def Let_def
    using i3 i4 by (simp add: acc_inv_misc acc_inv_progress acc_inv_events)
qed

lemma acc_inv_loop_body:
  assumes "acc_inv st0"
  shows "acc_inv (loop_body E C n i file st0)"
proof -
  obtain g st1 where f: "fetch E file st0 = (g, st1)" by (cases "fetch E file st0")
  have i1: "acc_inv st1" using acc_inv_fetch [OF f] assms by simp
  show ?thesis
  proof (cases g)
    case None
    with f i1 show ?thesis by (simp add: loop_body_def acc_inv_progress)
  next
    case (Some gd)
    show ?thesis
    proof (cases "processSingleReplay C gd")
      case Null
      with f Some i1 show ?thesis by (simp add: loop_body_def handle_result_def acc_inv_skip)
    next
      case (Excluded ts)
      with f Some i1 show ?thesis by (simp add: loop_body_def handle_result_def acc_inv_skip)
    next
      case (Summary d)
      from summary_shape [OF Summary] have d: "d_total_games d = 1" "d_total_wins d \<le> 1"
        by auto
      show ?thesis
        using f Some Summary i1 acc_inv_aggregate [OF i1 d]
        by (auto simp: loop_body_def handle_result_def acc_inv_skip split: option.splits)
    qed
  qed
qed

lemma acc_inv_loop:
  assumes "acc_inv st"
  shows "acc_inv (replay_loop E C cancels n i files flag st)"
  using assms
proof (induction files arbitrary: i flag st)
  case Nil
  then show ?case by simp
next
  case (Cons f rest)
  then show ?case
    by (auto simp: acc_inv_events acc_inv_loop_body)
qed

section \<open>Doubles and their two decimals\<close>

text \<open>
  \<open>binade\<close> finds the one exponent whose power of two lies at or below the number with
  the next power above it, so a double is computed by naming that exponent and the
  significand; rounding moves a number by at most one part in \<open>2 ^ 53\<close>.
\<close>

lemma binade_lower:
  assumes "0 < a"
  shows "(2::rat) powi (binade a) \<le> a"
proof -
  obtain p q where pq: "quotient_of a = (p, q)" by (cases "quotient_of a")
  have q: "0 < q" using pq by (rule quotient_of_denom_pos)
  have a: "a = of_int p / of_int q" using pq by (rule quotient_of_div)
  have p: "0 < p" using assms q unfolding a by (simp add: zero_less_divide_iff)
  define bp where "bp = floorlog 2 (nat p)"
  define bq where "bq = floorlog 2 (nat q)"
  have bp: "2 ^ (bp - 1) \<le> nat p" using floorlog_bounds [of "nat p" 2] p by (simp add: bp_def)
  have bq: "nat q < 2 ^ bq" using floorlog_bounds [of "nat q" 2] q by (simp add: bq_def)
  have bp0: "0 < bp" using p by (simp add: bp_def floorlog_def)
  have P: "(2::rat) ^ (bp - 1) \<le> of_int p"
  proof -
    have "(of_nat (2 ^ (bp - 1)) :: rat) \<le> of_nat (nat p)" using bp by (simp only: of_nat_le_iff)
    then show ?thesis using p by simp
  qed
  have Q: "of_int q \<le> (2::rat) ^ bq"
  proof -
    have "(of_nat (nat q) :: rat) \<le> of_nat (2 ^ bq)" using bq by (simp only: of_nat_le_iff less_imp_le)
    then show ?thesis using q by simp
  qed
  have low: "(2::rat) powi (int bp - int bq - 1) \<le> a"
  proof -
    have e: "int bp - int bq - 1 = int (bp - 1) - int bq" using bp0 by simp
    have "(2::rat) powi (int bp - int bq - 1) = 2 ^ (bp - 1) / 2 ^ bq"
      unfolding e by (simp add: power_int_diff)
    also have "\<dots> \<le> of_int p / 2 ^ bq" using P by (simp add: divide_right_mono)
    also have "\<dots> \<le> of_int p / of_int q"
      by (rule divide_left_mono [OF Q]) (use p q in simp_all)
    finally show ?thesis unfolding a .
  qed
  show ?thesis
    using low by (simp add: binade_def pq Let_def bp_def bq_def)
qed

lemma binade_upper:
  assumes "0 < a"
  shows "a < (2::rat) powi (binade a + 1)"
proof -
  obtain p q where pq: "quotient_of a = (p, q)" by (cases "quotient_of a")
  have q: "0 < q" using pq by (rule quotient_of_denom_pos)
  have a: "a = of_int p / of_int q" using pq by (rule quotient_of_div)
  have p: "0 < p" using assms q unfolding a by (simp add: zero_less_divide_iff)
  define bp where "bp = floorlog 2 (nat p)"
  define bq where "bq = floorlog 2 (nat q)"
  have bp: "nat p < 2 ^ bp" using floorlog_bounds [of "nat p" 2] p by (simp add: bp_def)
  have bq: "2 ^ (bq - 1) \<le> nat q" using floorlog_bounds [of "nat q" 2] q by (simp add: bq_def)
  have bq0: "0 < bq" using q by (simp add: bq_def floorlog_def)
  have P: "of_int p < (2::rat) ^ bp"
  proof -
    have "(of_nat (nat p) :: rat) < of_nat (2 ^ bp)" using bp by (simp only: of_nat_less_iff)
    then show ?thesis using p by simp
  qed
  have Q: "(2::rat) ^ (bq - 1) \<le> of_int q"
  proof -
    have "(of_nat (2 ^ (bq - 1)) :: rat) \<le> of_nat (nat q)" using bq by (simp only: of_nat_le_iff)
    then show ?thesis using q by simp
  qed
  have up: "a < (2::rat) powi (int bp - int bq + 1)"
  proof -
    have e: "int bp - int bq + 1 = int bp - int (bq - 1)" using bq0 by simp
    have "a = of_int p / of_int q" by (rule a)
    also have "\<dots> \<le> of_int p / 2 ^ (bq - 1)"
      by (rule divide_left_mono [OF Q]) (use p q in simp_all)
    also have "\<dots> < 2 ^ bp / 2 ^ (bq - 1)" using P by (simp add: divide_strict_right_mono)
    also have "\<dots> = (2::rat) powi (int bp - int bq + 1)"
      unfolding e by (simp add: power_int_diff)
    finally show ?thesis .
  qed
  show ?thesis
  proof (cases "(2::rat) powi (int bp - int bq) \<le> a")
    case True
    then show ?thesis using up by (simp add: binade_def pq Let_def bp_def bq_def)
  next
    case False
    then show ?thesis by (simp add: binade_def pq Let_def bp_def bq_def)
  qed
qed

lemma binade_eq:
  assumes "(2::rat) powi e \<le> a" and "a < 2 powi (e + 1)"
  shows "binade a = e"
proof -
  have a: "0 < a" using assms(1) by (rule less_le_trans [rotated]) simp
  have 1: "binade a < e + 1"
  proof (rule ccontr)
    assume "\<not> binade a < e + 1"
    then have "(2::rat) powi (e + 1) \<le> 2 powi (binade a)"
      by (intro power_int_increasing) simp_all
    with binade_lower [OF a] assms(2) show False by simp
  qed
  have 2: "e < binade a + 1"
  proof (rule ccontr)
    assume "\<not> e < binade a + 1"
    then have "(2::rat) powi (binade a + 1) \<le> 2 powi e"
      by (intro power_int_increasing) simp_all
    with binade_upper [OF a] assms(1) show False by simp
  qed
  from 1 2 show ?thesis by simp
qed


lemma round_half_even_near:
  assumes "\<bar>x - of_int m\<bar> < 1 / 2"
  shows "round_half_even x = m"
proof (cases "of_int m \<le> x")
  case True
  then have f: "\<lfloor>x\<rfloor> = m" using assms by (simp add: floor_eq_iff abs_if split: if_splits)
  show ?thesis using assms True by (simp add: round_half_even_def f Let_def abs_if split: if_splits)
next
  case False
  then have f: "\<lfloor>x\<rfloor> = m - 1" using assms by (simp add: floor_eq_iff abs_if split: if_splits)
  show ?thesis using assms False by (simp add: round_half_even_def f Let_def abs_if split: if_splits)
qed

lemma double_of_pos:
  assumes "(2::rat) powi e \<le> x" and "x < 2 powi (e + 1)"
    and "\<bar>x / 2 powi (e - 52) - of_int m\<bar> < 1 / 2"
  shows "double_of x = of_int m * 2 powi (e - 52)"
proof -
  have x: "0 < x" using assms(1) by (rule less_le_trans [rotated]) simp
  have b: "binade x = e" using assms(1,2) by (rule binade_eq)
  show ?thesis using x round_half_even_near [OF assms(3)] by (simp add: double_of_def b Let_def)
qed

lemma round_half_even_tie:
  assumes "x = of_int m + 1 / 2" and "even m"
  shows "round_half_even x = m"
proof -
  have h: "\<lfloor>(1 / 2 :: rat)\<rfloor> = 0" by (simp add: floor_eq_iff)
  show ?thesis using assms by (simp add: round_half_even_def h Let_def)
qed

lemma double_of_tie:
  assumes "(2::rat) powi e \<le> x" and "x < 2 powi (e + 1)"
    and "x / 2 powi (e - 52) = of_int m + 1 / 2" and "even m"
  shows "double_of x = of_int m * 2 powi (e - 52)"
proof -
  have x: "0 < x" using assms(1) by (rule less_le_trans [rotated]) simp
  have b: "binade x = e" using assms(1,2) by (rule binade_eq)
  show ?thesis
    using x round_half_even_tie [OF assms(3,4)] by (simp add: double_of_def b Let_def)
qed

lemma double_of_nonneg: "0 \<le> x \<Longrightarrow> 0 \<le> double_of x"
  by (simp add: double_of_def Let_def round_half_even_def zero_le_mult_iff zero_le_divide_iff)



text \<open>What \<open>toFixed2\<close> writes reads back as the nearest hundredth.\<close>

lemma digit_val_digit_char: "d < 10 \<Longrightarrow> digit_val (digit_char d) = Some d"
  by (simp add: digit_val_def digit_char_def Let_def)

lemma read_digits_append:
  "read_digits a (xs @ ys) = (case read_digits a xs of None \<Rightarrow> None | Some b \<Rightarrow> read_digits b ys)"
  by (induction xs arbitrary: a) (simp_all split: option.splits)

lemma read_digits_show_nat: "read_digits 0 (show_nat n) = Some n"
proof (induction n rule: show_nat.induct)
  case (1 n)
  show ?case
  proof (cases "n < 10")
    case True
    then show ?thesis by (subst show_nat.simps) (simp del: show_nat.simps add: digit_val_digit_char)
  next
    case False
    with 1 have "read_digits 0 (show_nat (n div 10)) = Some (n div 10)" by simp
    with False show ?thesis
      by (subst show_nat.simps)
        (simp del: show_nat.simps add: read_digits_append digit_val_digit_char)
  qed
qed

lemma show_nat_not_Nil: "show_nat n \<noteq> []"
  by (subst show_nat.simps) (simp del: show_nat.simps)

lemma read_fixed2_shape:
  assumes "b < 10" and "c < 10"
  shows "read_fixed2 (show_nat a @ ''.'' @ [digit_char b, digit_char c])
           = Some (of_nat a + of_nat b / 10 + of_nat c / 100)"
proof -
  define ip where "ip = show_nat a"
  define fr where "fr = [CHR ''.'', digit_char b, digit_char c]"
  have s: "show_nat a @ ''.'' @ [digit_char b, digit_char c] = ip @ fr"
    by (simp del: show_nat.simps add: ip_def fr_def)
  have l: "length (ip @ fr) - 3 = length ip" by (simp add: fr_def)
  have t: "take (length ip) (ip @ fr) = ip" and d: "drop (length ip) (ip @ fr) = fr" by simp_all
  have ip: "ip \<noteq> []" and r: "read_digits 0 ip = Some a"
    unfolding ip_def by (rule show_nat_not_Nil, rule read_digits_show_nat)
  have fr: "length fr = 3" "fr ! 0 = CHR ''.''" "digit_val (fr ! Suc 0) = Some b"
    "digit_val (fr ! 2) = Some c"
    using assms by (simp_all add: fr_def digit_val_digit_char)
  show ?thesis
    unfolding s read_fixed2_def Let_def l t d using ip by (simp add: r fr)
qed

lemma hundredths:
  "(of_nat (h div 100) + of_nat (h mod 100 div 10) / 10 + of_nat (h mod 10) / 100 :: rat)
     = of_nat h / 100"
proof -
  define A where "A = h div 100"
  define B where "B = h mod 100 div 10"
  define C where "C = h mod 10"
  have c: "h mod 100 mod 10 = C" unfolding C_def by (rule mod_mod_cancel) simp
  have "100 * A + (10 * B + C) = 100 * (h div 100) + (10 * (h mod 100 div 10) + h mod 100 mod 10)"
    unfolding A_def B_def c ..
  also have "\<dots> = 100 * (h div 100) + h mod 100" by (simp only: mult_div_mod_eq)
  also have "\<dots> = h" by (simp only: mult_div_mod_eq)
  finally have "(of_nat h :: rat) = of_nat (100 * A + (10 * B + C))" by (simp only:)
  then have "(of_nat h :: rat) = 100 * of_nat A + 10 * of_nat B + of_nat C" by simp
  then show ?thesis unfolding A_def [symmetric] B_def [symmetric] C_def [symmetric] by simp
qed

lemma toFixed2_reads_back:
  assumes "0 \<le> v"
  shows "\<exists>r. read_fixed2 (toFixed2 v) = Some r \<and> \<bar>v - r\<bar> \<le> 1 / 200"
proof -
  define h where "h = nat \<lfloor>v * 100 + 1 / 2\<rfloor>"
  have f0: "0 \<le> \<lfloor>v * 100 + 1 / 2\<rfloor>" using assms by simp
  have hf: "(of_nat h :: rat) = of_int \<lfloor>v * 100 + 1 / 2\<rfloor>"
    unfolding h_def using f0 by simp
  have lo: "of_nat h \<le> v * 100 + 1 / 2" unfolding hf by (rule of_int_floor_le)
  have hi: "v * 100 + 1 / 2 < of_nat h + 1" unfolding hf by linarith
  have t: "toFixed2 v = show_nat (h div 100) @ ''.'' @ [digit_char (h mod 100 div 10), digit_char (h mod 10)]"
    using assms by (simp del: show_nat.simps add: toFixed2_def Let_def h_def)
  have r: "read_fixed2 (toFixed2 v) = Some (of_nat h / 100)"
    unfolding t by (subst read_fixed2_shape) (simp_all add: hundredths)
  have "\<bar>v - of_nat h / 100\<bar> \<le> 1 / 200" using lo hi by linarith
  with r show ?thesis by blast
qed

lemma round_half_even_err: "\<bar>of_int (round_half_even x) - x\<bar> \<le> 1 / 2"
proof -
  have "of_int \<lfloor>x\<rfloor> \<le> x" and "x < of_int \<lfloor>x\<rfloor> + 1" by linarith+
  then show ?thesis by (simp add: round_half_even_def Let_def abs_le_iff)
qed

lemma double_of_error:
  assumes "0 \<le> x"
  shows "\<bar>double_of x - x\<bar> \<le> x / 2 ^ 53"
proof (cases "x = 0")
  case True
  then show ?thesis by (simp add: double_of_def)
next
  case False
  with assms have x: "0 < x" by simp
  define u :: rat where "u = 2 powi (binade x - 52)"
  define m where "m = round_half_even (x / u)"
  have u: "0 < u" unfolding u_def by simp
  have d: "double_of x = of_int m * u" using x by (simp add: double_of_def Let_def u_def m_def)
  have "\<bar>of_int m - x / u\<bar> \<le> 1 / 2" unfolding m_def by (rule round_half_even_err)
  then have "\<bar>of_int m - x / u\<bar> * u \<le> 1 / 2 * u" using u by (simp only: mult_le_cancel_right_pos)
  moreover have "(of_int m - x / u) * u = of_int m * u - x"
    using u by (simp add: left_diff_distrib)
  then have "\<bar>of_int m - x / u\<bar> * u = \<bar>of_int m * u - x\<bar>"
    using u abs_mult [of "of_int m - x / u" u] by simp
  ultimately have e: "\<bar>of_int m * u - x\<bar> \<le> u / 2" by simp
  have "u * 2 ^ 52 = 2 powi (binade x)"
    unfolding u_def by (simp add: power_int_diff)
  also have "\<dots> \<le> x" using x by (rule binade_lower)
  finally have "u / 2 \<le> x / 2 ^ 53" by simp
  with e show ?thesis unfolding d by simp
qed

lemma percent_nonneg: "0 \<le> percent w g"
  unfolding percent_def by (intro double_of_nonneg mult_nonneg_nonneg divide_nonneg_nonneg) simp_all

lemma percent_error:
  "\<bar>percent w g - of_nat w / of_nat g * 100\<bar> \<le> of_nat w / of_nat g * 100 / 2 ^ 51"
proof -
  define x :: rat where "x = of_nat w / of_nat g"
  define d where "d = double_of x"
  define k :: rat where "k = x / 2 ^ 53"
  define v where "v = double_of (d * 100)"
  have x: "0 \<le> x" unfolding x_def by simp
  have k: "0 \<le> k" "k \<le> x" "x = 2 ^ 53 * k" unfolding k_def using x by (simp_all add: field_simps)
  have d0: "0 \<le> d" unfolding d_def using x by (rule double_of_nonneg)
  have e1: "\<bar>d - x\<bar> \<le> k" unfolding d_def k_def using x by (rule double_of_error)
  have "\<bar>v - d * 100\<bar> \<le> d * 100 / 2 ^ 53"
    unfolding v_def using d0 by (intro double_of_error) simp
  also have "\<dots> \<le> (x + k) * 100 / 2 ^ 53"
  proof -
    have "d \<le> x + k" using e1 by linarith
    then show ?thesis by (intro divide_right_mono mult_right_mono) simp_all
  qed
  also have "\<dots> \<le> (2 * x) * 100 / 2 ^ 53"
  proof -
    have "x + k \<le> 2 * x" using k by linarith
    then show ?thesis by (intro divide_right_mono mult_right_mono) simp_all
  qed
  also have "\<dots> = 200 * k" unfolding k_def by simp
  finally have e2: "\<bar>v - d * 100\<bar> \<le> 200 * k" .
  have "\<bar>v - x * 100\<bar> \<le> 300 * k" using e1 e2 by linarith
  also have "\<dots> \<le> 400 * k" using k by simp
  also have "\<dots> = x * 100 / 2 ^ 51" unfolding k_def by simp
  finally show ?thesis unfolding percent_def v_def d_def x_def .
qed

section \<open>Facts about the report\<close>

lemma acc_inv_final: "acc_inv (final_state E disk files cancels opts)"
  unfolding final_state_def by (rule acc_inv_loop [OF acc_inv_init])

lemma update_fresh: "k \<notin> fst ` set al \<Longrightarrow> AList.update k v al = al @ [(k, v)]"
  by (induction al) auto

lemma foldl_update_fresh:
  assumes "distinct (map fst xs)" and "fst ` set obj \<inter> fst ` set xs = {}"
  shows "foldl (\<lambda>obj (k, r). AList.update k r obj) obj xs = obj @ xs"
  using assms
proof (induction xs arbitrary: obj)
  case Nil
  then show ?case by simp
next
  case (Cons x xs)
  obtain k r where x: "x = (k, r)" by (cases x)
  from Cons.prems x have fresh: "k \<notin> fst ` set obj" by auto
  have step: "AList.update k r obj = obj @ [(k, r)]" by (rule update_fresh [OF fresh])
  from Cons.prems x have d: "distinct (map fst xs)"
    and disj: "fst ` set (obj @ [(k, r)]) \<inter> fst ` set xs = {}"
    by auto
  from Cons.IH [OF d disj] show ?case by (simp add: x step)
qed

lemma distinct_map_insort_key:
  "distinct (map g (insort_key f x xs)) = (g x \<notin> g ` set xs \<and> distinct (map g xs))"
  by (induction xs) (auto simp: set_insort_key)

lemma distinct_map_sort_key: "distinct (map g (sort_key f xs)) = distinct (map g xs)"
  by (induction xs) (simp_all add: distinct_map_insort_key)

lemma descending_sort: "descending_by g (sort_by_games_desc g rows)"
proof -
  have "sorted (map (\<lambda>r. - int (g r)) (sort_key (\<lambda>r. - int (g r)) rows))"
    by (rule sorted_sort_key)
  then show ?thesis
    unfolding descending_by_def sort_by_games_desc_def sorted_map by simp
qed

lemma map_fst_stageResults: "map fst (stageResults st) = map fst (stage_totals st)"
  unfolding stageResults_def by (induction "stage_totals st") (auto simp: case_prod_unfold)

lemma sortedStageResults_eq:
  assumes "distinct (map fst (stage_totals st))"
  shows "sortedStageResults st = sort_by_games_desc (\<lambda>kr. sr_games (snd kr)) (stageResults st)"
proof -
  have "distinct (map fst (sort_by_games_desc (\<lambda>kr. sr_games (snd kr)) (stageResults st)))"
    unfolding sort_by_games_desc_def distinct_map_sort_key map_fst_stageResults by (rule assms)
  from foldl_update_fresh [OF this, of "[]"] show ?thesis
    unfolding sortedStageResults_def by simp
qed

lemma set_sortedStageResults:
  assumes "distinct (map fst (stage_totals st))"
  shows "set (sortedStageResults st) = set (stageResults st)"
  unfolding sortedStageResults_eq [OF assms] sort_by_games_desc_def by simp

lemma stage_row_facts:
  assumes "acc_inv st" and "(nm, row) \<in> set (stageResults st)"
  shows "0 < sr_games row \<and> sr_wins row \<le> sr_games row
         \<and> sr_winrate row = toFixed2 (percent (sr_wins row) (sr_games row))"
proof -
  from assms(2) obtain g where g: "(nm, g) \<in> set (stage_totals st)"
    and row: "row = \<lparr>sr_games = g, sr_wins = lookup0 (stage_wins st) nm,
              sr_winrate = rate (lookup0 (stage_wins st) nm) g,
              sr_playtime = secondsToHMS (of_int (lookup0 (stage_playtime st) nm))\<rparr>"
    unfolding stageResults_def by auto
  from assms(1) have d: "distinct (map fst (stage_totals st))"
    and pos: "list_all (\<lambda>(nm, g). 0 < g) (stage_totals st)"
    and le: "lookup0 (stage_wins st) nm \<le> lookup0 (stage_totals st) nm"
    by (simp_all add: acc_inv_def acc_wins_ok_def)
  from d g have "map_of (stage_totals st) nm = Some g" by simp
  then have l: "lookup0 (stage_totals st) nm = g" by (simp add: lookup0_def)
  from pos g have "0 < g" by (auto simp: list_all_iff)
  with l le row show ?thesis by (simp add: rate_def)
qed

lemma matchup_results_empty: "matchup_results = []"
proof -
  have "\<And>row. row \<in> set character_head_to_head \<Longrightarrow> filter (\<lambda>(w, g, oppCharName). 0 < g) row = []"
    unfolding character_head_to_head_def by (auto simp: filter_empty_conv)
  then have c: "concat (map (\<lambda>(pChar, row).
                       map (\<lambda>(w, g, oppCharName).
                              \<lparr>mr_yourCharacter = characters ! pChar,
                               mr_opponentCharacter = oppCharName,
                               mr_games = g, mr_wins = w,
                               mr_winrate = toFixed2 (percent w g)\<rparr>)
                           (filter (\<lambda>(w, g, oppCharName). 0 < g) row))
                    (enumerate 0 character_head_to_head)) = []"
    by (auto simp: concat_eq_Nil_conv in_set_enumerate_eq)
  show ?thesis unfolding matchup_results_def c sort_by_games_desc_def by simp
qed

lemma opponent_results_empty: "opponent_results = []"
  by (simp add: opponent_results_def breakdown_rows_def opponent_totals_def sort_by_games_desc_def)

lemma build_report_none:
  assumes "total_games st = 0"
  shows "build_report opts n st =
        NoGamesFound
          \<lparr>rn_message = ''No games found matching requested parameters.'',
           rn_filters = echo_filters opts,
           rn_summary =
             \<lparr>sn_totalGames = 0, sn_totalWins = 0, sn_winRate = Num 0,
              sn_analyzedTime = ''00:00:00'',
              sn_totalTimeAllReplays = secondsToHMS (total_seconds st),
              sn_new_replays = new_replays st\<rparr>,
           rn_stages = [], rn_nicknames = [], rn_codes = [], rn_opponents = [],
           rn_matchups = []\<rparr>"
  unfolding build_report_def using assms by (rule if_P)

lemma build_report_found:
  assumes "total_games st \<noteq> 0" and "matchups st = Some m"
  shows "build_report opts n st =
        GamesFound
          \<lparr>rf_filters = echo_filters opts,
           rf_identity = \<lparr>playerName = [], playerCode = [], opponentName = [], opponentCode = []\<rparr>,
           rf_summary =
             \<lparr>totalGames = total_games st, totalWins = total_wins st,
              winRate = Str (rate (total_wins st) (total_games st)),
              analyzedTime = secondsToHMS (of_int (counted_seconds st)),
              totalTimeAllReplays = secondsToHMS (total_seconds st),
              newReplaysCached = new_replays st,
              totalReplaysScanned = n,
              skippedReplays = skippedCount st\<rparr>,
           rf_stages = sortedStageResults st,
           rf_nicknames = [], rf_codes = [],
           rf_opponents = opponent_results,
           rf_characterPlaytime = map (\<lambda>(c, secs). (c, secondsToHMS (of_int secs))) (characterPlaytime st),
           rf_matchups = Nested m,
           rf_misc = miscStats st\<rparr>"
  unfolding build_report_def using assms by simp

lemma report_wins_ok_build:
  assumes "acc_inv st"
  shows "report_wins_ok (build_report opts n st)"
proof (cases "total_games st = 0")
  case True
  show ?thesis
    unfolding build_report_none [OF True]
    by (simp add: report_wins_ok_def report_totalWins_def report_totalGames_def
        report_stages_def report_matchups_def)
next
  case False
  from assms have d: "distinct (map fst (stage_totals st))"
    and w: "total_wins st \<le> total_games st"
    and m: "case matchups st of None \<Rightarrow> True | Some m \<Rightarrow> cells_ok m"
    and ex: "matchups st \<noteq> None"
    using False by (simp_all add: acc_inv_def acc_wins_ok_def)
  have stages: "list_all (\<lambda>(nm, row). sr_wins row \<le> sr_games row) (sortedStageResults st)"
    unfolding list_all_iff set_sortedStageResults [OF d]
    using stage_row_facts [OF assms] by auto
  from ex obtain t where t: "matchups st = Some t" by auto
  with m have "cells_ok t" by simp
  with w stages show ?thesis
    unfolding build_report_found [OF False t]
    by (simp add: report_wins_ok_def report_totalWins_def report_totalGames_def
        report_stages_def report_matchups_def)
qed

text \<open>
  C10. Wins never exceed games, at the three levels (totals, each stage, each matchup
  cell): in the accumulators after any number of files of a run, in the state in which the
  loop ends, and in the report.
\<close>

theorem wins_never_exceed_games:
  "acc_wins_ok (replay_loop E C cancels n 0 (take k files) False (init_acc c))
   \<and> acc_wins_ok (final_state E disk files cancels opts)
   \<and> report_wins_ok (fst (analyzeReplays E disk files cancels opts))"
proof -
  have "acc_inv (replay_loop E C cancels n 0 (take k files) False (init_acc c))"
    by (rule acc_inv_loop [OF acc_inv_init])
  moreover have "acc_inv (final_state E disk files cancels opts)"
    by (rule acc_inv_final)
  ultimately show ?thesis
    by (simp add: analyzeReplays_def Let_def report_wins_ok_build acc_inv_def)
qed

text \<open>
  C6 (as amended). In every report with at least one game the stage breakdown and the
  opponent breakdown are in descending order of games, and the matchups are the nested
  table exactly as the loop built it, a character being appended when it is first met,
  never the sorted rows of the head-to-head matrix.
\<close>

theorem breakdown_order:
  assumes "0 < report_totalGames (fst (analyzeReplays E disk files cancels opts))"
  shows "descending_by (\<lambda>kr. sr_games (snd kr))
           (report_stages (fst (analyzeReplays E disk files cancels opts)))
         \<and> descending_by br_games (report_opponents (fst (analyzeReplays E disk files cancels opts)))
         \<and> (\<exists>m. matchups (final_state E disk files cancels opts) = Some m
                \<and> report_matchups (fst (analyzeReplays E disk files cancels opts)) = Nested m)"
proof -
  let ?st = "final_state E disk files cancels opts"
  have inv: "acc_inv ?st" by (rule acc_inv_final)
  have r: "fst (analyzeReplays E disk files cancels opts) = build_report opts (length files) ?st"
    by (simp add: analyzeReplays_def Let_def)
  have pos: "total_games ?st \<noteq> 0"
  proof
    assume z: "total_games ?st = 0"
    from assms show False
      unfolding r build_report_none [OF z] by (simp add: report_totalGames_def)
  qed
  from inv have d: "distinct (map fst (stage_totals ?st))"
    by (simp add: acc_inv_def)
  from inv pos obtain m where m: "matchups ?st = Some m"
    by (auto simp: acc_inv_def)
  have s: "report_stages (build_report opts (length files) ?st) = sortedStageResults ?st"
    and o: "report_opponents (build_report opts (length files) ?st) = opponent_results"
    and mm: "report_matchups (build_report opts (length files) ?st) = Nested m"
    unfolding build_report_found [OF pos m]
    by (simp_all add: report_stages_def report_opponents_def report_matchups_def)
  have "descending_by (\<lambda>kr. sr_games (snd kr)) (report_stages (build_report opts (length files) ?st))"
    unfolding s sortedStageResults_eq [OF d] by (rule descending_sort)
  moreover have "descending_by br_games (report_opponents (build_report opts (length files) ?st))"
    unfolding o opponent_results_def by (rule descending_sort)
  ultimately show ?thesis unfolding r using m mm by simp
qed

lemma digit_chars:
  "digit_char 0 = CHR ''0'' \<and> digit_char 1 = CHR ''1'' \<and> digit_char (Suc 0) = CHR ''1''
   \<and> digit_char 3 = CHR ''3''
   \<and> digit_char 4 = CHR ''4'' \<and> digit_char 5 = CHR ''5'' \<and> digit_char 6 = CHR ''6''
   \<and> digit_char 7 = CHR ''7'' \<and> digit_char 8 = CHR ''8''"
  by code_simp

text \<open>
  Three games of 1801, 2051 and 2088 frames: their seconds add up, in doubles, to a little
  less than 99, and the total time shows 38 seconds.
\<close>

lemma sec_a: "double_of (1801 / 60) = 2112235137732881 / 70368744177664"
  using double_of_pos [of 4 "1801 / 60" 8448940550931524] by simp

lemma sec_b: "double_of (2051 / 60) = 4810876476946295 / 140737488355328"
  using double_of_pos [of 5 "2051 / 60" 4810876476946295] by simp

lemma sec_c: "double_of (2088 / 60) = 2448832297382707 / 70368744177664"
  using double_of_pos [of 5 "2088 / 60" 4897664594765414] by simp

lemma sec_1: "double_of (0 + 2112235137732881 / 70368744177664) = 2112235137732881 / 70368744177664"
  using double_of_pos [of 4 "0 + 2112235137732881 / 70368744177664" 8448940550931524] by simp

lemma sec_2:
  "double_of (2112235137732881 / 70368744177664 + 4810876476946295 / 140737488355328)
     = 1129418344051507 / 17592186044416"
  using double_of_tie [of 6 "2112235137732881 / 70368744177664 + 4810876476946295 / 140737488355328"
      4517673376206028]
  by simp

lemma sec_3:
  "double_of (1129418344051507 / 17592186044416 + 2448832297382707 / 70368744177664)
     = 6966505673588735 / 70368744177664"
  using double_of_pos [of 6 "1129418344051507 / 17592186044416 + 2448832297382707 / 70368744177664"
      6966505673588735]
  by simp

lemma sec_hours:
  "double_of (6966505673588735 / 70368744177664 / 3600) = 990791918021509 / 36028797018963968"
  using double_of_pos [of "- 6" "6966505673588735 / 70368744177664 / 3600" 7926335344172072]
  by simp

lemma sec_mod_3600:
  "js_mod (6966505673588735 / 70368744177664) 3600 = 6966505673588735 / 70368744177664"
proof -
  have "\<lfloor>(6966505673588735 / 70368744177664 :: rat) / 3600\<rfloor> = 0" by (simp add: floor_eq_iff)
  then show ?thesis by (simp add: js_mod_def)
qed

lemma sec_minutes:
  "double_of (6966505673588735 / 70368744177664 / 60) = 7430939385161317 / 4503599627370496"
  using double_of_pos [of 0 "6966505673588735 / 70368744177664 / 60" 7430939385161317]
  by simp

lemma sec_mod_60:
  "js_mod (6966505673588735 / 70368744177664) 60 = 2744381022928895 / 70368744177664"
proof -
  have "\<lfloor>(6966505673588735 / 70368744177664 :: rat) / 60\<rfloor> = 1" by (simp add: floor_eq_iff)
  then show ?thesis by (simp add: js_mod_def)
qed

lemma sec_parts:
  "format_part (990791918021509 / 36028797018963968) = ''00''
   \<and> format_part (7430939385161317 / 4503599627370496) = ''01''
   \<and> format_part (2744381022928895 / 70368744177664) = ''38''"
proof -
  have f: "\<lfloor>(990791918021509 / 36028797018963968 :: rat)\<rfloor> = 0"
    "\<lfloor>(7430939385161317 / 4503599627370496 :: rat)\<rfloor> = 1"
    "\<lfloor>(2744381022928895 / 70368744177664 :: rat)\<rfloor> = 38"
    by (simp_all add: floor_eq_iff)
  show ?thesis
    unfolding format_part_def f by (simp add: show_int_def digit_chars)
qed

lemma seconds_of_three_games:
  "secondsToHMS (double_of (double_of (double_of (0 + double_of (1801 / 60)) + double_of (2051 / 60))
                    + double_of (2088 / 60))) = ''00:01:38''"
  unfolding sec_a sec_b sec_c sec_1 sec_2 sec_3 secondsToHMS_def sec_hours sec_mod_3600 sec_minutes
    sec_mod_60
  using sec_parts by simp

text \<open>The rates of the examples.\<close>

lemma double_three_quarters: "double_of (3 / 4) = 3 / 4"
  using double_of_pos [of "- 1" "3 / 4" 6755399441055744] by simp

lemma double_75: "double_of (3 / 4 * 100) = 75"
  using double_of_pos [of 6 "3 / 4 * 100" 5277655813324800] by simp

lemma percent_3_4: "percent 3 4 = 75"
  unfolding percent_def of_nat_numeral double_three_quarters by (rule double_75)

lemma double_23_160: "double_of (23 / 160) = 2589569785738035 / 18014398509481984"
  using double_of_pos [of "- 3" "23 / 160" 5179139571476070] by simp

lemma double_23_160_100:
  "double_of (2589569785738035 / 18014398509481984 * 100) = 8092405580431359 / 562949953421312"
  using double_of_pos [of 3 "2589569785738035 / 18014398509481984 * 100" 8092405580431359]
  by simp

lemma percent_23_160: "percent 23 160 = 8092405580431359 / 562949953421312"
  unfolding percent_def of_nat_numeral double_23_160 by (rule double_23_160_100)

lemma double_two_thirds: "double_of (2 / 3) = 6004799503160661 / 9007199254740992"
  using double_of_pos [of "- 1" "2 / 3" 6004799503160661] by simp

lemma double_two_thirds_100:
  "double_of (6004799503160661 / 9007199254740992 * 100) = 2345624805922133 / 35184372088832"
  using double_of_pos [of 6 "6004799503160661 / 9007199254740992 * 100" 4691249611844266]
  by simp

lemma percent_2_3: "percent 2 3 = 2345624805922133 / 35184372088832"
  unfolding percent_def of_nat_numeral double_two_thirds by (rule double_two_thirds_100)

lemma show_two_digits: "show_nat 75 = ''75'' \<and> show_nat 14 = ''14'' \<and> show_nat 66 = ''66''"
  by (simp add: digit_chars)

lemma toFixed2_three_quarters: "toFixed2 (percent 3 4) = ''75.00''"
proof -
  have f: "\<lfloor>(75::rat) * 100 + 1 / 2\<rfloor> = 7500" by (simp add: floor_eq_iff)
  show ?thesis
    unfolding percent_3_4 using f
    by (simp del: show_nat.simps add: toFixed2_def Let_def show_two_digits digit_chars)
qed

lemma toFixed2_23_of_160: "toFixed2 (percent 23 160) = ''14.37''"
proof -
  have f: "\<lfloor>(8092405580431359 / 562949953421312 :: rat) * 100 + 1 / 2\<rfloor> = 1437"
    by (simp add: floor_eq_iff)
  show ?thesis
    unfolding percent_23_160 using f
    by (simp del: show_nat.simps add: toFixed2_def Let_def show_two_digits digit_chars)
qed

lemma toFixed2_23_of_160_exact: "toFixed2 (23 / 160 * 100) = ''14.38''"
proof -
  have f: "\<lfloor>(23 / 160 * 100 :: rat) * 100 + 1 / 2\<rfloor> = 1438"
    by (simp add: floor_eq_iff)
  show ?thesis
    using f by (simp del: show_nat.simps add: toFixed2_def Let_def show_two_digits digit_chars)
qed

lemma toFixed2_two_thirds: "toFixed2 (percent 2 3) = ''66.67''"
proof -
  have f: "\<lfloor>(2345624805922133 / 35184372088832 :: rat) * 100 + 1 / 2\<rfloor> = 6667"
    by (simp add: floor_eq_iff)
  show ?thesis
    unfolding percent_2_3 using f
    by (simp del: show_nat.simps add: toFixed2_def Let_def show_two_digits digit_chars)
qed

text \<open>
  C5 (as amended). In a report with at least one game the overall win rate is the string
  that \<^verbatim>\<open>toFixed(2)\<close> makes of the double \<^verbatim>\<open>(wins / games) * 100\<close>, and so is the
  rate of every stage row, whose game count is positive; the matchups are the nested cells,
  which carry no rate. The report without games carries the number 0 as its win rate. The
  string of a rate over a positive game count reads back as a number with two decimals at
  most 1/200 away from the double, and the double differs from the exact percentage by at
  most that percentage divided by \<open>2 ^ 51\<close>. 3 wins in 4 games render as 75.00; 23 wins
  in 160 games render as 14.37, where the exact percentage 14.375 would render as 14.38.
\<close>

theorem report_rates:
  "(case fst (analyzeReplays E disk files cancels opts) of
      NoGamesFound rn \<Rightarrow> sn_winRate (rn_summary rn) = Num 0
    | GamesFound rf \<Rightarrow>
        0 < totalGames (rf_summary rf)
        \<and> winRate (rf_summary rf)
            = Str (toFixed2 (percent (totalWins (rf_summary rf)) (totalGames (rf_summary rf))))
        \<and> list_all (\<lambda>(nm, row). 0 < sr_games row
              \<and> sr_winrate row = toFixed2 (percent (sr_wins row) (sr_games row)))
            (rf_stages rf)
        \<and> (\<exists>m. rf_matchups rf = Nested m))
   \<and> (0 < g \<longrightarrow>
        (\<exists>r. read_fixed2 (toFixed2 (percent w g)) = Some r \<and> \<bar>percent w g - r\<bar> \<le> 1 / 200)
        \<and> \<bar>percent w g - of_nat w / of_nat g * 100\<bar> \<le> of_nat w / of_nat g * 100 / 2 ^ 51)
   \<and> toFixed2 (percent 3 4) = ''75.00''
   \<and> toFixed2 (percent 23 160) = ''14.37''
   \<and> toFixed2 (23 / 160 * 100) = ''14.38''"
proof -
  let ?st = "final_state E disk files cancels opts"
  have inv: "acc_inv ?st" by (rule acc_inv_final)
  have r: "fst (analyzeReplays E disk files cancels opts) = build_report opts (length files) ?st"
    by (simp add: analyzeReplays_def Let_def)
  have shape: "case fst (analyzeReplays E disk files cancels opts) of
      NoGamesFound rn \<Rightarrow> sn_winRate (rn_summary rn) = Num 0
    | GamesFound rf \<Rightarrow>
        0 < totalGames (rf_summary rf)
        \<and> winRate (rf_summary rf)
            = Str (toFixed2 (percent (totalWins (rf_summary rf)) (totalGames (rf_summary rf))))
        \<and> list_all (\<lambda>(nm, row). 0 < sr_games row
              \<and> sr_winrate row = toFixed2 (percent (sr_wins row) (sr_games row)))
            (rf_stages rf)
        \<and> (\<exists>m. rf_matchups rf = Nested m)"
  proof (cases "total_games ?st = 0")
    case True
    show ?thesis
      unfolding r build_report_none [OF True] by simp
  next
    case False
    from inv have d: "distinct (map fst (stage_totals ?st))"
      by (simp add: acc_inv_def)
    from inv False obtain m where m: "matchups ?st = Some m"
      by (auto simp: acc_inv_def)
    have stages: "list_all (\<lambda>(nm, row). 0 < sr_games row
              \<and> sr_winrate row = toFixed2 (percent (sr_wins row) (sr_games row)))
            (sortedStageResults ?st)"
      unfolding list_all_iff set_sortedStageResults [OF d]
      using stage_row_facts [OF inv] by auto
    from False stages show ?thesis
      unfolding r build_report_found [OF False m]
      by (simp add: rate_def)
  qed
  from shape toFixed2_reads_back [OF percent_nonneg [of w g]] percent_error [of w g]
    toFixed2_three_quarters toFixed2_23_of_160 toFixed2_23_of_160_exact
  show ?thesis by (intro conjI impI)
qed

section \<open>The character filter\<close>

lemma indexOf_None: "(indexOf xs y = None) = (y \<notin> set xs)"
  by (induction xs) auto

lemma resolve_unknown:
  assumes "toLowerCase nm \<notin> set characters_lowercase"
  shows "resolveCharacterFilter (Some nm) = None"
  using assms by (simp add: resolveCharacterFilter_def indexOf_None [symmetric])

text \<open>
  C2 (as amended). For a name that is not in the character table,
  \<^verbatim>\<open>resolveCharacterFilter\<close> returns \<^verbatim>\<open>null\<close>, the value it returns for no name and
  for the empty name: no filter. A run with such a name on either side has the criteria of
  the run without a character filter on that side, and ends in the same state.
\<close>

theorem unknown_character_is_no_filter:
  assumes "toLowerCase nm \<notin> set characters_lowercase"
  shows "resolveCharacterFilter (Some nm) = resolveCharacterFilter None
       \<and> resolveCharacterFilter (Some nm) = resolveCharacterFilter (Some [])
       \<and> criteria_of (opts\<lparr>playerCharacter := Some nm\<rparr>) = criteria_of (opts\<lparr>playerCharacter := None\<rparr>)
       \<and> criteria_of (opts\<lparr>opponentCharacter := Some nm\<rparr>)
           = criteria_of (opts\<lparr>opponentCharacter := None\<rparr>)
       \<and> final_state E disk files cancels (opts\<lparr>playerCharacter := Some nm\<rparr>)
           = final_state E disk files cancels (opts\<lparr>playerCharacter := None\<rparr>)
       \<and> final_state E disk files cancels (opts\<lparr>opponentCharacter := Some nm\<rparr>)
           = final_state E disk files cancels (opts\<lparr>opponentCharacter := None\<rparr>)"
proof -
  have r: "resolveCharacterFilter (Some nm) = None" by (rule resolve_unknown [OF assms])
  have n: "resolveCharacterFilter None = None" "resolveCharacterFilter (Some []) = None"
    by (simp_all add: resolveCharacterFilter_def)
  have c1: "criteria_of (opts\<lparr>playerCharacter := Some nm\<rparr>) = criteria_of (opts\<lparr>playerCharacter := None\<rparr>)"
    by (simp add: criteria_of_def r n)
  have c2: "criteria_of (opts\<lparr>opponentCharacter := Some nm\<rparr>)
           = criteria_of (opts\<lparr>opponentCharacter := None\<rparr>)"
    by (simp add: criteria_of_def r n)
  show ?thesis
    unfolding final_state_def c1 c2 r n by simp
qed

section \<open>Cancellation\<close>

lemma never_False: "never i = False"
  by (simp add: never_def)

lemma loop_never_Cons:
  "replay_loop E C never n i (f # rest) False st =
     replay_loop E C never n (Suc i) rest False (loop_body E C n i f st)"
  by (simp add: never_False)

lemma loop_cancel:
  assumes "cancels (i + j)" and "\<forall>x<j. \<not> cancels (i + x)" and "Suc j < length files"
  shows "replay_loop E C cancels n i files False st =
         (if win E
          then (replay_loop E C never n i (take (Suc j) files) False st)
                 \<lparr>events := events (replay_loop E C never n i (take (Suc j) files) False st)
                             @ [Cancelled]\<rparr>
          else replay_loop E C never n i (take (Suc j) files) False st)"
  using assms
proof (induction j arbitrary: i files st)
  case 0
  then obtain f g rest where fs: "files = f # g # rest"
    by (cases files; cases "tl files") auto
  from 0 have c: "cancels i" by simp
  show ?case by (simp add: fs c never_False)
next
  case (Suc j)
  then obtain f rest where fs: "files = f # rest" by (cases files) auto
  from Suc.prems have nc: "\<not> cancels i" by (metis add.right_neutral zero_less_Suc)
  from Suc.prems have a: "cancels (Suc i + j)" by simp
  from Suc.prems have b: "\<forall>x<j. \<not> cancels (Suc i + x)"
    by (metis add_Suc_shift Suc_less_eq)
  from Suc.prems fs have l: "Suc j < length rest" by simp
  from Suc.IH [OF a b l, of "loop_body E C n i f st"]
  show ?case by (simp add: fs nc never_False)
qed

lemma events_handle_result:
  "\<exists>new. events (handle_result w C n i gd st) = events st @ new \<and> Cancelled \<notin> set new"
  by (auto simp: handle_result_def skip_def aggregate_def Let_def send_progress_def match_log_def
      accumulate_def add_stage_def add_matchup_def add_misc_def
      split: replay_result.splits option.splits)

lemma events_fetch: "events (snd (fetch E f st)) = events st"
  by (cases "fetch E f st") (use fetch_cases in fastforce)

lemma no_cancelled_loop_body:
  assumes "Cancelled \<notin> set (events st)"
  shows "Cancelled \<notin> set (events (loop_body E C n i f st))"
proof -
  obtain g st1 where f: "fetch E f st = (g, st1)" by (cases "fetch E f st")
  with events_fetch [of E f st] have e: "events st1 = events st" by simp
  show ?thesis
  proof (cases g)
    case None
    with f e assms show ?thesis by (simp add: loop_body_def send_progress_def)
  next
    case (Some gd)
    from events_handle_result [of "win E" C n i gd st1] obtain new
      where "events (handle_result (win E) C n i gd st1) = events st1 @ new"
        and "Cancelled \<notin> set new" by blast
    with f Some e assms show ?thesis by (simp add: loop_body_def)
  qed
qed

lemma no_cancelled_loop:
  assumes "Cancelled \<notin> set (events st)"
  shows "Cancelled \<notin> set (events (replay_loop E C never n i fs False st))"
  using assms
proof (induction fs arbitrary: i st)
  case Nil
  then show ?case by simp
next
  case (Cons f rest)
  have "Cancelled \<notin> set (events (loop_body E C n i f st))"
    by (rule no_cancelled_loop_body [OF Cons.prems])
  then have "Cancelled \<notin> set (events (replay_loop E C never n (Suc i) rest False
                                        (loop_body E C n i f st)))"
    by (rule Cons.IH)
  then show ?case unfolding loop_never_Cons .
qed

subsection \<open>What the loop stores in the cache\<close>

lemma cache_handle_result: "cache (handle_result w C n i gd st) = cache st"
  by (simp add: handle_result_def skip_def aggregate_def Let_def send_progress_def
      accumulate_def add_stage_def add_matchup_def add_misc_def
      split: replay_result.splits option.splits)

lemma cache_loop_body: "cache (loop_body E C n i f st) = cache (snd (fetch E f st))"
  by (cases "fetch E f st")
     (auto simp: loop_body_def cache_handle_result send_progress_def split: option.splits)

text \<open>The entry that handling a file adds: none, or its decoded data under its digest.\<close>

lemma cache_fetch:
  "cache (snd (fetch E f st)) =
     (case hashReplayFile E f of
        None \<Rightarrow> cache st
      | Some h \<Rightarrow>
          (case map_of (cache st) h of
             Some gd \<Rightarrow> cache st
           | None \<Rightarrow>
               (case decode E f of
                  None \<Rightarrow> cache st
                | Some dec \<Rightarrow> cache st @ [(h, build_gameData (Some h) f dec)])))"
proof -
  have fresh: "\<And>h v. map_of (cache st) h = None \<Longrightarrow> AList.update h v (cache st) = cache st @ [(h, v)]"
    by (rule update_fresh) (simp add: map_of_eq_None_iff)
  show ?thesis
    by (auto simp: fetch_def Let_def fresh split: option.splits)
qed

lemma cache_step_grows: "map_of (cache st) \<subseteq>\<^sub>m map_of (cache (loop_body E C n i f st))"
  unfolding cache_loop_body cache_fetch
  by (auto simp: map_le_def map_of_append dom_def split: option.splits)

lemma cache_loop_grows:
  "map_of (cache st) \<subseteq>\<^sub>m map_of (cache (replay_loop E C never n i fs False st))"
proof (induction fs arbitrary: i st)
  case Nil
  then show ?case by simp
next
  case (Cons f rest)
  have "map_of (cache st) \<subseteq>\<^sub>m map_of (cache (loop_body E C n i f st))"
    by (rule cache_step_grows)
  also have "\<dots> \<subseteq>\<^sub>m map_of (cache (replay_loop E C never n (Suc i) rest False
                                     (loop_body E C n i f st)))"
    by (rule Cons.IH)
  finally (map_le_trans) show ?case unfolding loop_never_Cons .
qed

lemma cache_step_keys:
  "fst ` set (cache (loop_body E C n i f st)) =
     fst ` set (cache st) \<union> {h. hashReplayFile E f = Some h \<and> decode E f \<noteq> None}"
  unfolding cache_loop_body cache_fetch
  by (auto simp: map_of_eq_None_iff split: option.splits dest!: map_of_SomeD) force

lemma cache_loop_keys:
  "fst ` set (cache (replay_loop E C never n i fs False st)) =
     fst ` set (cache st) \<union> {h. \<exists>f\<in>set fs. hashReplayFile E f = Some h \<and> decode E f \<noteq> None}"
proof (induction fs arbitrary: i st)
  case Nil
  then show ?case by simp
next
  case (Cons f rest)
  show ?case
    unfolding loop_never_Cons Cons.IH cache_step_keys by auto
qed

lemma build_report_events: "build_report opts n (st\<lparr>events := e\<rparr>) = build_report opts n st"
proof -
  have "sortedStageResults (st\<lparr>events := e\<rparr>) = sortedStageResults st"
    by (simp add: sortedStageResults_def stageResults_def)
  moreover have "miscStats (st\<lparr>events := e\<rparr>) = miscStats st"
    by (simp add: miscStats_def topThrow_def)
  ultimately show ?thesis
    unfolding build_report_def by simp
qed

text \<open>
  C9 (as amended). A cancel request is handled only while the loop is suspended at the
  yield of some file, after that iteration's check of the flag, so that file is still
  handled. When the first request arrives at the yield of the file with index \<open>j\<close> and
  files remain after it, the loop stops at the next check, having handled exactly the
  first \<open>j + 1\<close> files: one cancelled event is sent (when a window exists), after the
  events of those files; the report is built from the accumulators of exactly those files;
  and the cache written holds what was cached before plus an entry for each of those
  files that was hashed and decoded.
\<close>

theorem cancellation_stops_loop:
  assumes "cancels j" and "\<forall>x<j. \<not> cancels x" and "Suc j < length files"
  shows "final_state E disk files cancels opts =
           (if win E
            then (state_after E disk files opts (Suc j))
                   \<lparr>events := events (state_after E disk files opts (Suc j)) @ [Cancelled]\<rparr>
            else state_after E disk files opts (Suc j))
       \<and> fst (analyzeReplays E disk files cancels opts) =
           build_report opts (length files) (state_after E disk files opts (Suc j))
       \<and> snd (snd (analyzeReplays E disk files cancels opts)) =
           events (state_after E disk files opts (Suc j)) @ (if win E then [Cancelled] else [])
       \<and> Cancelled \<notin> set (events (state_after E disk files opts (Suc j)))
       \<and> results (fst (snd (analyzeReplays E disk files cancels opts))) =
           cache (state_after E disk files opts (Suc j))
       \<and> fst ` set (cache (state_after E disk files opts (Suc j))) =
           fst ` set (loadCache disk)
           \<union> {h. \<exists>f\<in>set (take (Suc j) files). hashReplayFile E f = Some h \<and> decode E f \<noteq> None}
       \<and> map_of (loadCache disk) \<subseteq>\<^sub>m map_of (cache (state_after E disk files opts (Suc j)))"
proof -
  let ?k = "state_after E disk files opts (Suc j)"
  have a: "cancels (0 + j)" and b: "\<forall>x<j. \<not> cancels (0 + x)"
    using assms by simp_all
  have fin: "final_state E disk files cancels opts =
           (if win E then ?k\<lparr>events := events ?k @ [Cancelled]\<rparr> else ?k)"
    unfolding final_state_def state_after_def
    by (rule loop_cancel [OF a b assms(3)])
  have nc: "Cancelled \<notin> set (events ?k)"
    unfolding state_after_def by (rule no_cancelled_loop) (simp add: init_acc_def)
  have keys: "fst ` set (cache ?k) =
           fst ` set (loadCache disk)
           \<union> {h. \<exists>f\<in>set (take (Suc j) files). hashReplayFile E f = Some h \<and> decode E f \<noteq> None}"
    unfolding state_after_def cache_loop_keys by (simp add: init_acc_def)
  have "map_of (cache (init_acc (loadCache disk))) \<subseteq>\<^sub>m map_of (cache ?k)"
    unfolding state_after_def by (rule cache_loop_grows)
  then have grows: "map_of (loadCache disk) \<subseteq>\<^sub>m map_of (cache ?k)"
    by (simp add: init_acc_def)
  have rep: "fst (analyzeReplays E disk files cancels opts) = build_report opts (length files) ?k"
    unfolding analyzeReplays_def Let_def fin by (simp add: build_report_events)
  have ev: "snd (snd (analyzeReplays E disk files cancels opts)) =
           events ?k @ (if win E then [Cancelled] else [])"
    unfolding analyzeReplays_def Let_def fin by simp
  have res: "results (fst (snd (analyzeReplays E disk files cancels opts))) = cache ?k"
    unfolding analyzeReplays_def Let_def fin by (simp add: writeCache_def)
  from fin rep ev nc res keys grows show ?thesis by blast
qed

subsection \<open>A second run over the same folder\<close>

lemma skip_frame:
  "skip (st\<lparr>decode_calls := k, cache := c, new_replays := r\<rparr>) =
     (skip st)\<lparr>decode_calls := k, cache := c, new_replays := r\<rparr>"
  by (simp add: skip_def)

lemma send_progress_frame:
  "send_progress w i n (st\<lparr>decode_calls := k, cache := c, new_replays := r\<rparr>) =
     (send_progress w i n st)\<lparr>decode_calls := k, cache := c, new_replays := r\<rparr>"
  by (simp add: send_progress_def)

lemma accumulate_frame:
  "accumulate d (st\<lparr>decode_calls := k, cache := c, new_replays := r\<rparr>) =
     (accumulate d st)\<lparr>decode_calls := k, cache := c, new_replays := r\<rparr>"
  by (simp add: accumulate_def)

lemma add_stage_frame:
  "add_stage nm d (st\<lparr>decode_calls := k, cache := c, new_replays := r\<rparr>) =
     (add_stage nm d st)\<lparr>decode_calls := k, cache := c, new_replays := r\<rparr>"
  by (simp add: add_stage_def)

lemma add_matchup_frame:
  "add_matchup d (st\<lparr>decode_calls := k, cache := c, new_replays := r\<rparr>) =
     (add_matchup d st)\<lparr>decode_calls := k, cache := c, new_replays := r\<rparr>"
  by (simp add: add_matchup_def Let_def)

lemma add_misc_frame:
  "add_misc gd d (st\<lparr>decode_calls := k, cache := c, new_replays := r\<rparr>) =
     (add_misc gd d st)\<lparr>decode_calls := k, cache := c, new_replays := r\<rparr>"
  by (simp add: add_misc_def Let_def)

lemma events_frame:
  "(st\<lparr>decode_calls := k, cache := c, new_replays := r\<rparr>)\<lparr>events := e\<rparr> =
     (st\<lparr>events := e\<rparr>)\<lparr>decode_calls := k, cache := c, new_replays := r\<rparr>"
  by simp

lemma matchups_frame:
  "(st\<lparr>decode_calls := k, cache := c, new_replays := r\<rparr>)\<lparr>matchups := m\<rparr> =
     (st\<lparr>matchups := m\<rparr>)\<lparr>decode_calls := k, cache := c, new_replays := r\<rparr>"
  by simp

lemma aggregate_frame:
  "aggregate w n i gd d nm (st\<lparr>decode_calls := k, cache := c, new_replays := r\<rparr>) =
     (aggregate w n i gd d nm st)\<lparr>decode_calls := k, cache := c, new_replays := r\<rparr>"
proof -
  have m: "matchups (add_stage nm d (accumulate d st)\<lparr>decode_calls := k, cache := c, new_replays := r\<rparr>)
           = matchups (add_stage nm d (accumulate d st))"
    by simp
  have e: "\<And>s. events (s\<lparr>decode_calls := k, cache := c, new_replays := r\<rparr>) = events s"
    by simp
  show ?thesis
    unfolding aggregate_def Let_def accumulate_frame add_stage_frame m matchups_frame
      add_matchup_frame add_misc_frame e events_frame send_progress_frame
    by (simp only: if_distrib [of "\<lambda>s. s\<lparr>decode_calls := k, cache := c, new_replays := r\<rparr>"])
qed

lemma handle_result_frame:
  "handle_result w C n i gd (st\<lparr>decode_calls := k, cache := c, new_replays := r\<rparr>) =
     (handle_result w C n i gd st)\<lparr>decode_calls := k, cache := c, new_replays := r\<rparr>"
  unfolding handle_result_def skip_frame aggregate_frame
  by (simp split: replay_result.splits option.splits)

lemma fetch_hit:
  assumes "hashReplayFile E f = Some h" and "map_of (cache st) h = Some gd"
  shows "fetch E f st = (Some gd, st)"
  using assms by (simp add: fetch_def)

lemma fetch_miss:
  assumes "hashReplayFile E f = Some h" and "map_of (cache st) h = None" and "decode E f = Some dec"
  shows "fetch E f st = (Some (build_gameData (Some h) f dec),
           st\<lparr>decode_calls := decode_calls st + 1,
              cache := AList.update h (build_gameData (Some h) f dec) (cache st),
              new_replays := new_replays st + 1\<rparr>)"
  using assms by (simp add: fetch_def Let_def)

lemma rerun_step:
  assumes "hashReplayFile E f = Some h" and "decode E f = Some dec"
    and "map_of (cache (loop_body E C n i f st)) \<subseteq>\<^sub>m map_of c'"
  shows "loop_body E C n i f (st\<lparr>decode_calls := k, cache := c', new_replays := r\<rparr>) =
           (loop_body E C n i f st)\<lparr>decode_calls := k, cache := c', new_replays := r\<rparr>"
proof (cases "map_of (cache st) h")
  case None
  let ?gd = "build_gameData (Some h) f dec"
  have f1: "fetch E f st = (Some ?gd,
           st\<lparr>decode_calls := decode_calls st + 1,
              cache := AList.update h ?gd (cache st),
              new_replays := new_replays st + 1\<rparr>)"
    by (rule fetch_miss [OF assms(1) None assms(2)])
  have b1: "loop_body E C n i f st =
      (handle_result (win E) C n i ?gd st)\<lparr>decode_calls := decode_calls st + 1,
         cache := AList.update h ?gd (cache st), new_replays := new_replays st + 1\<rparr>"
    unfolding loop_body_def f1 by (simp add: handle_result_frame)
  have "map_of (cache (loop_body E C n i f st)) h = Some ?gd"
    unfolding b1 by (simp add: update_conv')
  with assms(3) have "map_of c' h = Some ?gd"
    by (auto simp: map_le_def dom_def)
  then have f2: "fetch E f (st\<lparr>decode_calls := k, cache := c', new_replays := r\<rparr>) =
      (Some ?gd, st\<lparr>decode_calls := k, cache := c', new_replays := r\<rparr>)"
    by (intro fetch_hit [OF assms(1)]) simp
  show ?thesis
    unfolding loop_body_def f2 unfolding loop_body_def [symmetric] b1
    by (simp add: handle_result_frame)
next
  case (Some gd)
  have f1: "fetch E f st = (Some gd, st)" by (rule fetch_hit [OF assms(1) Some])
  have b1: "loop_body E C n i f st = handle_result (win E) C n i gd st"
    unfolding loop_body_def f1 by simp
  have "map_of (cache (loop_body E C n i f st)) h = Some gd"
    unfolding b1 cache_handle_result by (rule Some)
  with assms(3) have "map_of c' h = Some gd"
    by (auto simp: map_le_def dom_def)
  then have f2: "fetch E f (st\<lparr>decode_calls := k, cache := c', new_replays := r\<rparr>) =
      (Some gd, st\<lparr>decode_calls := k, cache := c', new_replays := r\<rparr>)"
    by (intro fetch_hit [OF assms(1)]) simp
  show ?thesis
    unfolding loop_body_def f2 unfolding loop_body_def [symmetric] b1
    by (simp add: handle_result_frame)
qed

lemma rerun_loop:
  assumes "\<forall>f\<in>set fs. hashReplayFile E f \<noteq> None \<and> decode E f \<noteq> None"
    and "map_of (cache (replay_loop E C never n i fs False st)) \<subseteq>\<^sub>m map_of c'"
  shows "replay_loop E C never n i fs False (st\<lparr>decode_calls := k, cache := c', new_replays := r\<rparr>) =
           (replay_loop E C never n i fs False st)\<lparr>decode_calls := k, cache := c', new_replays := r\<rparr>"
  using assms
proof (induction fs arbitrary: i st)
  case Nil
  then show ?case by simp
next
  case (Cons f rest)
  from Cons.prems(1) obtain h dec where h: "hashReplayFile E f = Some h" and dec: "decode E f = Some dec"
    by auto
  let ?s1 = "loop_body E C n i f st"
  from Cons.prems(2) have fin: "map_of (cache (replay_loop E C never n (Suc i) rest False ?s1)) \<subseteq>\<^sub>m map_of c'"
    unfolding loop_never_Cons .
  have "map_of (cache ?s1) \<subseteq>\<^sub>m map_of (cache (replay_loop E C never n (Suc i) rest False ?s1))"
    by (rule cache_loop_grows)
  then have le: "map_of (cache ?s1) \<subseteq>\<^sub>m map_of c'"
    using fin by (rule map_le_trans)
  have step: "loop_body E C n i f (st\<lparr>decode_calls := k, cache := c', new_replays := r\<rparr>) =
           ?s1\<lparr>decode_calls := k, cache := c', new_replays := r\<rparr>"
    by (rule rerun_step [OF h dec le])
  from Cons.prems(1) have rest: "\<forall>f\<in>set rest. hashReplayFile E f \<noteq> None \<and> decode E f \<noteq> None"
    by simp
  show ?case
    unfolding loop_never_Cons step by (rule Cons.IH [OF rest fin])
qed

lemma build_report_rerun:
  "build_report opts n (st\<lparr>decode_calls := k, cache := c, new_replays := r\<rparr>) =
     report_with_new_replays r (build_report opts n st)"
proof -
  have s: "sortedStageResults (st\<lparr>decode_calls := k, cache := c, new_replays := r\<rparr>) = sortedStageResults st"
    by (simp add: sortedStageResults_def stageResults_def)
  have m: "miscStats (st\<lparr>decode_calls := k, cache := c, new_replays := r\<rparr>) = miscStats st"
    by (simp add: miscStats_def topThrow_def)
  show ?thesis
    unfolding build_report_def report_with_new_replays_def s m by simp
qed

text \<open>
  C8 (as amended). When every file of the folder can be hashed and decoded and no run is
  cancelled, a second run that starts from the cache document the first run wrote
  constructs no decoder, writes the same cache document, sends the same events and returns
  the first run's report with the count of newly cached replays replaced by 0.
\<close>

theorem second_run_from_cache:
  assumes "\<forall>f\<in>set files. hashReplayFile E f \<noteq> None \<and> decode E f \<noteq> None"
  shows "decode_calls (final_state E (Some (fst (snd (analyzeReplays E disk files never opts))))
                         files never opts) = 0
       \<and> fst (analyzeReplays E (Some (fst (snd (analyzeReplays E disk files never opts))))
                files never opts)
           = report_with_new_replays 0 (fst (analyzeReplays E disk files never opts))
       \<and> fst (snd (analyzeReplays E (Some (fst (snd (analyzeReplays E disk files never opts))))
                files never opts))
           = fst (snd (analyzeReplays E disk files never opts))
       \<and> snd (snd (analyzeReplays E (Some (fst (snd (analyzeReplays E disk files never opts))))
                files never opts))
           = snd (snd (analyzeReplays E disk files never opts))"
proof -
  let ?st1 = "final_state E disk files never opts"
  let ?doc1 = "fst (snd (analyzeReplays E disk files never opts))"
  have l: "loadCache (Some ?doc1) = cache ?st1"
    by (simp add: analyzeReplays_def Let_def loadCache_def writeCache_def)
  have i: "init_acc (cache ?st1) =
             (init_acc (loadCache disk))\<lparr>decode_calls := 0, cache := cache ?st1, new_replays := 0\<rparr>"
    by (simp add: init_acc_def)
  have le: "map_of (cache (replay_loop E (criteria_of opts) never (length files) 0 files False
                             (init_acc (loadCache disk)))) \<subseteq>\<^sub>m map_of (cache ?st1)"
    unfolding final_state_def by (rule map_le_refl)
  have fin2: "final_state E (Some ?doc1) files never opts =
                ?st1\<lparr>decode_calls := 0, cache := cache ?st1, new_replays := 0\<rparr>"
    unfolding final_state_def [of E "Some ?doc1"] l i
    unfolding rerun_loop [OF assms le] final_state_def [symmetric] ..
  have d: "decode_calls (final_state E (Some ?doc1) files never opts) = 0"
    unfolding fin2 by simp
  have r: "fst (analyzeReplays E (Some ?doc1) files never opts)
           = report_with_new_replays 0 (fst (analyzeReplays E disk files never opts))"
  proof -
    have "fst (analyzeReplays E (Some ?doc1) files never opts)
            = build_report opts (length files)
                (?st1\<lparr>decode_calls := 0, cache := cache ?st1, new_replays := 0\<rparr>)"
      unfolding analyzeReplays_def [of E "Some ?doc1"] Let_def fin2 by (simp only: fst_conv)
    also have "\<dots> = report_with_new_replays 0 (build_report opts (length files) ?st1)"
      by (rule build_report_rerun)
    also have "\<dots> = report_with_new_replays 0 (fst (analyzeReplays E disk files never opts))"
      by (simp add: analyzeReplays_def Let_def)
    finally show ?thesis .
  qed
  have c: "fst (snd (analyzeReplays E (Some ?doc1) files never opts)) = ?doc1"
    unfolding analyzeReplays_def [of E "Some ?doc1"] Let_def fin2
    by (simp add: analyzeReplays_def Let_def)
  have e: "snd (snd (analyzeReplays E (Some ?doc1) files never opts))
           = snd (snd (analyzeReplays E disk files never opts))"
    unfolding analyzeReplays_def [of E "Some ?doc1"] Let_def fin2
    by (simp add: analyzeReplays_def Let_def)
  from d r c e show ?thesis by blast
qed

lemma skipped_file_sends_nothing:
  assumes "fetch E f st0 = (Some gd, st1)" and "\<not> qualifies C gd"
  shows "events (loop_body E C n i f st0) = events st0"
proof -
  have "loop_body E C n i f st0 = skip st1"
    by (rule loop_body_not_qualifying [OF assms])
  moreover have "events st1 = events st0"
    using events_fetch [of E f st0] assms(1) by simp
  ultimately show ?thesis by (simp add: skip_def)
qed

section \<open>Runs over the example folder\<close>

lemma loop_body_miss:
  assumes "hashReplayFile E f = Some h" and "map_of (cache st) h = None" and "decode E f = Some dec"
  shows "loop_body E C n i f st =
           handle_result (win E) C n i (build_gameData (Some h) f dec)
             (st\<lparr>decode_calls := decode_calls st + 1,
                 cache := AList.update h (build_gameData (Some h) f dec) (cache st),
                 new_replays := new_replays st + 1\<rparr>)"
  unfolding loop_body_def fetch_miss [OF assms] by simp

lemma loop_body_hit:
  assumes "hashReplayFile E f = Some h" and "map_of (cache st) h = Some gd"
  shows "loop_body E C n i f st = handle_result (win E) C n i gd st"
  unfolding loop_body_def fetch_hit [OF assms] by simp

lemma handle_result_Summary:
  assumes "processSingleReplay C gd = Summary d" and "stageAt (d_stage_num d) = Some nm"
  shows "handle_result w C n i gd st = aggregate w n i gd d nm st"
  using assms by (simp add: handle_result_def)

lemma ex_win: "win ex_env = True"
  by (simp add: ex_env_def)

lemma ex_hash: "hashReplayFile ex_env f = Some (''#'' @ f)"
  by (simp add: ex_env_def)

lemma ex_decode_a: "decode ex_env ''a.slp'' = Some (two_player_game ''me'' ''you'' 2 9 31 5400 4 2 10 120)"
  by (simp add: ex_env_def ex_decode_def)

lemma ex_decode_b: "decode ex_env ''b.slp'' = Some (two_player_game ''me'' ''you'' 2 20 31 7200 1 4 150 20)"
  by (simp add: ex_env_def ex_decode_def)

lemma ex_decode_c: "decode ex_env ''c.slp'' = Some (two_player_game ''me'' ''you'' 2 20 32 7200 4 3 150 20)"
  by (simp add: ex_env_def ex_decode_def)

lemma ex_decode_short:
  "decode ex_env ''short.slp'' = Some (two_player_game ''me'' ''you'' 2 20 32 600 1 0 150 20)"
  by (simp add: ex_env_def ex_decode_def)

lemma handle_a:
  "handle_result True (criteria_of ex_opts) n 0 gameA
     ((init_acc c0)\<lparr>decode_calls := k, cache := c, new_replays := r\<rparr>) = after_a n c r k"
proof -
  have p: "processSingleReplay (criteria_of ex_opts) gameA =
     Summary \<lparr>d_total_games = 1, d_total_wins = 1, d_total_seconds = 90, d_game_seconds = 90,
        d_player_character_num = Some 2, d_player_character_name = ''Fox'',
        d_opponent_character_num = Some 9, d_opponent_character_name = ''Marth'',
        d_stage_num = Some 31, d_stage_name = ''Battlefield'',
        d_player_index = 0, d_player_name = ''me'', d_player_code = [],
        d_opponent_index = 1, d_opponent_name = ''you'', d_opponent_code = []\<rparr>"
    by code_simp
  have s: "stageAt (d_stage_num
       \<lparr>d_total_games = 1, d_total_wins = 1, d_total_seconds = 90, d_game_seconds = 90,
        d_player_character_num = Some 2, d_player_character_name = ''Fox'',
        d_opponent_character_num = Some 9, d_opponent_character_name = ''Marth'',
        d_stage_num = Some 31, d_stage_name = ''Battlefield'',
        d_player_index = 0, d_player_name = ''me'', d_player_code = [],
        d_opponent_index = 1, d_opponent_name = ''you'', d_opponent_code = []\<rparr>) = Some ''Battlefield''"
    by code_simp
  have a: "aggregate True n 0 gameA
       \<lparr>d_total_games = 1, d_total_wins = 1, d_total_seconds = 90, d_game_seconds = 90,
        d_player_character_num = Some 2, d_player_character_name = ''Fox'',
        d_opponent_character_num = Some 9, d_opponent_character_name = ''Marth'',
        d_stage_num = Some 31, d_stage_name = ''Battlefield'',
        d_player_index = 0, d_player_name = ''me'', d_player_code = [],
        d_opponent_index = 1, d_opponent_name = ''you'', d_opponent_code = []\<rparr>
       ''Battlefield'' ((init_acc c0)\<lparr>decode_calls := k, cache := c, new_replays := r\<rparr>)
     = after_a n c r k"
    by code_simp
  show ?thesis
    unfolding handle_result_Summary [OF p s] by (rule a)
qed

lemma handle_b:
  "handle_result True (criteria_of ex_opts) n (Suc 0) gameB
     ((after_a n c0 r0 k0)\<lparr>decode_calls := k, cache := c, new_replays := r\<rparr>) = after_ab n c r k"
proof -
  have p: "processSingleReplay (criteria_of ex_opts) gameB =
     Summary \<lparr>d_total_games = 1, d_total_wins = 0, d_total_seconds = 120, d_game_seconds = 120,
        d_player_character_num = Some 2, d_player_character_name = ''Fox'',
        d_opponent_character_num = Some 20, d_opponent_character_name = ''Falco'',
        d_stage_num = Some 31, d_stage_name = ''Battlefield'',
        d_player_index = 0, d_player_name = ''me'', d_player_code = [],
        d_opponent_index = 1, d_opponent_name = ''you'', d_opponent_code = []\<rparr>"
    by code_simp
  have s: "stageAt (d_stage_num
       \<lparr>d_total_games = 1, d_total_wins = 0, d_total_seconds = 120, d_game_seconds = 120,
        d_player_character_num = Some 2, d_player_character_name = ''Fox'',
        d_opponent_character_num = Some 20, d_opponent_character_name = ''Falco'',
        d_stage_num = Some 31, d_stage_name = ''Battlefield'',
        d_player_index = 0, d_player_name = ''me'', d_player_code = [],
        d_opponent_index = 1, d_opponent_name = ''you'', d_opponent_code = []\<rparr>) = Some ''Battlefield''"
    by code_simp
  have a: "aggregate True n (Suc 0) gameB
       \<lparr>d_total_games = 1, d_total_wins = 0, d_total_seconds = 120, d_game_seconds = 120,
        d_player_character_num = Some 2, d_player_character_name = ''Fox'',
        d_opponent_character_num = Some 20, d_opponent_character_name = ''Falco'',
        d_stage_num = Some 31, d_stage_name = ''Battlefield'',
        d_player_index = 0, d_player_name = ''me'', d_player_code = [],
        d_opponent_index = 1, d_opponent_name = ''you'', d_opponent_code = []\<rparr>
       ''Battlefield'' ((after_a n c0 r0 k0)\<lparr>decode_calls := k, cache := c, new_replays := r\<rparr>)
     = after_ab n c r k"
    by code_simp
  show ?thesis
    unfolding handle_result_Summary [OF p s] by (rule a)
qed

lemma handle_c:
  "handle_result True (criteria_of ex_opts) n (Suc (Suc 0)) gameC
     ((after_ab n c0 r0 k0)\<lparr>decode_calls := k, cache := c, new_replays := r\<rparr>) = after_abc n c r k"
proof -
  have p: "processSingleReplay (criteria_of ex_opts) gameC =
     Summary \<lparr>d_total_games = 1, d_total_wins = 1, d_total_seconds = 120, d_game_seconds = 120,
        d_player_character_num = Some 2, d_player_character_name = ''Fox'',
        d_opponent_character_num = Some 20, d_opponent_character_name = ''Falco'',
        d_stage_num = Some 32, d_stage_name = ''Final Destination'',
        d_player_index = 0, d_player_name = ''me'', d_player_code = [],
        d_opponent_index = 1, d_opponent_name = ''you'', d_opponent_code = []\<rparr>"
    by code_simp
  have s: "stageAt (d_stage_num
       \<lparr>d_total_games = 1, d_total_wins = 1, d_total_seconds = 120, d_game_seconds = 120,
        d_player_character_num = Some 2, d_player_character_name = ''Fox'',
        d_opponent_character_num = Some 20, d_opponent_character_name = ''Falco'',
        d_stage_num = Some 32, d_stage_name = ''Final Destination'',
        d_player_index = 0, d_player_name = ''me'', d_player_code = [],
        d_opponent_index = 1, d_opponent_name = ''you'', d_opponent_code = []\<rparr>) = Some ''Final Destination''"
    by code_simp
  have a: "aggregate True n (Suc (Suc 0)) gameC
       \<lparr>d_total_games = 1, d_total_wins = 1, d_total_seconds = 120, d_game_seconds = 120,
        d_player_character_num = Some 2, d_player_character_name = ''Fox'',
        d_opponent_character_num = Some 20, d_opponent_character_name = ''Falco'',
        d_stage_num = Some 32, d_stage_name = ''Final Destination'',
        d_player_index = 0, d_player_name = ''me'', d_player_code = [],
        d_opponent_index = 1, d_opponent_name = ''you'', d_opponent_code = []\<rparr>
       ''Final Destination'' ((after_ab n c0 r0 k0)\<lparr>decode_calls := k, cache := c, new_replays := r\<rparr>)
     = after_abc n c r k"
    by code_simp
  show ?thesis
    unfolding handle_result_Summary [OF p s] by (rule a)
qed

lemma body_a:
  "loop_body ex_env (criteria_of ex_opts) n 0 ''a.slp'' (init_acc []) =
     after_a n [(''#a.slp'', gameA)] 1 1"
proof -
  have m: "map_of (cache (init_acc [])) (''#'' @ ''a.slp'') = None"
    by (simp add: init_acc_def)
  have g: "build_gameData (Some (''#'' @ ''a.slp'')) ''a.slp''
             (two_player_game ''me'' ''you'' 2 9 31 5400 4 2 10 120) = gameA"
    by (simp add: gameA_def)
  show ?thesis
    unfolding loop_body_miss [OF ex_hash m ex_decode_a] g ex_win handle_a
    by (simp add: init_acc_def)
qed

lemma body_a_cached:
  "loop_body ex_env (criteria_of ex_opts) n 0 ''a.slp'' (init_acc [(''#a.slp'', gameA)]) =
     after_a n [(''#a.slp'', gameA)] 0 0"
proof -
  have m: "map_of (cache (init_acc [(''#a.slp'', gameA)])) (''#'' @ ''a.slp'') = Some gameA"
    by (simp add: init_acc_def)
  have i: "init_acc [(''#a.slp'', gameA)] =
       (init_acc [(''#a.slp'', gameA)])\<lparr>decode_calls := 0, cache := [(''#a.slp'', gameA)],
                                          new_replays := 0\<rparr>"
    by (simp add: init_acc_def)
  show ?thesis
    unfolding loop_body_hit [OF ex_hash m] ex_win
    by (subst i) (rule handle_a)
qed

lemma body_b:
  "loop_body ex_env (criteria_of ex_opts) n (Suc 0) ''b.slp'' (after_a n [(''#a.slp'', gameA)] 1 1) =
     after_ab n [(''#a.slp'', gameA), (''#b.slp'', gameB)] 2 2"
proof -
  have m: "map_of (cache (after_a n [(''#a.slp'', gameA)] 1 1)) (''#'' @ ''b.slp'') = None"
    by (simp add: after_a_def)
  have g: "build_gameData (Some (''#'' @ ''b.slp'')) ''b.slp''
             (two_player_game ''me'' ''you'' 2 20 31 7200 1 4 150 20) = gameB"
    by (simp add: gameB_def)
  show ?thesis
    unfolding loop_body_miss [OF ex_hash m ex_decode_b] g ex_win handle_b
    by (simp add: after_a_def numeral_2_eq_2)
qed

lemma body_c:
  "loop_body ex_env (criteria_of ex_opts) n (Suc (Suc 0)) ''c.slp''
     (after_ab n [(''#a.slp'', gameA), (''#b.slp'', gameB)] 2 2) =
     after_abc n [(''#a.slp'', gameA), (''#b.slp'', gameB), (''#c.slp'', gameC)] 3 3"
proof -
  have m: "map_of (cache (after_ab n [(''#a.slp'', gameA), (''#b.slp'', gameB)] 2 2))
             (''#'' @ ''c.slp'') = None"
    by (simp add: after_ab_def)
  have g: "build_gameData (Some (''#'' @ ''c.slp'')) ''c.slp''
             (two_player_game ''me'' ''you'' 2 20 32 7200 4 3 150 20) = gameC"
    by (simp add: gameC_def)
  show ?thesis
    unfolding loop_body_miss [OF ex_hash m ex_decode_c] g ex_win handle_c
    by (simp add: after_ab_def numeral_2_eq_2 numeral_3_eq_3)
qed

lemma body_short:
  "loop_body ex_env (criteria_of ex_opts) n 0 ''short.slp'' (init_acc []) = after_short"
proof -
  have m: "map_of (cache (init_acc [])) (''#'' @ ''short.slp'') = None"
    by (simp add: init_acc_def)
  have g: "build_gameData (Some (''#'' @ ''short.slp'')) ''short.slp''
             (two_player_game ''me'' ''you'' 2 20 32 600 1 0 150 20) = gameShort"
    by (simp add: gameShort_def)
  have q: "\<not> qualifies (criteria_of ex_opts) gameShort"
    by code_simp
  show ?thesis
    unfolding loop_body_miss [OF ex_hash m ex_decode_short] g handle_result_not_qualifying [OF q]
    by (simp add: skip_def init_acc_def after_short_def)
qed

lemma load_none: "loadCache None = []"
  by (simp add: loadCache_def)

lemma run_a: "final_state ex_env None [''a.slp''] never ex_opts = after_a 1 [(''#a.slp'', gameA)] 1 1"
proof -
  have l: "length [''a.slp''] = 1" by simp
  show ?thesis
    unfolding final_state_def l load_none loop_never_Cons body_a replay_loop.simps(1) ..
qed

lemma run_abc:
  "final_state ex_env None [''a.slp'', ''b.slp'', ''c.slp''] never ex_opts =
     after_abc 3 [(''#a.slp'', gameA), (''#b.slp'', gameB), (''#c.slp'', gameC)] 3 3"
proof -
  have l: "length [''a.slp'', ''b.slp'', ''c.slp''] = 3" by simp
  show ?thesis
    unfolding final_state_def l load_none loop_never_Cons body_a body_b body_c
      replay_loop.simps(1) ..
qed

lemma run_short: "final_state ex_env None [''short.slp''] never ex_opts = after_short"
proof -
  have l: "length [''short.slp''] = 1" by simp
  show ?thesis
    unfolding final_state_def l load_none loop_never_Cons body_short replay_loop.simps(1) ..
qed

lemma run_a_of_two:
  "state_after ex_env None [''a.slp'', ''b.slp''] ex_opts (Suc 0) = after_a 2 [(''#a.slp'', gameA)] 1 1"
proof -
  have l: "length [''a.slp'', ''b.slp''] = 2" by simp
  have t: "take (Suc 0) [''a.slp'', ''b.slp''] = [''a.slp'']" by simp
  show ?thesis
    unfolding state_after_def l t load_none loop_never_Cons body_a replay_loop.simps(1) ..
qed

subsection \<open>Reports of the example runs\<close>

lemma report_of_run:
  "fst (analyzeReplays E disk files cancels opts) =
     build_report opts (length files) (final_state E disk files cancels opts)"
  by (simp add: analyzeReplays_def Let_def)

lemma events_of_run:
  "snd (snd (analyzeReplays E disk files cancels opts)) = events (final_state E disk files cancels opts)"
  by (simp add: analyzeReplays_def Let_def)

lemma cache_of_run:
  "loadCache (Some (fst (snd (analyzeReplays E disk files cancels opts)))) =
     cache (final_state E disk files cancels opts)"
  by (simp add: analyzeReplays_def Let_def loadCache_def writeCache_def)

lemma report_after_a:
  "build_report opts n (after_a n' c r k) =
        GamesFound
          \<lparr>rf_filters = echo_filters opts,
           rf_identity = \<lparr>playerName = [], playerCode = [], opponentName = [], opponentCode = []\<rparr>,
           rf_summary =
             \<lparr>totalGames = 1, totalWins = 1,
              winRate = Str (rate 1 1),
              analyzedTime = secondsToHMS (of_int 90),
              totalTimeAllReplays = secondsToHMS 90,
              newReplaysCached = r,
              totalReplaysScanned = n,
              skippedReplays = 0\<rparr>,
           rf_stages = sortedStageResults (after_a n' c r k),
           rf_nicknames = [], rf_codes = [],
           rf_opponents = opponent_results,
           rf_characterPlaytime = [(''Fox'', secondsToHMS (of_int 90))],
           rf_matchups = Nested [(''Fox'', [(''Marth'', \<lparr>games = 1, wins = 1, totalSeconds = 90\<rparr>)])],
           rf_misc = miscStats (after_a n' c r k)\<rparr>"
proof -
  have g: "total_games (after_a n' c r k) \<noteq> 0"
    and m: "matchups (after_a n' c r k)
              = Some [(''Fox'', [(''Marth'', \<lparr>games = 1, wins = 1, totalSeconds = 90\<rparr>)])]"
    by (simp_all add: after_a_def)
  show ?thesis
    unfolding build_report_found [OF g m] by (simp add: after_a_def)
qed

lemma report_after_abc:
  "build_report opts n (after_abc n' c r k) =
        GamesFound
          \<lparr>rf_filters = echo_filters opts,
           rf_identity = \<lparr>playerName = [], playerCode = [], opponentName = [], opponentCode = []\<rparr>,
           rf_summary =
             \<lparr>totalGames = 3, totalWins = 2,
              winRate = Str (rate 2 3),
              analyzedTime = secondsToHMS (of_int 330),
              totalTimeAllReplays = secondsToHMS 330,
              newReplaysCached = r,
              totalReplaysScanned = n,
              skippedReplays = 0\<rparr>,
           rf_stages = sortedStageResults (after_abc n' c r k),
           rf_nicknames = [], rf_codes = [],
           rf_opponents = opponent_results,
           rf_characterPlaytime = [(''Fox'', secondsToHMS (of_int 330))],
           rf_matchups = Nested [(''Fox'', [(''Marth'', \<lparr>games = 1, wins = 1, totalSeconds = 90\<rparr>),
                                            (''Falco'', \<lparr>games = 2, wins = 1, totalSeconds = 240\<rparr>)])],
           rf_misc = miscStats (after_abc n' c r k)\<rparr>"
proof -
  have g: "total_games (after_abc n' c r k) \<noteq> 0"
    and m: "matchups (after_abc n' c r k)
              = Some [(''Fox'', [(''Marth'', \<lparr>games = 1, wins = 1, totalSeconds = 90\<rparr>),
                                 (''Falco'', \<lparr>games = 2, wins = 1, totalSeconds = 240\<rparr>)])]"
    by (simp_all add: after_abc_def)
  show ?thesis
    unfolding build_report_found [OF g m] by (simp add: after_abc_def)
qed

lemma report_after_short:
  "build_report opts n after_short =
        NoGamesFound
          \<lparr>rn_message = ''No games found matching requested parameters.'',
           rn_filters = echo_filters opts,
           rn_summary =
             \<lparr>sn_totalGames = 0, sn_totalWins = 0, sn_winRate = Num 0,
              sn_analyzedTime = ''00:00:00'',
              sn_totalTimeAllReplays = secondsToHMS 0,
              sn_new_replays = 1\<rparr>,
           rn_stages = [], rn_nicknames = [], rn_codes = [], rn_opponents = [],
           rn_matchups = []\<rparr>"
proof -
  have g: "total_games after_short = 0"
    by (simp add: after_short_def init_acc_def)
  show ?thesis
    unfolding build_report_none [OF g] by (simp add: after_short_def init_acc_def)
qed

text \<open>
  With the unknown name "nobody" as the player's character the one long game of the folder
  is still counted.
\<close>

theorem unknown_filter_counts_game:
  "resolveCharacterFilter (Some ''nobody'') = None
   \<and> report_totalGames (fst (analyzeReplays ex_env None [''a.slp''] never
                               (ex_opts\<lparr>playerCharacter := Some ''nobody''\<rparr>))) = 1"
proof -
  have r: "resolveCharacterFilter (Some ''nobody'') = None"
    by code_simp
  have rn: "resolveCharacterFilter None = None"
    by (simp add: resolveCharacterFilter_def)
  have c: "criteria_of (ex_opts\<lparr>playerCharacter := Some ''nobody''\<rparr>) = criteria_of ex_opts"
    by (simp add: criteria_of_def r rn ex_opts_def)
  have f: "final_state ex_env None [''a.slp''] never (ex_opts\<lparr>playerCharacter := Some ''nobody''\<rparr>)
             = after_a 1 [(''#a.slp'', gameA)] 1 1"
    unfolding final_state_def c unfolding final_state_def [symmetric] by (rule run_a)
  show ?thesis
    unfolding report_of_run f report_after_a using r by (simp add: report_totalGames_def)
qed

theorem unknown_character_is_no_filter_witness:
  "resolveCharacterFilter (Some ''nobody'') = resolveCharacterFilter None
   \<and> total_games (final_state ex_env None [''a.slp''] never
                     (ex_opts\<lparr>playerCharacter := Some ''nobody''\<rparr>)) = 1"
proof -
  have h: "toLowerCase ''nobody'' \<notin> set characters_lowercase"
    by code_simp
  have o: "ex_opts\<lparr>playerCharacter := None\<rparr> = ex_opts"
    by (simp add: ex_opts_def)
  from unknown_character_is_no_filter [OF h, of ex_opts ex_env None "[''a.slp'']" never]
  show ?thesis
    unfolding o run_a by (simp add: after_a_def)
qed

text \<open>
  A folder whose only game lasts 10 seconds: the report has no games, and its win rate is a
  number.
\<close>

theorem zero_games_rate_is_number:
  "report_winRate (fst (analyzeReplays ex_env None [''short.slp''] never ex_opts)) = Num 0
   \<and> report_winRate (fst (analyzeReplays ex_env None [''short.slp''] never ex_opts)) \<noteq> Str ''0.00''"
  unfolding report_of_run run_short report_after_short by (simp add: report_winRate_def)

text \<open>
  Three games, the first against Marth and the next two against Falco: the report lists
  Marth (1 game) before Falco (2 games).
\<close>

theorem matchups_not_sorted:
  "report_matchups (fst (analyzeReplays ex_env None [''a.slp'', ''b.slp'', ''c.slp''] never ex_opts))
     = Nested [(''Fox'', [(''Marth'', \<lparr>games = 1, wins = 1, totalSeconds = 90\<rparr>),
                          (''Falco'', \<lparr>games = 2, wins = 1, totalSeconds = 240\<rparr>)])]
   \<and> \<not> matchups_descending
         (report_matchups (fst (analyzeReplays ex_env None [''a.slp'', ''b.slp'', ''c.slp''] never
                                  ex_opts)))"
  unfolding report_of_run run_abc report_after_abc
  by (simp add: report_matchups_def matchups_descending_def descending_by_def)

text \<open>
  C7. The run over the folder with the 10-second game alone sends no event at all, although
  the file was handled and skipped; a counted file does get its progress event.
\<close>

theorem no_progress_for_skipped_file:
  "snd (snd (analyzeReplays ex_env None [''short.slp''] never ex_opts)) = []
   \<and> skippedCount (final_state ex_env None [''short.slp''] never ex_opts) = 1"
  unfolding events_of_run run_short by (simp add: after_short_def init_acc_def)

theorem progress_for_counted_file:
  "snd (snd (analyzeReplays ex_env None [''a.slp''] never ex_opts))
     = [MatchLog ''me'' ''you'' ''Battlefield'' True, Progress 1 1]"
  unfolding events_of_run run_a by (simp add: after_a_def)

lemma rate_two_of_three: "rate 2 3 = ''66.67''"
  unfolding rate_def using toFixed2_two_thirds by simp

theorem report_rates_witness:
  "report_winRate (fst (analyzeReplays ex_env None [''a.slp'', ''b.slp'', ''c.slp''] never ex_opts))
     = Str ''66.67''
   \<and> report_totalGames (fst (analyzeReplays ex_env None [''a.slp'', ''b.slp'', ''c.slp''] never ex_opts))
     = 3
   \<and> (\<exists>r. read_fixed2 ''66.67'' = Some r \<and> \<bar>percent 2 3 - r\<bar> \<le> 1 / 200)"
  using report_rates [where E = ex_env and disk = None and files = "[''a.slp'', ''b.slp'', ''c.slp'']"
      and cancels = never and opts = ex_opts and w = 2 and g = 3]
  unfolding report_of_run run_abc report_after_abc
  by (simp add: report_winRate_def report_totalGames_def rate_two_of_three toFixed2_two_thirds)

theorem breakdown_order_witness:
  "descending_by (\<lambda>kr. sr_games (snd kr))
     (report_stages (fst (analyzeReplays ex_env None [''a.slp'', ''b.slp'', ''c.slp''] never ex_opts)))
   \<and> report_matchups (fst (analyzeReplays ex_env None [''a.slp'', ''b.slp'', ''c.slp''] never ex_opts))
     = Nested [(''Fox'', [(''Marth'', \<lparr>games = 1, wins = 1, totalSeconds = 90\<rparr>),
                          (''Falco'', \<lparr>games = 2, wins = 1, totalSeconds = 240\<rparr>)])]"
proof -
  have h: "0 < report_totalGames (fst (analyzeReplays ex_env None [''a.slp'', ''b.slp'', ''c.slp'']
                                         never ex_opts))"
    unfolding report_of_run run_abc report_after_abc by (simp add: report_totalGames_def)
  have m: "matchups (final_state ex_env None [''a.slp'', ''b.slp'', ''c.slp''] never ex_opts)
     = Some [(''Fox'', [(''Marth'', \<lparr>games = 1, wins = 1, totalSeconds = 90\<rparr>),
                        (''Falco'', \<lparr>games = 2, wins = 1, totalSeconds = 240\<rparr>)])]"
    unfolding run_abc by (simp add: after_abc_def)
  from breakdown_order [OF h] m show ?thesis by auto
qed

theorem wins_never_exceed_games_witness:
  "acc_wins_ok (final_state ex_env None [''a.slp'', ''b.slp'', ''c.slp''] never ex_opts)
   \<and> total_wins (final_state ex_env None [''a.slp'', ''b.slp'', ''c.slp''] never ex_opts) = 2
   \<and> total_games (final_state ex_env None [''a.slp'', ''b.slp'', ''c.slp''] never ex_opts) = 3
   \<and> report_wins_ok (fst (analyzeReplays ex_env None [''a.slp'', ''b.slp'', ''c.slp''] never ex_opts))"
proof -
  have t: "total_wins (final_state ex_env None [''a.slp'', ''b.slp'', ''c.slp''] never ex_opts) = 2"
    "total_games (final_state ex_env None [''a.slp'', ''b.slp'', ''c.slp''] never ex_opts) = 3"
    unfolding run_abc by (simp_all add: after_abc_def)
  from wins_never_exceed_games [of ex_env "criteria_of ex_opts" never 3 3
      "[''a.slp'', ''b.slp'', ''c.slp'']" "[]" None ex_opts] t
  show ?thesis by blast
qed

lemma run_a_again:
  "final_state ex_env (Some (fst (snd (analyzeReplays ex_env None [''a.slp''] never ex_opts))))
     [''a.slp''] never ex_opts = after_a 1 [(''#a.slp'', gameA)] 0 0"
proof -
  have l: "length [''a.slp''] = 1" by simp
  have c: "cache (after_a 1 [(''#a.slp'', gameA)] 1 1) = [(''#a.slp'', gameA)]"
    by (simp add: after_a_def)
  show ?thesis
    unfolding final_state_def [of _ "Some _"] cache_of_run run_a c l loop_never_Cons body_a_cached
      replay_loop.simps(1) ..
qed

text \<open>
  The second run over the folder with one long game reports 0 newly cached replays, the
  first run 1: the two reports differ.
\<close>

theorem second_report_differs:
  "fst (analyzeReplays ex_env
          (Some (fst (snd (analyzeReplays ex_env None [''a.slp''] never ex_opts))))
          [''a.slp''] never ex_opts)
     \<noteq> fst (analyzeReplays ex_env None [''a.slp''] never ex_opts)"
  unfolding report_of_run run_a_again run_a report_after_a by simp

theorem second_run_from_cache_witness:
  "decode_calls (final_state ex_env None [''a.slp''] never ex_opts) = 1
   \<and> decode_calls (final_state ex_env
          (Some (fst (snd (analyzeReplays ex_env None [''a.slp''] never ex_opts))))
          [''a.slp''] never ex_opts) = 0
   \<and> report_new_replays (fst (analyzeReplays ex_env None [''a.slp''] never ex_opts)) = 1
   \<and> report_new_replays (fst (analyzeReplays ex_env
          (Some (fst (snd (analyzeReplays ex_env None [''a.slp''] never ex_opts))))
          [''a.slp''] never ex_opts)) = 0"
proof -
  have h: "\<forall>f\<in>set [''a.slp'']. hashReplayFile ex_env f \<noteq> None \<and> decode ex_env f \<noteq> None"
    by (simp add: ex_hash ex_decode_a)
  have a: "decode_calls (final_state ex_env None [''a.slp''] never ex_opts) = 1"
    unfolding run_a by (simp add: after_a_def)
  have b: "report_new_replays (fst (analyzeReplays ex_env None [''a.slp''] never ex_opts)) = 1"
    unfolding report_of_run run_a report_after_a by (simp add: report_new_replays_def)
  have "report_new_replays (report_with_new_replays 0
           (fst (analyzeReplays ex_env None [''a.slp''] never ex_opts))) = 0"
    unfolding report_of_run run_a report_after_a
    by (simp add: report_new_replays_def report_with_new_replays_def)
  with second_run_from_cache [OF h, of None ex_opts] a b show ?thesis by simp
qed

lemma run_cancelled:
  "final_state ex_env None [''a.slp'', ''b.slp''] (cancel_at 0) ex_opts =
     (after_a 2 [(''#a.slp'', gameA)] 1 1)
       \<lparr>events := events (after_a 2 [(''#a.slp'', gameA)] 1 1) @ [Cancelled]\<rparr>"
proof -
  have l: "length [''a.slp'', ''b.slp''] = 2" by simp
  show ?thesis
    unfolding final_state_def l load_none
    by (simp add: body_a cancel_at_def ex_win)
qed

text \<open>
  Two long games, and a cancel request handled at the yield of the first file, when no file
  has been handled yet: the first file is handled all the same and the report counts it.
\<close>

theorem cancel_handles_one_more_file:
  "report_totalGames (fst (analyzeReplays ex_env None [''a.slp'', ''b.slp''] (cancel_at 0) ex_opts)) = 1
   \<and> snd (snd (analyzeReplays ex_env None [''a.slp'', ''b.slp''] (cancel_at 0) ex_opts))
       = [MatchLog ''me'' ''you'' ''Battlefield'' True, Progress 1 2, Cancelled]"
  unfolding report_of_run events_of_run run_cancelled build_report_events report_after_a
  by (simp add: report_totalGames_def after_a_def)

theorem cancellation_stops_loop_witness:
  "snd (snd (analyzeReplays ex_env None [''a.slp'', ''b.slp''] (cancel_at 0) ex_opts))
       = [MatchLog ''me'' ''you'' ''Battlefield'' True, Progress 1 2, Cancelled]
   \<and> fst (analyzeReplays ex_env None [''a.slp'', ''b.slp''] (cancel_at 0) ex_opts)
       = build_report ex_opts 2 (after_a 2 [(''#a.slp'', gameA)] 1 1)
   \<and> results (fst (snd (analyzeReplays ex_env None [''a.slp'', ''b.slp''] (cancel_at 0) ex_opts)))
       = [(''#a.slp'', gameA)]"
proof -
  have h1: "cancel_at 0 0" by (simp add: cancel_at_def)
  have h2: "\<forall>x<0. \<not> cancel_at 0 x" by simp
  have h3: "Suc 0 < length [''a.slp'', ''b.slp'']" by simp
  have e: "events (after_a 2 [(''#a.slp'', gameA)] 1 1)
             = [MatchLog ''me'' ''you'' ''Battlefield'' True, Progress 1 2]"
    and c: "cache (after_a 2 [(''#a.slp'', gameA)] 1 1) = [(''#a.slp'', gameA)]"
    by (simp_all add: after_a_def)
  from cancellation_stops_loop [OF h1 h2 h3, of ex_env None ex_opts]
  show ?thesis
    unfolding run_a_of_two e c by (simp add: ex_win numeral_2_eq_2)
qed

section \<open>Counted files\<close>

text \<open>A file that qualifies adds exactly one game and at most one win to the totals.\<close>

lemma totals_aggregate:
  "total_games (aggregate w n i gd d nm st) = total_games st + d_total_games d
   \<and> total_wins (aggregate w n i gd d nm st) = total_wins st + d_total_wins d"
  by (simp add: aggregate_def Let_def accumulate_def add_stage_def add_matchup_def add_misc_def
      send_progress_def)

lemma counted_file_adds_one_game:
  assumes "fetch E f st0 = (Some gd, st1)" and "qualifies C gd"
  shows "total_games (loop_body E C n i f st0) = total_games st0 + 1
       \<and> total_wins st0 \<le> total_wins (loop_body E C n i f st0)
       \<and> total_wins (loop_body E C n i f st0) \<le> total_wins st0 + 1"
proof -
  from assms(2) obtain d nm where p: "processSingleReplay C gd = Summary d"
    and s: "stageAt (d_stage_num d) = Some nm"
    by (auto simp: qualifies_def split: replay_result.splits)
  from summary_shape [OF p] have d: "d_total_games d = 1" "d_total_wins d \<le> 1"
    by auto
  have t: "total_games st1 = total_games st0" "total_wins st1 = total_wins st0"
    using fetch_cases [OF assms(1)] by auto
  have "loop_body E C n i f st0 = aggregate (win E) n i gd d nm st1"
    unfolding loop_body_def assms(1) by (simp add: handle_result_Summary [OF p s])
  with totals_aggregate [of "win E" n i gd d nm st1] d t show ?thesis by simp
qed

end
